(* ===== verification/Prelude.thy ===== *)
theory Prelude
  imports Main "HOL-Library.Word" "HOL-Library.Char_ord" "HOL-Library.List_Lexorder"
begin

text \<open>
  Shared ground of the development: Go errors as values, Go's push iterators
  (\<^verbatim>\<open>iter.Seq2\<close>, range-over-func) as functions of a \<open>yield\<close>, the machine
  integers, and the few functions of Go's \<^verbatim>\<open>strings\<close>, \<^verbatim>\<open>strconv\<close> and
  \<^verbatim>\<open>unicode/utf8\<close> packages that the program calls. Go strings are byte
  sequences, and an Isabelle \<open>char\<close> is one byte.
\<close>

named_theorems seq_simps \<open>equations of iterators and of the loops over them\<close>
named_theorems text_simps \<open>equations of the string functions\<close>

section \<open>Errors\<close>

text \<open>
  \<^verbatim>\<open>fmt.Errorf\<close> is kept unrendered: its format and its arguments, with a wrapped
  error (\<^verbatim>\<open>%w\<close>) as an argument. \<open>Ext\<close> is an error made by the standard
  library or by a third party, with its text; \<open>CtxErr\<close> is the error of a cancelled
  context.
\<close>

datatype goerr = Errorf string "earg list" | Ext string | CtxErr string
  and earg = AStr string | AInt int | AStrs "string list" | AErr goerr

fun wrapped :: "earg list \<Rightarrow> goerr list" where
  "wrapped [] = []"
| "wrapped (AErr e # as) = e # wrapped as"
| "wrapped (a # as) = wrapped as"

lemma wrapped_size [termination_simp]:
  "e \<in> set (wrapped as) \<Longrightarrow> size e < Suc (size_list size as)"
  by (induction as rule: wrapped.induct) auto

text \<open>\<^verbatim>\<open>errors.Is(err, target)\<close> for the errors of the model.\<close>

function errors_is :: "goerr \<Rightarrow> goerr \<Rightarrow> bool" where
  "errors_is (Errorf f as) t = (Errorf f as = t \<or> (\<exists>e \<in> set (wrapped as). errors_is e t))"
| "errors_is (Ext m) t = (Ext m = t)"
| "errors_is (CtxErr m) t = (CtxErr m = t)"
  by pat_completeness auto
termination
  by (relation "measure (size \<circ> fst)") (auto dest: wrapped_size)

section \<open>Machine integers\<close>

type_synonym int32 = "32 word"

text \<open>
  Go's \<^verbatim>\<open>int\<close> and \<^verbatim>\<open>int64\<close> are 64 bits wide. A value of either type is an
  \<open>int\<close> of the model, \<open>wrap64\<close> of it after an operation that can leave the
  range; the conversion \<^verbatim>\<open>int32(x)\<close> keeps the low 32 bits.
\<close>

definition wrap64 :: "int \<Rightarrow> int" where
  "wrap64 x = (x + 2 ^ 63) mod 2 ^ 64 - 2 ^ 63"

definition in_int64 :: "int \<Rightarrow> bool" where
  "in_int64 x \<longleftrightarrow> - (2 ^ 63) \<le> x \<and> x < 2 ^ 63"

definition int32_of :: "int \<Rightarrow> int32" where
  "int32_of x = word_of_int x"

lemma wrap64_id [simp]: "in_int64 x \<Longrightarrow> wrap64 x = x"
  by (simp add: wrap64_def in_int64_def)

lemma in_int64_wrap64 [simp]: "in_int64 (wrap64 x)"
  by (simp add: wrap64_def in_int64_def)

text \<open>Truncation to 32 bits does not see an earlier wrap-around at 64 bits.\<close>

lemma int32_of_wrap64 [simp]: "int32_of (wrap64 x) = int32_of x"
proof -
  have "wrap64 x mod 2 ^ 32 = x mod 2 ^ 32"
  proof -
    have "wrap64 x = x - 2 ^ 64 * ((x + 2 ^ 63) div 2 ^ 64)"
      by (simp add: wrap64_def minus_div_mult_eq_mod [symmetric] algebra_simps)
    also have "\<dots> = x + 2 ^ 32 * (- (2 ^ 32 * ((x + 2 ^ 63) div 2 ^ 64)))"
      by simp
    finally show ?thesis by (metis mod_mult_self2)
  qed
  then show ?thesis
    by (simp add: int32_of_def word_of_int_eq_iff take_bit_eq_mod)
qed

section \<open>Iterators\<close>

text \<open>
  A Go iterator calls \<open>yield\<close> for each item. The body of the consumer's loop is the
  \<open>yield\<close>: it returns \<open>More\<close> at the end of the body, \<open>Stop\<close> after
  \<^verbatim>\<open>break\<close> or \<^verbatim>\<open>return\<close>, \<open>Panic\<close> when the body panics, and it threads
  the state it and the iterator share. The iterator itself returns, is unwound by a panic,
  or blocks for ever.
\<close>

datatype signal = More | Stop | Panic

datatype outcome = Returned | Panicked | Blocked

type_synonym ('a, 's) yield = "'a \<Rightarrow> 's \<Rightarrow> signal \<times> 's"
type_synonym ('a, 's) seq = "('a, 's) yield \<Rightarrow> 's \<Rightarrow> outcome \<times> 's"

text \<open>
  Calling \<open>yield\<close> on the items of a list, in order, until it stops: the last signal
  and the state. \<open>feed\<close> is the iterator that does just this.
\<close>

fun drive :: "'a list \<Rightarrow> ('a, 's) yield \<Rightarrow> 's \<Rightarrow> signal \<times> 's" where
  "drive [] y s = (More, s)"
| "drive (x # xs) y s =
     (case y x s of
        (More, s') \<Rightarrow> drive xs y s'
      | (Stop, s') \<Rightarrow> (Stop, s')
      | (Panic, s') \<Rightarrow> (Panic, s'))"

fun finish :: "signal \<times> 's \<Rightarrow> outcome \<times> 's" where
  "finish (sg, s) = (if sg = Panic then Panicked else Returned, s)"

definition feed :: "'a list \<Rightarrow> ('a, 's) seq" where
  "feed xs y s = finish (drive xs y s)"

text \<open>\<^verbatim>\<open>yield(x); return\<close>\<close>

definition yield_return :: "'a \<Rightarrow> ('a, 's) seq" where
  "yield_return x y s = finish (y x s)"

text \<open>The items a consumer that never stops receives.\<close>

definition collector :: "('a, 'a list) yield" where
  "collector x acc = (More, acc @ [x])"

definition items :: "('a, 'a list) seq \<Rightarrow> 'a list" where
  "items it = snd (it collector [])"

lemma drive_append [seq_simps]:
  "drive (xs @ ys) y s =
     (case drive xs y s of
        (More, s') \<Rightarrow> drive ys y s'
      | (Stop, s') \<Rightarrow> (Stop, s')
      | (Panic, s') \<Rightarrow> (Panic, s'))"
  by (induction xs arbitrary: s) (auto split: prod.split signal.split)

lemma drive_single [simp]: "drive [x] y s = y x s"
  by (auto split: prod.split signal.split)

lemma feed_Nil [simp]: "feed [] y s = (Returned, s)"
  by (simp add: feed_def)

lemma feed_Cons [seq_simps]:
  "feed (x # xs) y s =
     (case y x s of
        (More, s') \<Rightarrow> feed xs y s'
      | (Stop, s') \<Rightarrow> (Returned, s')
      | (Panic, s') \<Rightarrow> (Panicked, s'))"
  by (simp add: feed_def split: prod.split signal.split)

lemma yield_return_feed [seq_simps]: "yield_return x = feed [x]"
  by (simp add: fun_eq_iff yield_return_def feed_def del: drive.simps)

lemma drive_collect [simp]: "drive xs collector acc = (More, acc @ xs)"
  by (induction xs arbitrary: acc) (simp_all add: collector_def)

lemma items_feed [simp]: "items (feed xs) = xs"
  by (simp add: items_def feed_def)

lemma finish_never_blocks [simp]: "fst (finish r) \<noteq> Blocked"
  by (cases r) simp

text \<open>What holds before the items and is kept by each call of \<open>yield\<close> holds after.\<close>

lemma drive_invariant:
  assumes "I s" and "\<And>x s. x \<in> set xs \<Longrightarrow> I s \<Longrightarrow> I (snd (y x s))"
  shows "I (snd (drive xs y s))"
  using assms
proof (induction xs arbitrary: s)
  case Nil
  then show ?case by simp
next
  case (Cons x xs)
  then have "I (snd (y x s))" by simp
  moreover have "\<And>s. I s \<Longrightarrow> I (snd (drive xs y s))"
    using Cons by simp
  ultimately show ?case by (auto split: prod.split signal.split)
qed

text \<open>
  The contract a range loop relies on: the iterator presents a fixed list of items, it
  calls \<open>yield\<close> on them in order, and never again after \<open>yield\<close> said stop.
\<close>

locale presents =
  fixes it :: "('a, 's) seq" and xs :: "'a list"
  assumes run: "it y s = feed xs y s"
begin

lemma not_blocked: "fst (it y s) \<noteq> Blocked"
  by (simp add: run feed_def)

lemma stops_at_once:
  "xs = x # rest \<Longrightarrow> y x s = (Stop, s') \<Longrightarrow> it y s = (Returned, s')"
  by (simp add: run feed_def)

lemma invariant:
  assumes "I s" and "\<And>x s. x \<in> set xs \<Longrightarrow> I s \<Longrightarrow> I (snd (y x s))"
  shows "I (snd (it y s))"
proof -
  have "I (snd (drive xs y s))" using assms by (rule drive_invariant)
  then show ?thesis by (cases "drive xs y s") (simp add: run feed_def)
qed

end

section \<open>Machines that step on events\<close>

text \<open>
  A concurrent part of the program is a partial function of an event and a state: \<open>None\<close> when the
  event cannot happen. A run is a list of events; a scheduler or the outside chooses them.
\<close>

fun run_steps :: "('e \<Rightarrow> 's \<Rightarrow> 's option) \<Rightarrow> 'e list \<Rightarrow> 's \<Rightarrow> 's option" where
  "run_steps step [] s = Some s"
| "run_steps step (e # es) s = (case step e s of None \<Rightarrow> None | Some t \<Rightarrow> run_steps step es t)"

lemma run_steps_append:
  "run_steps step (es @ fs) s = (case run_steps step es s of None \<Rightarrow> None | Some t \<Rightarrow> run_steps step fs t)"
  by (induction es arbitrary: s) (auto split: option.split)

text \<open>
  An invariant of a machine, which may speak of the events so far: it holds at the start, and every
  step that is possible keeps it.
\<close>

locale machine_invariant =
  fixes step :: "'e \<Rightarrow> 's \<Rightarrow> 's option" and start :: 's and I :: "'e list \<Rightarrow> 's \<Rightarrow> bool"
  assumes at_start: "I [] start"
    and kept: "I es s \<Longrightarrow> step e s = Some t \<Longrightarrow> I (es @ [e]) t"
begin

lemma along: "run_steps step es start = Some s \<Longrightarrow> I es s"
proof (induction es arbitrary: s rule: rev_induct)
  case Nil
  then show ?case using at_start by auto
next
  case (snoc e es)
  then obtain t where "run_steps step es start = Some t" "step e t = Some s"
    by (auto simp: run_steps_append split: option.splits)
  then show ?case using snoc.IH kept by blast
qed

end

end
