(* ===== verification/GoStrings.thy ===== *)
theory GoStrings
  imports Prelude
begin

text \<open>
  The functions of Go's \<^verbatim>\<open>strings\<close>, \<^verbatim>\<open>strconv\<close> and \<^verbatim>\<open>unicode/utf8\<close>
  that the program calls, on byte strings. \<open>runes\<close> cuts a string the way
  \<^verbatim>\<open>utf8.DecodeRune\<close> does: a valid encoding is one piece, a byte that starts none is
  a piece of its own.
\<close>

section \<open>Bytes and UTF-8\<close>

abbreviation code :: "char \<Rightarrow> nat" where
  "code c \<equiv> of_char c"

definition cont :: "char \<Rightarrow> bool" where
  "cont c \<longleftrightarrow> 128 \<le> code c \<and> code c \<le> 191"

text \<open>Bytes of the rune a string starts with; 0 when it starts with none.\<close>

fun rune_len :: "string \<Rightarrow> nat" where
  "rune_len [] = 0"
| "rune_len (a # s) =
    (let x = code a in
     if x < 128 then 1
     else if 194 \<le> x \<and> x \<le> 223 then
       (case s of b # _ \<Rightarrow> if cont b then 2 else 0 | _ \<Rightarrow> 0)
     else if 224 \<le> x \<and> x \<le> 239 then
       (case s of b # c # _ \<Rightarrow>
          if cont b \<and> cont c \<and> (x = 224 \<longrightarrow> 160 \<le> code b) \<and> (x = 237 \<longrightarrow> code b \<le> 159)
          then 3 else 0 | _ \<Rightarrow> 0)
     else if 240 \<le> x \<and> x \<le> 244 then
       (case s of b # c # d # _ \<Rightarrow>
          if cont b \<and> cont c \<and> cont d \<and> (x = 240 \<longrightarrow> 144 \<le> code b) \<and> (x = 244 \<longrightarrow> code b \<le> 143)
          then 4 else 0 | _ \<Rightarrow> 0)
     else 0)"

definition piece_len :: "string \<Rightarrow> nat" where
  "piece_len s = max 1 (rune_len s)"

function runes :: "string \<Rightarrow> string list" where
  "runes [] = []"
| "runes (a # s) = take (piece_len (a # s)) (a # s) # runes (drop (piece_len (a # s)) (a # s))"
  by pat_completeness auto
termination
  by (relation "measure length") (auto simp: piece_len_def)

lemma concat_runes [simp]: "concat (runes s) = s"
  by (induction s rule: runes.induct) simp_all

lemma runes_ascii [text_simps]: "code a < 128 \<Longrightarrow> runes (a # s) = [a] # runes s"
  by (simp add: piece_len_def Let_def)

declare runes.simps(2) [simp del]

lemma rune_len_le: "rune_len s \<le> length s"
  by (cases s) (auto simp: Let_def split: list.splits)

text \<open>Only the bytes of the rune itself decide where it ends.\<close>

lemma rune_len_prefix:
  "0 < rune_len s \<Longrightarrow> rune_len (take (rune_len s) s @ t) = rune_len s"
  by (cases s) (auto simp: Let_def split: list.splits if_splits)

definition utf8_valid :: "string \<Rightarrow> bool" where
  "utf8_valid s \<longleftrightarrow> (\<forall>r \<in> set (runes s). rune_len r = length r)"

section \<open>strings\<close>

fun has_prefix :: "string \<Rightarrow> string \<Rightarrow> bool" where
  "has_prefix s [] = True"
| "has_prefix [] (p # ps) = False"
| "has_prefix (a # s) (p # ps) = (a = p \<and> has_prefix s ps)"

definition trim_prefix :: "string \<Rightarrow> string \<Rightarrow> string" where
  "trim_prefix s p = (if has_prefix s p then drop (length p) s else s)"

lemma has_prefix_append [text_simps]: "has_prefix (p @ s) p"
  by (induction p) simp_all

lemma has_prefix_iff: "has_prefix s p \<longleftrightarrow> (\<exists>t. s = p @ t)"
  by (induction s p rule: has_prefix.induct) auto

lemma trim_prefix_append [text_simps]: "trim_prefix (p @ s) p = s"
  by (simp add: trim_prefix_def has_prefix_append)

text \<open>\<^verbatim>\<open>unicode.IsSpace\<close> on a piece of \<open>runes\<close>.\<close>

definition is_space :: "string \<Rightarrow> bool" where
  "is_space r \<longleftrightarrow> map code r \<in>
     {[9], [10], [11], [12], [13], [32], [194, 133], [194, 160], [225, 154, 128],
      [226, 128, 128], [226, 128, 129], [226, 128, 130], [226, 128, 131], [226, 128, 132],
      [226, 128, 133], [226, 128, 134], [226, 128, 135], [226, 128, 136], [226, 128, 137],
      [226, 128, 138], [226, 128, 168], [226, 128, 169], [226, 128, 175], [226, 129, 159],
      [227, 128, 128]}"

definition drop_while_end :: "('a \<Rightarrow> bool) \<Rightarrow> 'a list \<Rightarrow> 'a list" where
  "drop_while_end P xs = rev (dropWhile P (rev xs))"

definition trim_space :: "string \<Rightarrow> string" where
  "trim_space s = concat (drop_while_end is_space (dropWhile is_space (runes s)))"

text \<open>\<^verbatim>\<open>strings.TrimRight(s, "/")\<close> and \<^verbatim>\<open>strings.SplitN(s, sep, 2)\<close>, for a one-byte cutset
  and separator.\<close>

definition trim_right :: "string \<Rightarrow> char \<Rightarrow> string" where
  "trim_right s c = drop_while_end (\<lambda>x. x = c) s"

fun split2 :: "string \<Rightarrow> char \<Rightarrow> string list" where
  "split2 [] c = [[]]"
| "split2 (a # s) c =
     (if a = c then [[], s] else (case split2 s c of h # t \<Rightarrow> (a # h) # t | [] \<Rightarrow> [[a]]))"

text \<open>\<^verbatim>\<open>strings.Join\<close>\<close>

fun join :: "string list \<Rightarrow> string \<Rightarrow> string" where
  "join [] sep = []"
| "join [x] sep = x"
| "join (x # y # xs) sep = x @ sep @ join (y # xs) sep"

lemma split2_no: "c \<notin> set s \<Longrightarrow> split2 s c = [s]"
  by (induction s) auto

lemma split2_at: "c \<notin> set p \<Longrightarrow> split2 (p @ c # m) c = [p, m]"
  by (induction p) auto

lemma drop_while_end_Nil [simp]: "drop_while_end P [] = []"
  by (simp add: drop_while_end_def)

lemma drop_while_end_last:
  "drop_while_end P xs = [] \<or> \<not> P (last (drop_while_end P xs))"
proof (cases "dropWhile P (rev xs)")
  case Nil
  then show ?thesis by (simp add: drop_while_end_def)
next
  case (Cons a ys)
  then have "\<not> P a" by (metis dropWhile_eq_Cons_conv)
  with Cons show ?thesis by (simp add: drop_while_end_def)
qed

lemma drop_while_end_id: "xs = [] \<or> \<not> P (last xs) \<Longrightarrow> drop_while_end P xs = xs"
  by (cases xs rule: rev_cases) (simp_all add: drop_while_end_def)

lemma drop_while_end_prefix: "\<exists>ys. xs = drop_while_end P xs @ ys \<and> (\<forall>y \<in> set ys. P y)"
proof -
  have "rev xs = takeWhile P (rev xs) @ dropWhile P (rev xs)" by simp
  then have "xs = drop_while_end P xs @ rev (takeWhile P (rev xs))"
    unfolding drop_while_end_def by (metis rev_append rev_rev_ident)
  then show ?thesis by (metis set_rev set_takeWhileD)
qed

text \<open>A string that neither starts nor ends with a space is its own trimming.\<close>

lemma trim_space_id:
  assumes "runes s \<noteq> []" "\<not> is_space (hd (runes s))" "\<not> is_space (last (runes s))"
  shows "trim_space s = s"
proof -
  have "dropWhile is_space (runes s) = runes s"
    using assms(1,2) by (cases "runes s") simp_all
  with assms(3) show ?thesis by (simp add: trim_space_def drop_while_end_id)
qed

lemma trim_space_Nil [simp]: "trim_space [] = []"
  by (simp add: trim_space_def)

section \<open>strconv\<close>

text \<open>\<^verbatim>\<open>strconv.Itoa\<close>, and the digits \<^verbatim>\<open>strconv.Atoi\<close> and \<^verbatim>\<open>strconv.ParseInt\<close> read.\<close>

definition digit_char :: "nat \<Rightarrow> char" where
  "digit_char d = char_of (48 + d)"

fun digits :: "nat \<Rightarrow> string" where
  "digits n = (if n < 10 then [digit_char n] else digits (n div 10) @ [digit_char (n mod 10)])"

declare digits.simps [simp del]

definition itoa :: "int \<Rightarrow> string" where
  "itoa i = (if i < 0 then CHR ''-'' # digits (nat (- i)) else digits (nat i))"

definition is_digit :: "char \<Rightarrow> bool" where
  "is_digit c \<longleftrightarrow> 48 \<le> code c \<and> code c \<le> 57"

definition digits_val :: "string \<Rightarrow> nat" where
  "digits_val s = foldl (\<lambda>n c. 10 * n + (code c - 48)) 0 s"

definition read_digits :: "string \<Rightarrow> nat option" where
  "read_digits s = (if s \<noteq> [] \<and> list_all is_digit s then Some (digits_val s) else None)"

text \<open>Base 10, an optional sign, at least one digit, in the range of 64 bits.\<close>

definition parse_int :: "string \<Rightarrow> int option" where
  "parse_int s =
     (let (neg, ds) = (case s of
          c # cs \<Rightarrow> if c = CHR ''-'' then (True, cs) else if c = CHR ''+'' then (False, cs) else (False, s)
        | [] \<Rightarrow> (False, s))
      in case read_digits ds of
           None \<Rightarrow> None
         | Some n \<Rightarrow> (let i = (if neg then - int n else int n) in if in_int64 i then Some i else None))"

lemma code_digit_char [simp]: "d < 10 \<Longrightarrow> code (digit_char d) = 48 + d"
  by (simp add: digit_char_def of_char_of)

lemma digits_ok: "list_all is_digit (digits n) \<and> digits n \<noteq> [] \<and> digits_val (digits n) = n"
proof (induction n rule: digits.induct)
  case (1 n)
  show ?case
  proof (cases "n < 10")
    case True
    then show ?thesis by (simp add: digits.simps [of n] is_digit_def digits_val_def)
  next
    case False
    with 1 show ?thesis
      by (simp add: digits.simps [of n] is_digit_def digits_val_def foldl_append)
  qed
qed

lemma digits_hd: "is_digit (hd (digits n))"
  using digits_ok [of n] by (cases "digits n") auto

lemma parse_int_itoa: "in_int64 i \<Longrightarrow> parse_int (itoa i) = Some i"
proof -
  assume i: "in_int64 i"
  obtain c cs where d: "digits (nat i) = c # cs" using digits_ok [of "nat i"] by (cases "digits (nat i)") auto
  have c: "c \<noteq> CHR ''-''" "c \<noteq> CHR ''+''"
    using digits_hd [of "nat i"] d by (auto simp: is_digit_def)
  show ?thesis
  proof (cases "i < 0")
    case True
    then show ?thesis using i digits_ok [of "nat (- i)"]
      by (simp add: itoa_def parse_int_def read_digits_def Let_def)
  next
    case False
    then show ?thesis using i c d digits_ok [of "nat i"]
      by (simp add: itoa_def parse_int_def read_digits_def Let_def)
  qed
qed

section \<open>io\<close>

text \<open>
  What reading an \<^verbatim>\<open>io.Reader\<close> to its end gives: bytes, then an error, \<open>None\<close> for
  \<^verbatim>\<open>io.EOF\<close>. The error comes with a read that returns no bytes.
\<close>

record reader =
  bytes :: string
  fault :: "goerr option"

text \<open>
  \<^verbatim>\<open>io.ReadAll(io.LimitReader(r, n))\<close>: the reader is not asked for more once \<open>n\<close> bytes
  were read, so an error behind them is not seen.
\<close>

definition read_limited :: "int \<Rightarrow> reader \<Rightarrow> string \<times> goerr option" where
  "read_limited n r =
    (if n \<le> int (length (bytes r)) then (take (nat n) (bytes r), None) else (bytes r, fault r))"

end
