(* ===== verification/GoJson.thy ===== *)
theory GoJson
  imports GoStrings
begin

text \<open>
  Go's \<^verbatim>\<open>encoding/json\<close>, as far as the program uses it: the text of a value
  (\<^verbatim>\<open>Marshal\<close>, \<^verbatim>\<open>MarshalIndent\<close>), the value of a text, and the rules
  by which \<^verbatim>\<open>Unmarshal\<close> fills Go values. A number keeps its literal, also where
  Go decodes it into a float of an \<^verbatim>\<open>any\<close>. A key that an object repeats takes its last value, where
  Go merges the two if they are nested objects. Nesting beyond 10000 levels, which the package
  refuses, is not modelled.
\<close>

datatype json =
    JNull
  | JBool bool
  | JNum string
  | JStr string
  | JArr "json list"
  | JObj "(string \<times> json) list"

section \<open>Strings\<close>

definition hex_digit :: "nat \<Rightarrow> char" where
  "hex_digit n = (if n < 10 then char_of (48 + n) else char_of (87 + n))"

definition BS :: char where "BS = CHR 0x5C"
definition DQ :: char where "DQ = CHR 0x22"

definition u_escape :: "nat \<Rightarrow> string" where
  "u_escape n = [BS, CHR ''u'', hex_digit (n div 4096), hex_digit (n div 256 mod 16),
                          hex_digit (n div 16 mod 16), hex_digit (n mod 16)]"

text \<open>How \<^verbatim>\<open>Marshal\<close> writes one rune of a string; HTML characters are escaped.\<close>

definition quote_rune :: "string \<Rightarrow> string" where
  "quote_rune r =
    (let c = code (hd r) in
     if rune_len r = 0 then u_escape 65533
     else if c = 34 \<or> c = 92 then BS # r
     else if c = 8 then [BS, CHR ''b''] else if c = 12 then [BS, CHR ''f'']
     else if c = 10 then [BS, CHR ''n''] else if c = 13 then [BS, CHR ''r'']
     else if c = 9 then [BS, CHR ''t'']
     else if c < 32 \<or> c = 38 \<or> c = 60 \<or> c = 62 then u_escape c
     else if map code r = [226, 128, 168] then u_escape 8232
     else if map code r = [226, 128, 169] then u_escape 8233
     else r)"

definition quote_string :: "string \<Rightarrow> string" where
  "quote_string s = DQ # concat (map quote_rune (runes s)) @ [DQ]"

text \<open>The bytes of a code point.\<close>

definition utf8 :: "nat \<Rightarrow> string" where
  "utf8 n =
    map char_of
     (if n < 128 then [n]
      else if n < 2048 then [192 + n div 64, 128 + n mod 64]
      else if n < 65536 then [224 + n div 4096, 128 + n div 64 mod 64, 128 + n mod 64]
      else [240 + n div 262144, 128 + n div 4096 mod 64, 128 + n div 64 mod 64, 128 + n mod 64])"

definition hex_val :: "char \<Rightarrow> nat option" where
  "hex_val ch =
    (let c = code ch in
     if 48 \<le> c \<and> c \<le> 57 then Some (c - 48)
     else if 97 \<le> c \<and> c \<le> 102 then Some (c - 87)
     else if 65 \<le> c \<and> c \<le> 70 then Some (c - 55)
     else None)"

fun read_u :: "string \<Rightarrow> (nat \<times> string) option" where
  "read_u (a # b # c # d # s) =
    (case (hex_val a, hex_val b, hex_val c, hex_val d) of
       (Some x, Some y, Some z, Some w) \<Rightarrow> Some (4096 * x + 256 * y + 16 * z + w, s)
     | _ \<Rightarrow> None)"
| "read_u _ = None"

text \<open>
  A surrogate half is completed by the escape that follows, when that is the other half;
  a lone one reads as U+FFFD.
\<close>

definition high_half :: "nat \<Rightarrow> bool" where "high_half n \<longleftrightarrow> 55296 \<le> n \<and> n < 56320"
definition low_half :: "nat \<Rightarrow> bool" where "low_half n \<longleftrightarrow> 56320 \<le> n \<and> n < 57344"

definition read_escape_u :: "string \<Rightarrow> (string \<times> string) option" where
  "read_escape_u s =
    (case read_u s of
       None \<Rightarrow> None
     | Some (n, rest) \<Rightarrow>
         if high_half n then
           (case rest of
              b # u # t \<Rightarrow>
                if b = BS \<and> u = CHR ''u'' then
                  (case read_u t of
                     Some (m, rest') \<Rightarrow>
                       if low_half m then Some (utf8 (65536 + (n - 55296) * 1024 + (m - 56320)), rest')
                       else Some (utf8 65533, rest)
                   | None \<Rightarrow> Some (utf8 65533, rest))
                else Some (utf8 65533, rest)
            | _ \<Rightarrow> Some (utf8 65533, rest))
         else if low_half n then Some (utf8 65533, rest)
         else Some (utf8 n, rest))"

fun read_escape :: "string \<Rightarrow> (string \<times> string) option" where
  "read_escape [] = None"
| "read_escape (e # s) =
    (if e = DQ then Some ([DQ], s) else if e = BS then Some ([BS], s)
     else if e = CHR ''/'' then Some (''/'', s)
     else if e = CHR ''b'' then Some ([CHR 0x08], s) else if e = CHR ''f'' then Some ([CHR 0x0C], s)
     else if e = CHR ''n'' then Some ([CHR 0x0A], s) else if e = CHR ''r'' then Some ([CHR 0x0D], s)
     else if e = CHR ''t'' then Some ([CHR 0x09], s)
     else if e = CHR ''u'' then read_escape_u s
     else None)"

lemma read_u_shorter: "read_u s = Some (n, t) \<Longrightarrow> length t < length s"
  by (induction s rule: read_u.induct) (auto split: option.splits)

lemma read_escape_u_shorter: "read_escape_u s = Some (x, t) \<Longrightarrow> length t < length s"
  by (auto simp: read_escape_u_def split: option.splits if_splits list.splits
           dest!: read_u_shorter)

lemma read_escape_shorter: "read_escape s = Some (x, t) \<Longrightarrow> length t < length s"
  by (cases s) (auto split: if_splits dest: read_escape_u_shorter)

text \<open>The body of a string literal, after its opening quote, and what follows the literal.\<close>

function read_string :: "string \<Rightarrow> (string \<times> string) option" where
  "read_string [] = None"
| "read_string (a # s) =
    (if a = DQ then Some ([], s)
     else if a = BS then
       (case read_escape s of
          None \<Rightarrow> None
        | Some (x, t) \<Rightarrow>
            if length t < length s then map_option (apfst ((@) x)) (read_string t) else None)
     else if code a < 32 then None
     else if rune_len (a # s) = 0 then map_option (apfst ((@) (utf8 65533))) (read_string s)
     else map_option (apfst ((@) (take (rune_len (a # s)) (a # s))))
            (read_string (drop (rune_len (a # s)) (a # s))))"
  by pat_completeness auto
termination
  by (relation "measure length") auto

lemma read_string_shorter: "read_string s = Some (x, t) \<Longrightarrow> length t < length s"
proof (induction s arbitrary: x t rule: read_string.induct)
  case 1
  then show ?case by simp
next
  case (2 a s)
  then show ?case
    by (fastforce split: if_splits option.splits simp: Let_def)
qed

section \<open>Values\<close>

definition is_ws :: "char \<Rightarrow> bool" where
  "is_ws c \<longleftrightarrow> code c \<in> {9, 10, 13, 32}"

definition skip_ws :: "string \<Rightarrow> string" where
  "skip_ws = dropWhile is_ws"

definition num_char :: "char \<Rightarrow> bool" where
  "num_char c \<longleftrightarrow> is_digit c \<or> c \<in> set ''+-.eE''"

text \<open>The grammar of a number literal.\<close>

definition all_digits :: "string \<Rightarrow> bool" where
  "all_digits s \<longleftrightarrow> s \<noteq> [] \<and> list_all is_digit s"

definition exp_ok :: "string \<Rightarrow> bool" where
  "exp_ok s = (case s of
     [] \<Rightarrow> True
   | e # t \<Rightarrow> e \<in> set ''eE'' \<and>
       all_digits (case t of g # u \<Rightarrow> if g \<in> set ''+-'' then u else t | [] \<Rightarrow> t))"

definition frac_ok :: "string \<Rightarrow> bool" where
  "frac_ok s = (case s of
     [] \<Rightarrow> True
   | d # t \<Rightarrow> if d = CHR ''.'' then takeWhile is_digit t \<noteq> [] \<and> exp_ok (dropWhile is_digit t)
               else exp_ok s)"

definition num_ok :: "string \<Rightarrow> bool" where
  "num_ok s =
    (let u = (case s of c # t \<Rightarrow> if c = CHR ''-'' then t else s | [] \<Rightarrow> s);
         ds = takeWhile is_digit u
     in list_all num_char s \<and> ds \<noteq> [] \<and> (hd ds = CHR ''0'' \<longrightarrow> length ds = 1)
        \<and> frac_ok (dropWhile is_digit u))"

text \<open>
  The recursive descent spends one unit of fuel per value and per element; \<open>parse\<close>
  below starts it with enough for any text of its length.
\<close>

fun read_value :: "nat \<Rightarrow> string \<Rightarrow> (json \<times> string) option"
  and read_items :: "nat \<Rightarrow> string \<Rightarrow> (json list \<times> string) option"
  and read_members :: "nat \<Rightarrow> string \<Rightarrow> ((string \<times> json) list \<times> string) option" where
  "read_value 0 s = None"
| "read_value (Suc n) s =
    (case skip_ws s of
       [] \<Rightarrow> None
     | c # t \<Rightarrow>
         if c = DQ then map_option (apfst JStr) (read_string t)
         else if c = CHR ''['' then
           (case skip_ws t of
              d # u \<Rightarrow> if d = CHR '']'' then Some (JArr [], u)
                        else map_option (apfst JArr) (read_items n t)
            | [] \<Rightarrow> None)
         else if c = CHR ''{'' then
           (case skip_ws t of
              d # u \<Rightarrow> if d = CHR ''}'' then Some (JObj [], u)
                        else map_option (apfst JObj) (read_members n t)
            | [] \<Rightarrow> None)
         else if has_prefix (c # t) ''null'' then Some (JNull, drop 4 (c # t))
         else if has_prefix (c # t) ''true'' then Some (JBool True, drop 4 (c # t))
         else if has_prefix (c # t) ''false'' then Some (JBool False, drop 5 (c # t))
         else if num_ok (takeWhile num_char (c # t))
           then Some (JNum (takeWhile num_char (c # t)), dropWhile num_char (c # t))
         else None)"
| "read_items 0 s = None"
| "read_items (Suc n) s =
    (case read_value n s of
       None \<Rightarrow> None
     | Some (v, t) \<Rightarrow>
         (case skip_ws t of
            c # u \<Rightarrow> if c = CHR '']'' then Some ([v], u)
                      else if c = CHR '','' then map_option (apfst ((#) v)) (read_items n u)
                      else None
          | [] \<Rightarrow> None))"
| "read_members 0 s = None"
| "read_members (Suc n) s =
    (case skip_ws s of
       q # r \<Rightarrow>
         if q = DQ then
           (case read_string r of
              None \<Rightarrow> None
            | Some (k, t) \<Rightarrow>
                (case skip_ws t of
                   c # u \<Rightarrow>
                     if c = CHR '':'' then
                       (case read_value n u of
                          None \<Rightarrow> None
                        | Some (v, w) \<Rightarrow>
                            (case skip_ws w of
                               d # z \<Rightarrow> if d = CHR ''}'' then Some ([(k, v)], z)
                                         else if d = CHR '','' then map_option (apfst ((#) (k, v))) (read_members n z)
                                         else None
                             | [] \<Rightarrow> None))
                     else None
                 | [] \<Rightarrow> None))
         else None
     | [] \<Rightarrow> None)"

definition parse :: "string \<Rightarrow> json option" where
  "parse s =
    (case read_value (2 * length s + 2) s of
       Some (v, t) \<Rightarrow> if skip_ws t = [] then Some v else None
     | None \<Rightarrow> None)"

end
