(* ===== verification/JsonText.thy ===== *)
theory JsonText
  imports GoJson
begin

text \<open>
  The writer of \<^verbatim>\<open>encoding/json\<close> and its agreement with the reader: the text of a
  value, compact or indented, reads back as that value.
\<close>

section \<open>The writer\<close>

text \<open>
  \<open>w d\<close> is written where \<^verbatim>\<open>MarshalIndent\<close> starts a line at depth \<open>d\<close> (nothing,
  for \<^verbatim>\<open>Marshal\<close>), \<open>sp\<close> after a colon.
\<close>

fun emit :: "(nat \<Rightarrow> string) \<Rightarrow> string \<Rightarrow> nat \<Rightarrow> json \<Rightarrow> string"
  and emit_items :: "(nat \<Rightarrow> string) \<Rightarrow> string \<Rightarrow> nat \<Rightarrow> json list \<Rightarrow> string"
  and emit_members :: "(nat \<Rightarrow> string) \<Rightarrow> string \<Rightarrow> nat \<Rightarrow> (string \<times> json) list \<Rightarrow> string" where
  "emit w sp d JNull = ''null''"
| "emit w sp d (JBool b) = (if b then ''true'' else ''false'')"
| "emit w sp d (JNum s) = s"
| "emit w sp d (JStr s) = quote_string s"
| "emit w sp d (JArr []) = ''[]''"
| "emit w sp d (JArr (v # vs)) = CHR ''['' # w (Suc d) @ emit_items w sp (Suc d) (v # vs) @ w d @ '']''"
| "emit w sp d (JObj []) = ''{}''"
| "emit w sp d (JObj (m # ms)) = CHR ''{'' # w (Suc d) @ emit_members w sp (Suc d) (m # ms) @ w d @ ''}''"
| "emit_items w sp d [] = []"
| "emit_items w sp d [v] = emit w sp d v"
| "emit_items w sp d (v # x # vs) = emit w sp d v @ CHR '','' # w d @ emit_items w sp d (x # vs)"
| "emit_members w sp d [] = []"
| "emit_members w sp d [(k, v)] = quote_string k @ CHR '':'' # sp @ emit w sp d v"
| "emit_members w sp d ((k, v) # x # ms) =
     quote_string k @ CHR '':'' # sp @ emit w sp d v @ CHR '','' # w d @ emit_members w sp d (x # ms)"

definition marshal :: "json \<Rightarrow> string" where
  "marshal = emit (\<lambda>_. []) [] 0"

definition marshal_indent :: "json \<Rightarrow> string" where
  "marshal_indent = emit (\<lambda>d. CHR 0x0A # replicate (2 * d) (CHR '' '')) '' '' 0"

text \<open>
  What the Go program can hold: strings of valid UTF-8 (others are written with U+FFFD in
  place of the bad bytes) and number literals.
\<close>

fun wf_json :: "json \<Rightarrow> bool" where
  "wf_json (JNum s) = num_ok s"
| "wf_json (JStr s) = utf8_valid s"
| "wf_json (JArr vs) = (\<forall>v \<in> set vs. wf_json v)"
| "wf_json (JObj ms) = (\<forall>m \<in> set ms. utf8_valid (fst m) \<and> wf_json (snd m))"
| "wf_json _ = True"

section \<open>Strings read back\<close>

lemma code_BS [simp]: "code BS = 92" and code_DQ [simp]: "code DQ = 34"
  and BS_neq_DQ [simp]: "BS \<noteq> DQ" "DQ \<noteq> BS"
  by (simp_all add: BS_def DQ_def)

lemma code_hex_digit: "n < 16 \<Longrightarrow> code (hex_digit n) = (if n < 10 then 48 + n else 87 + n)"
  by (simp add: hex_digit_def of_char_of)

lemma hex_val_digit [simp]: "n < 16 \<Longrightarrow> hex_val (hex_digit n) = Some n"
  by (simp add: hex_val_def code_hex_digit Let_def)

lemma hex_digits_sum:
  "4096 * (n div 4096) + 256 * (n div 256 mod 16) + 16 * (n div 16 mod 16) + n mod 16 = (n :: nat)"
proof -
  have sum: "4096 * c + 256 * z + 16 * y + x = m"
    if "m = a * 16 + x" "a = b * 16 + y" "b = c * 16 + z" for a b c x y z m :: nat
    using that by simp
  have "n div 256 = n div 16 div 16" "n div 4096 = n div 16 div 16 div 16"
    by (simp_all add: div_mult2_eq [symmetric])
  then show ?thesis
    by (simp only:) (rule sum; rule div_mult_mod_eq [symmetric])
qed

lemma read_u_escape: "n < 65536 \<Longrightarrow> read_u (tl (tl (u_escape n)) @ t) = Some (n, t)"
proof -
  assume "n < 65536"
  then have "n div 4096 < 16" by (simp add: less_mult_imp_div_less)
  then show ?thesis using hex_digits_sum [of n] by (simp add: u_escape_def)
qed

lemma read_string_u_escape:
  assumes "n < 65536" "\<not> high_half n" "\<not> low_half n"
  shows "read_string (u_escape n @ t) = map_option (apfst ((@) (utf8 n))) (read_string t)"
proof -
  have "read_u (tl (tl (u_escape n)) @ t) = Some (n, t)" using assms(1) by (rule read_u_escape)
  then have "read_escape_u (tl (tl (u_escape n)) @ t) = Some (utf8 n, t)"
    using assms by (simp add: read_escape_u_def)
  then show ?thesis by (simp add: u_escape_def BS_def DQ_def)
qed

lemma rune_len_1: "rune_len r = length r \<Longrightarrow> r \<noteq> [] \<Longrightarrow> code (hd r) < 128 \<Longrightarrow> \<exists>c. r = [c] \<and> code c < 128"
  by (cases r) (auto simp: Let_def)

lemma utf8_ascii: "code c < 128 \<Longrightarrow> utf8 (code c) = [c]"
  by (simp add: utf8_def)

lemma read_string_ascii:
  assumes c: "code c < 128"
  shows "read_string (quote_rune [c] @ t) = map_option (apfst ((@) [c])) (read_string t)"
proof -
  have eq: "\<And>d. c = d \<longleftrightarrow> code c = code d" by simp
  let ?x = "code c"
  consider "?x = 34 \<or> ?x = 92" | "?x \<in> {8, 9, 10, 12, 13}"
    | "?x \<notin> {8, 9, 10, 12, 13}" "?x < 32 \<or> ?x = 38 \<or> ?x = 60 \<or> ?x = 62"
    | "32 \<le> ?x" "?x \<notin> {34, 38, 60, 62, 92}"
    by force
  then show ?thesis
  proof cases
    case 1
    then have "c = DQ \<or> c = BS" by (auto simp: eq)
    then show ?thesis by (auto simp: quote_rune_def)
  next
    case 2
    then have "c = CHR 0x08 \<or> c = CHR 0x09 \<or> c = CHR 0x0A \<or> c = CHR 0x0C \<or> c = CHR 0x0D"
      by (auto simp: eq)
    then show ?thesis by (auto simp: quote_rune_def BS_def DQ_def)
  next
    case 3
    then have "quote_rune [c] = u_escape ?x" by (auto simp: quote_rune_def)
    moreover have "read_string (u_escape ?x @ t) = map_option (apfst ((@) (utf8 ?x))) (read_string t)"
      using c by (intro read_string_u_escape) (auto simp: high_half_def low_half_def)
    ultimately show ?thesis using c by (simp add: utf8_ascii)
  next
    case 4
    then have "quote_rune [c] = [c]" using c by (auto simp: quote_rune_def)
    moreover have "c \<noteq> DQ" "c \<noteq> BS" using 4 by (auto simp: eq)
    ultimately show ?thesis using 4 c by simp
  qed
qed

lemma read_string_multi:
  assumes r: "rune_len r = length r" "r \<noteq> []" and c: "128 \<le> code (hd r)"
  shows "read_string (r @ t) = map_option (apfst ((@) r)) (read_string t)"
proof -
  obtain a s where a: "r = a # s" using r by (cases r) auto
  have len: "rune_len (a # s @ t) = length r"
    using rune_len_prefix [of r t] r a by simp
  have "a \<noteq> DQ" "a \<noteq> BS" using c a by (auto simp: BS_def DQ_def)
  then show ?thesis using c a len by simp
qed

lemma read_string_rune:
  assumes r: "rune_len r = length r" "r \<noteq> []"
  shows "read_string (quote_rune r @ t) = map_option (apfst ((@) r)) (read_string t)"
proof (cases "code (hd r) < 128")
  case True
  then show ?thesis using rune_len_1 [OF r] read_string_ascii by blast
next
  case False
  have chars: "map char_of (map code r) = r" by (simp add: map_idI)
  have sep: "utf8 8232 = r" if "map code r = [226, 128, 168]"
    using chars unfolding that by (simp add: utf8_def)
  have sep': "utf8 8233 = r" if "map code r = [226, 128, 169]"
    using chars unfolding that by (simp add: utf8_def)
  have u: "read_string (u_escape n @ t) = map_option (apfst ((@) (utf8 n))) (read_string t)"
    if "n = 8232 \<or> n = 8233" for n
    using that by (intro read_string_u_escape) (auto simp: high_half_def low_half_def)
  show ?thesis
    using False r u [of 8232] u [of 8233] sep sep' read_string_multi [OF r, of t]
    by (auto simp: quote_rune_def Let_def)
qed

lemma read_string_runes:
  "\<forall>r \<in> set rs. rune_len r = length r \<and> r \<noteq> [] \<Longrightarrow>
   read_string (concat (map quote_rune rs) @ DQ # t) = Some (concat rs, t)"
  by (induction rs) (simp_all add: read_string_rune)

lemma runes_nonempty: "r \<in> set (runes s) \<Longrightarrow> r \<noteq> []"
  by (induction s rule: runes.induct) (auto simp: runes.simps(2) piece_len_def simp del: rune_len.simps)

lemma read_quote_string:
  "utf8_valid s \<Longrightarrow> quote_string s = DQ # q \<Longrightarrow> read_string (q @ t) = Some (s, t)"
  using read_string_runes [of "runes s" t] runes_nonempty
  by (auto simp: quote_string_def utf8_valid_def)

section \<open>Values read back\<close>

text \<open>Fuel for a value: one unit per value and per element or member.\<close>

fun fuel :: "json \<Rightarrow> nat"
  and fuel_items :: "json list \<Rightarrow> nat"
  and fuel_members :: "(string \<times> json) list \<Rightarrow> nat" where
  "fuel (JArr vs) = Suc (fuel_items vs)"
| "fuel (JObj ms) = Suc (fuel_members ms)"
| "fuel _ = 1"
| "fuel_items [] = 0"
| "fuel_items (v # vs) = Suc (fuel v + fuel_items vs)"
| "fuel_members [] = 0"
| "fuel_members ((k, v) # ms) = Suc (fuel v + fuel_members ms)"

definition ends :: "string \<Rightarrow> bool" where
  "ends t \<longleftrightarrow> (case t of [] \<Rightarrow> True | c # _ \<Rightarrow> \<not> num_char c)"

lemma skip_ws_append [simp]: "list_all is_ws w \<Longrightarrow> skip_ws (w @ s) = skip_ws s"
  by (induction w) (simp_all add: skip_ws_def)

lemma skip_ws_Cons: "\<not> is_ws c \<Longrightarrow> skip_ws (c # s) = c # s"
  by (simp add: skip_ws_def)

lemma read_value_ws: "list_all is_ws w \<Longrightarrow> read_value n (w @ s) = read_value n s"
  by (cases n) simp_all

lemma read_members_ws: "list_all is_ws w \<Longrightarrow> read_members n (w @ s) = read_members n s"
  by (cases n) simp_all

lemma read_items_ws: "list_all is_ws w \<Longrightarrow> read_items n (w @ s) = read_items n s"
  by (cases n) (simp_all add: read_value_ws)

lemma ends_ws: "list_all is_ws w \<Longrightarrow> ends (c # s) \<Longrightarrow> ends (w @ c # s)"
  by (cases w) (auto simp: ends_def is_ws_def num_char_def is_digit_def)

text \<open>The first byte of a number is none of the bytes the reader branches on before it.\<close>

definition num_start :: "char \<Rightarrow> bool" where
  "num_start c \<longleftrightarrow> c = CHR ''-'' \<or> is_digit c"

lemma num_start_neq:
  assumes "num_start c"
  shows "\<not> is_ws c" "c \<noteq> CHR '']''" "c \<noteq> CHR ''}''" "c \<noteq> CHR ''[''" "c \<noteq> CHR ''{''"
    "c \<noteq> CHR ''n''" "c \<noteq> CHR ''t''" "c \<noteq> CHR ''f''" "c \<noteq> DQ"
proof -
  have "code c = 45 \<or> (48 \<le> code c \<and> code c \<le> 57)"
    using assms by (auto simp: num_start_def is_digit_def)
  then have "code c < 58 \<and> 44 < code c" by linarith
  then show "\<not> is_ws c" "c \<noteq> CHR '']''" "c \<noteq> CHR ''}''" "c \<noteq> CHR ''[''" "c \<noteq> CHR ''{''"
    "c \<noteq> CHR ''n''" "c \<noteq> CHR ''t''" "c \<noteq> CHR ''f''" "c \<noteq> DQ"
    by (auto simp: is_ws_def DQ_def)
qed

lemma num_ok_hd:
  assumes "num_ok s" shows "\<exists>c t. s = c # t \<and> num_start c"
proof (cases s)
  case Nil
  then show ?thesis using assms by (simp add: num_ok_def)
next
  case (Cons c t)
  then show ?thesis using assms by (cases "is_digit c") (auto simp: num_ok_def num_start_def Let_def split: if_splits)
qed

text \<open>The first byte of a written value: no space, no closing bracket.\<close>

lemma emit_hd:
  assumes "wf_json v"
  shows "\<exists>c t. emit w sp d v = c # t \<and> \<not> is_ws c \<and> c \<noteq> CHR '']'' \<and> c \<noteq> CHR ''}''"
proof (cases v)
  case (JNum s)
  then obtain c t where c: "s = c # t" "num_start c"
    using assms num_ok_hd [of s] by auto
  with JNum show ?thesis using num_start_neq [OF c(2)] by simp
next
  case (JArr vs)
  then show ?thesis by (cases vs) (auto simp: is_ws_def)
next
  case (JObj ms)
  then show ?thesis by (cases ms) (auto simp: is_ws_def)
qed (auto simp: is_ws_def quote_string_def DQ_def)

lemma takeWhile_num: "num_ok s \<Longrightarrow> ends t \<Longrightarrow>
    takeWhile num_char (s @ t) = s \<and> dropWhile num_char (s @ t) = t"
proof -
  assume s: "num_ok s" and t: "ends t"
  have "\<forall>c \<in> set s. num_char c" using s by (simp add: num_ok_def Let_def list_all_iff)
  moreover have "takeWhile num_char t = [] \<and> dropWhile num_char t = t"
    using t by (cases t) (simp_all add: ends_def)
  ultimately show ?thesis by (simp add: takeWhile_append2 dropWhile_append2)
qed

lemma read_value_num:
  assumes s: "num_ok s" and t: "ends t"
  shows "read_value (Suc n) (s @ t) = Some (JNum s, t)"
proof -
  obtain c u where c: "s = c # u" "num_start c" using num_ok_hd [OF s] by blast
  have tw: "takeWhile num_char (c # u @ t) = c # u" "dropWhile num_char (c # u @ t) = t"
    using takeWhile_num [OF s t] by (simp_all only: c(1) append_Cons)
  have "num_ok (c # u)" using s c(1) by simp
  then show ?thesis
    by (simp add: c(1) skip_ws_Cons num_start_neq [OF c(2)] tw del: takeWhile.simps dropWhile.simps)
qed

lemma quote_string_Cons: "\<exists>q. quote_string s = DQ # q"
  by (simp add: quote_string_def)

lemma read_value_str:
  assumes "utf8_valid s"
  shows "read_value (Suc n) (quote_string s @ t) = Some (JStr s, t)"
proof -
  obtain q where q: "quote_string s = DQ # q" using quote_string_Cons by blast
  have "read_string (q @ t) = Some (s, t)" using assms q by (rule read_quote_string)
  then show ?thesis by (simp add: q skip_ws_Cons is_ws_def)
qed

lemma read_value_arr:
  assumes "list_all is_ws wi" "s = c # u" "\<not> is_ws c" "c \<noteq> CHR '']''"
    and "read_items n s = Some (vs, t)"
  shows "read_value (Suc n) (CHR ''['' # wi @ s) = Some (JArr vs, t)"
  using assms read_items_ws [of wi n s] by (simp add: skip_ws_Cons is_ws_def DQ_def)

lemma read_value_obj:
  assumes "list_all is_ws wi" "s = DQ # u" "read_members n s = Some (ms, t)"
  shows "read_value (Suc n) (CHR ''{'' # wi @ s) = Some (JObj ms, t)"
  using assms read_members_ws [of wi n s] by (simp add: skip_ws_Cons is_ws_def DQ_def)

lemma read_items_one:
  assumes "read_value n s = Some (v, e @ CHR '']'' # t)" "list_all is_ws e"
  shows "read_items (Suc n) s = Some ([v], t)"
  using assms by (simp add: skip_ws_Cons is_ws_def)

lemma read_items_more:
  assumes "read_value n s = Some (v, CHR '','' # wi @ r)" "list_all is_ws wi"
    and "read_items n r = Some (vs, t)"
  shows "read_items (Suc n) s = Some (v # vs, t)"
  using assms by (simp add: skip_ws_Cons is_ws_def read_items_ws)

lemma read_members_one:
  assumes "utf8_valid k" "list_all is_ws sp" "read_value n s = Some (v, e @ CHR ''}'' # t)"
    and "list_all is_ws e"
  shows "read_members (Suc n) (quote_string k @ CHR '':'' # sp @ s) = Some ([(k, v)], t)"
proof -
  obtain q where q: "quote_string k = DQ # q" using quote_string_Cons by blast
  have "read_string (q @ CHR '':'' # sp @ s) = Some (k, CHR '':'' # sp @ s)"
    using assms(1) q by (rule read_quote_string)
  then show ?thesis using assms by (simp add: q skip_ws_Cons is_ws_def read_value_ws)
qed

lemma read_members_more:
  assumes "utf8_valid k" "list_all is_ws sp" "read_value n s = Some (v, CHR '','' # wi @ r)"
    and "list_all is_ws wi" "read_members n r = Some (ms, t)"
  shows "read_members (Suc n) (quote_string k @ CHR '':'' # sp @ s) = Some ((k, v) # ms, t)"
proof -
  obtain q where q: "quote_string k = DQ # q" using quote_string_Cons by blast
  have "read_string (q @ CHR '':'' # sp @ s) = Some (k, CHR '':'' # sp @ s)"
    using assms(1) q by (rule read_quote_string)
  then show ?thesis using assms by (simp add: q skip_ws_Cons is_ws_def read_value_ws read_members_ws)
qed

lemma emit_items_hd:
  assumes "\<forall>x \<in> set (v # vs). wf_json x"
  shows "\<exists>c u. emit_items w sp d (v # vs) @ r = c # u \<and> \<not> is_ws c \<and> c \<noteq> CHR '']''"
  using emit_hd [of v w sp d] assms by (cases vs) auto

lemma emit_members_hd: "\<exists>u. emit_members w sp d (m # ms) @ r = DQ # u"
  using quote_string_Cons [of "fst m"] by (cases m; cases ms) auto

lemma read_emit:
  "\<lbrakk>\<And>d. list_all is_ws (w d); list_all is_ws sp; wf_json v; fuel v \<le> n; ends t\<rbrakk> \<Longrightarrow>
     read_value n (emit w sp d v @ t) = Some (v, t)"
  "\<lbrakk>\<And>d. list_all is_ws (w d); list_all is_ws sp; \<forall>x \<in> set vs. wf_json x; vs \<noteq> []; fuel_items vs \<le> n; list_all is_ws e\<rbrakk> \<Longrightarrow>
     read_items n (emit_items w sp d vs @ e @ CHR '']'' # t) = Some (vs, t)"
  "\<lbrakk>\<And>d. list_all is_ws (w d); list_all is_ws sp; \<forall>m \<in> set ms. utf8_valid (fst m) \<and> wf_json (snd m); ms \<noteq> []; fuel_members ms \<le> n; list_all is_ws e\<rbrakk> \<Longrightarrow>
     read_members n (emit_members w sp d ms @ e @ CHR ''}'' # t) = Some (ms, t)"
proof (induction w sp d v and w sp d vs and w sp d ms arbitrary: n t and n e t and n e t
    rule: emit_emit_items_emit_members.induct)
  case (1 w sp d)
  then show ?case by (cases n) (simp_all add: skip_ws_Cons is_ws_def DQ_def)
next
  case (2 w sp d b)
  then show ?case by (cases n) (simp_all add: skip_ws_Cons is_ws_def DQ_def)
next
  case (3 w sp d s)
  then show ?case by (cases n) (simp_all add: read_value_num del: read_value.simps)
next
  case (4 w sp d s)
  then show ?case by (cases n) (simp_all add: read_value_str del: read_value.simps)
next
  case (5 w sp d)
  then show ?case by (cases n) (simp_all add: skip_ws_Cons is_ws_def DQ_def)
next
  case (6 w sp d v vs)
  then obtain m where n: "n = Suc m" by (cases n) auto
  obtain c u where "emit_items w sp (Suc d) (v # vs) @ w d @ '']'' @ t = c # u" "\<not> is_ws c" "c \<noteq> CHR '']''"
    using emit_items_hd [of v vs w sp "Suc d" "w d @ '']'' @ t"] "6.prems" by auto
  moreover have "read_items m (emit_items w sp (Suc d) (v # vs) @ w d @ '']'' @ t) = Some (v # vs, t)"
    using "6.IH" [where n = m and e = "w d" and t = t] "6.prems" n by simp
  ultimately show ?case using "6.prems"(1) n read_value_arr [of "w (Suc d)"] by simp
next
  case (7 w sp d)
  then show ?case by (cases n) (simp_all add: skip_ws_Cons is_ws_def DQ_def)
next
  case (8 w sp d x ms)
  then obtain m where n: "n = Suc m" by (cases n) auto
  obtain u where "emit_members w sp (Suc d) (x # ms) @ w d @ ''}'' @ t = DQ # u"
    using emit_members_hd [of w sp "Suc d" x ms "w d @ ''}'' @ t"] by auto
  moreover have "read_members m (emit_members w sp (Suc d) (x # ms) @ w d @ ''}'' @ t) = Some (x # ms, t)"
    using "8.IH" [where n = m and e = "w d" and t = t] "8.prems" n by simp
  ultimately show ?case using "8.prems"(1) n read_value_obj [of "w (Suc d)"] by simp
next
  case (9 w sp d)
  then show ?case by simp
next
  case (10 w sp d v)
  then obtain m where n: "n = Suc m" by (cases n) auto
  have "ends (e @ CHR '']'' # t)" using "10.prems" by (intro ends_ws) (simp_all add: ends_def num_char_def is_digit_def)
  then have "read_value m (emit w sp d v @ e @ CHR '']'' # t) = Some (v, e @ CHR '']'' # t)"
    using "10.IH" [where n = m] "10.prems" n by simp
  then show ?case using read_items_one "10.prems" n by simp
next
  case (11 w sp d v x vs)
  then obtain m where n: "n = Suc m" by (cases n) auto
  have e: "ends (CHR '','' # s)" for s by (simp add: ends_def num_char_def is_digit_def)
  have "read_value m (emit w sp d v @ CHR '','' # w d @ emit_items w sp d (x # vs) @ e @ CHR '']'' # t)
      = Some (v, CHR '','' # w d @ emit_items w sp d (x # vs) @ e @ CHR '']'' # t)"
    using "11.IH"(1) [where n = m] "11.prems" n e by simp
  moreover have "read_items m (emit_items w sp d (x # vs) @ e @ CHR '']'' # t) = Some (x # vs, t)"
    using "11.IH"(2) [where n = m] "11.prems" n by simp
  ultimately show ?case using read_items_more "11.prems"(1) n by simp
next
  case (12 w sp d)
  then show ?case by simp
next
  case (13 w sp d k v)
  then obtain m where n: "n = Suc m" by (cases n) auto
  have "ends (e @ CHR ''}'' # t)" using "13.prems" by (intro ends_ws) (simp_all add: ends_def num_char_def is_digit_def)
  then have "read_value m (emit w sp d v @ e @ CHR ''}'' # t) = Some (v, e @ CHR ''}'' # t)"
    using "13.IH" [where n = m] "13.prems" n by simp
  then show ?case using read_members_one "13.prems" n by simp
next
  case (14 w sp d k v x ms)
  then obtain m where n: "n = Suc m" by (cases n) auto
  have e: "ends (CHR '','' # s)" for s by (simp add: ends_def num_char_def is_digit_def)
  have "read_value m (emit w sp d v @ CHR '','' # w d @ emit_members w sp d (x # ms) @ e @ CHR ''}'' # t)
      = Some (v, CHR '','' # w d @ emit_members w sp d (x # ms) @ e @ CHR ''}'' # t)"
    using "14.IH"(1) [where n = m] "14.prems" n e by simp
  moreover have "read_members m (emit_members w sp d (x # ms) @ e @ CHR ''}'' # t) = Some (x # ms, t)"
    using "14.IH"(2) [where n = m] "14.prems" n by simp
  ultimately show ?case using read_members_more "14.prems" n by simp
qed

lemma fuel_length:
  "wf_json v \<Longrightarrow> fuel v \<le> 2 * length (emit w sp d v)"
  "\<forall>x \<in> set vs. wf_json x \<Longrightarrow> fuel_items vs \<le> 2 * length (emit_items w sp d vs) + 1"
  "\<forall>m \<in> set ms. utf8_valid (fst m) \<and> wf_json (snd m) \<Longrightarrow> fuel_members ms \<le> 2 * length (emit_members w sp d ms)"
proof (induction w sp d v and w sp d vs and w sp d ms rule: emit_emit_items_emit_members.induct)
  case (3 w sp d s)
  then show ?case using num_ok_hd [of s] by auto
qed (auto simp: quote_string_def)

theorem parse_emit:
  assumes "\<And>d. list_all is_ws (w d)" "list_all is_ws sp" "wf_json v"
  shows "parse (emit w sp 0 v) = Some v"
proof -
  have "read_value (2 * length (emit w sp 0 v) + 2) (emit w sp 0 v @ []) = Some (v, [])"
    using assms fuel_length(1) [OF assms(3), of w sp 0] by (intro read_emit(1)) (auto simp: ends_def)
  then show ?thesis by (simp add: parse_def skip_ws_def)
qed

corollary parse_marshal [simp]: "wf_json v \<Longrightarrow> parse (marshal v) = Some v"
  by (simp add: marshal_def parse_emit)

corollary parse_marshal_indent [simp]: "wf_json v \<Longrightarrow> parse (marshal_indent v) = Some v"
  unfolding marshal_indent_def
  by (rule parse_emit) (auto simp: is_ws_def list_all_iff)

text \<open>
  A Go type with its \<open>Marshal\<close> and \<open>Unmarshal\<close> rules on values: what is promised
  of the values \<open>ok\<close>, and the round trip through text that follows.
\<close>

locale json_codec =
  fixes enc :: "'a \<Rightarrow> json" and dec :: "json \<Rightarrow> 'a option" and ok :: "'a \<Rightarrow> bool"
  assumes dec_enc: "ok x \<Longrightarrow> dec (enc x) = Some x"
    and enc_wf: "ok x \<Longrightarrow> wf_json (enc x)"
begin

lemma text_roundtrip: "ok x \<Longrightarrow> Option.bind (parse (marshal (enc x))) dec = Some x"
  by (simp add: dec_enc enc_wf)

lemma indent_roundtrip: "ok x \<Longrightarrow> Option.bind (parse (marshal_indent (enc x))) dec = Some x"
  by (simp add: dec_enc enc_wf)

lemma text_injective:
  "ok x \<Longrightarrow> ok y \<Longrightarrow> marshal (enc x) = marshal (enc y) \<Longrightarrow> x = y"
  by (metis text_roundtrip option.inject)

end

end
