(* ===== verification/JsonDecode.thy ===== *)
theory JsonDecode
  imports JsonText
begin

text \<open>
  How \<^verbatim>\<open>json.Unmarshal\<close> fills Go values from a parsed text. \<open>None\<close> is an
  \<^verbatim>\<open>UnmarshalTypeError\<close>. A missing field and \<^verbatim>\<open>null\<close> leave the zero value; keys
  match without regard to case; keys no field claims are skipped.
\<close>

section \<open>Fields of a struct\<close>

text \<open>
  The package's folding of names: ASCII letters, and the two runes outside ASCII that fold
  to a letter (U+017F to S, U+212A to K).
\<close>

fun fold_name :: "string \<Rightarrow> string" where
  "fold_name [] = []"
| "fold_name (a # s) =
    (let x = code a in
     if 97 \<le> x \<and> x \<le> 122 then char_of (x - 32) # fold_name s
     else if x = 197 \<and> map code (take 1 s) = [191] then CHR ''S'' # fold_name (drop 1 s)
     else if x = 226 \<and> map code (take 2 s) = [132, 170] then CHR ''K'' # fold_name (drop 2 s)
     else a # fold_name s)"

definition field :: "string \<Rightarrow> (string \<times> json) list \<Rightarrow> json option" where
  "field k ms = map_option snd (find (\<lambda>m. fold_name (fst m) = fold_name k) (rev ms))"

section \<open>Values\<close>

definition dec_string :: "json option \<Rightarrow> string option" where
  "dec_string j = (case j of None \<Rightarrow> Some [] | Some JNull \<Rightarrow> Some [] | Some (JStr s) \<Rightarrow> Some s | _ \<Rightarrow> None)"

definition dec_int :: "json option \<Rightarrow> int option" where
  "dec_int j = (case j of None \<Rightarrow> Some 0 | Some JNull \<Rightarrow> Some 0 | Some (JNum s) \<Rightarrow> parse_int s | _ \<Rightarrow> None)"

definition dec_struct :: "((string \<times> json) list \<Rightarrow> 'a option) \<Rightarrow> json option \<Rightarrow> 'a option" where
  "dec_struct f j =
    (case j of None \<Rightarrow> f [] | Some JNull \<Rightarrow> f [] | Some (JObj ms) \<Rightarrow> f ms | _ \<Rightarrow> None)"

definition dec_ptr :: "(json option \<Rightarrow> 'a option) \<Rightarrow> json option \<Rightarrow> 'a option option" where
  "dec_ptr f j =
    (case j of None \<Rightarrow> Some None | Some JNull \<Rightarrow> Some None | Some v \<Rightarrow> map_option Some (f (Some v)))"

definition dec_list :: "(json option \<Rightarrow> 'a option) \<Rightarrow> json option \<Rightarrow> 'a list option" where
  "dec_list f j =
    (case j of None \<Rightarrow> Some [] | Some JNull \<Rightarrow> Some []
     | Some (JArr vs) \<Rightarrow> those (map (f \<circ> Some) vs) | _ \<Rightarrow> None)"

lemma field_Nil [simp]: "field k [] = None"
  by (simp add: field_def)

lemma find_append:
  "find P (xs @ ys) = (case find P xs of None \<Rightarrow> find P ys | Some x \<Rightarrow> Some x)"
  by (induction xs) simp_all

lemma field_append:
  "field k (ms @ ns) = (case field k ns of None \<Rightarrow> field k ms | Some v \<Rightarrow> Some v)"
  by (simp add: field_def find_append split: option.split)

lemma field_Cons:
  "field k ((k', v) # ms) =
    (case field k ms of None \<Rightarrow> if fold_name k' = fold_name k then Some v else None | Some w \<Rightarrow> Some w)"
  using field_append [of k "[(k', v)]" ms] by (simp add: field_def split: option.split)

lemma digits_zero: "hd (digits n) = CHR ''0'' \<Longrightarrow> n = 0"
proof (induction n rule: digits.induct)
  case (1 n)
  show ?case
  proof (cases "n < 10")
    case True
    then have "code (digit_char n) = 48" using "1.prems" by (simp add: digits.simps [of n])
    then show ?thesis using True by simp
  next
    case False
    moreover have "digits (n div 10) \<noteq> []" using digits_ok by simp
    ultimately show ?thesis using 1 by (simp add: digits.simps [of n])
  qed
qed

lemma num_ok_digits: "num_ok (digits n)" "num_ok (CHR ''-'' # digits n)"
proof -
  have d: "list_all is_digit (digits n)" "digits n \<noteq> []" using digits_ok by simp_all
  have w: "takeWhile is_digit (digits n) = digits n" "dropWhile is_digit (digits n) = []"
    using d(1) by (simp_all add: list_all_iff)
  have z: "hd (digits n) = CHR ''0'' \<longrightarrow> length (digits n) = 1"
    using digits_zero [of n] by (auto simp: digits.simps [of 0])
  obtain c cs where c: "digits n = c # cs" using d(2) by (cases "digits n") auto
  have "c \<noteq> CHR ''-''" using digits_hd [of n] c by (auto simp: is_digit_def)
  moreover have "list_all num_char (digits n)" using d(1) by (auto simp: list_all_iff num_char_def)
  ultimately show "num_ok (digits n)" "num_ok (CHR ''-'' # digits n)"
    using w z c by (simp_all add: num_ok_def frac_ok_def num_char_def)
qed

lemma num_ok_itoa [simp]: "num_ok (itoa i)"
  by (simp add: itoa_def num_ok_digits)

lemma utf8_valid_ascii: "list_all (\<lambda>c. code c < 128) s \<Longrightarrow> utf8_valid s"
  by (induction s) (auto simp: utf8_valid_def runes_ascii)

lemma utf8_valid_Nil [simp]: "utf8_valid []"
  by (simp add: utf8_valid_def)

lemma utf8_valid_Cons [text_simps]: "code a < 128 \<Longrightarrow> utf8_valid (a # s) = utf8_valid s"
  by (simp add: utf8_valid_def runes_ascii)

text \<open>
  An \<^verbatim>\<open>any\<close>: objects become Go maps, kept here in the order of their keys, each key
  once, with its last value.
\<close>

fun upsert :: "string \<Rightarrow> 'v \<Rightarrow> (string \<times> 'v) list \<Rightarrow> (string \<times> 'v) list" where
  "upsert k v [] = [(k, v)]"
| "upsert k v ((k', v') # ms) =
    (if k = k' then (k, v) # ms else if k < k' then (k, v) # (k', v') # ms
     else (k', v') # upsert k v ms)"

fun canon :: "json \<Rightarrow> json"
  and canon_items :: "json list \<Rightarrow> json list"
  and canon_members :: "(string \<times> json) list \<Rightarrow> (string \<times> json) list \<Rightarrow> (string \<times> json) list" where
  "canon (JArr vs) = JArr (canon_items vs)"
| "canon (JObj ms) = JObj (canon_members ms [])"
| "canon v = v"
| "canon_items [] = []"
| "canon_items (v # vs) = canon v # canon_items vs"
| "canon_members [] acc = acc"
| "canon_members ((k, v) # ms) acc = canon_members ms (upsert k (canon v) acc)"

text \<open>\<^verbatim>\<open>map[string]any\<close>: \<open>None\<close> is the nil map.\<close>

type_synonym gomap = "(string \<times> json) list option"

definition dec_map :: "json \<Rightarrow> gomap option" where
  "dec_map j = (case j of JNull \<Rightarrow> Some None | JObj ms \<Rightarrow> Some (Some (canon_members ms [])) | _ \<Rightarrow> None)"

definition enc_map :: "gomap \<Rightarrow> json" where
  "enc_map m = (case m of None \<Rightarrow> JNull | Some ms \<Rightarrow> JObj ms)"

text \<open>Values an \<^verbatim>\<open>any\<close> can hold: every object sorted by key.\<close>

fun canonical :: "json \<Rightarrow> bool" where
  "canonical (JArr vs) = (\<forall>v \<in> set vs. canonical v)"
| "canonical (JObj ms) = (sorted_wrt (<) (map fst ms) \<and> (\<forall>m \<in> set ms. canonical (snd m)))"
| "canonical _ = True"

definition canonical_map :: "gomap \<Rightarrow> bool" where
  "canonical_map m \<longleftrightarrow> canonical (enc_map m) \<and> wf_json (enc_map m)"

lemma upsert_last:
  "\<forall>m \<in> set ms. fst m < k \<Longrightarrow> upsert k v ms = ms @ [(k, v)]"
  by (induction ms) (auto dest: less_asym)

lemma keys_upsert [simp]: "set (map fst (upsert k v ms)) = insert k (set (map fst ms))"
  by (induction k v ms rule: upsert.induct) (simp_all del: set_map add: insert_commute)

lemma ball_upsert: "P (k, v) \<Longrightarrow> \<forall>m \<in> set ms. P m \<Longrightarrow> \<forall>m \<in> set (upsert k v ms). P m"
  by (induction k v ms rule: upsert.induct) auto

lemma sorted_upsert: "sorted_wrt (<) (map fst ms) \<Longrightarrow> sorted_wrt (<) (map fst (upsert k v ms))"
proof (induction k v ms rule: upsert.induct)
  case (1 k v)
  then show ?case by simp
next
  case (2 k v k' v' ms)
  have "\<forall>x \<in> set (map fst (upsert k v ms)). k' < x" if "k' < k"
    using that "2.prems" by (auto simp del: set_map simp: keys_upsert)
  with 2 show ?case by (auto dest: less_trans)
qed

text \<open>Decoding into an \<^verbatim>\<open>any\<close> gives a value an \<^verbatim>\<open>any\<close> can hold, and leaves such a value as it is.\<close>

lemma canon_canonical:
  "canonical (canon v)"
  "\<forall>v \<in> set (canon_items vs). canonical v"
  "canonical (JObj acc) \<Longrightarrow> canonical (JObj (canon_members ms acc))"
proof (induction v and vs and ms acc rule: canon_canon_items_canon_members.induct)
  case (7 k v ms acc)
  have "canonical (JObj (upsert k (canon v) acc))"
    using "7.IH"(1) "7.prems" sorted_upsert [of acc k "canon v"]
      ball_upsert [of "\<lambda>m. canonical (snd m)" k "canon v" acc]
    by (simp del: map_map)
  then have "canonical (JObj (canon_members ms (upsert k (canon v) acc)))" by (rule "7.IH"(2))
  then show ?case by (simp only: canon_members.simps)
qed simp_all

lemma canon_id:
  "canonical v \<Longrightarrow> canon v = v"
  "\<forall>v \<in> set vs. canonical v \<Longrightarrow> canon_items vs = vs"
  "canonical (JObj (acc @ ms)) \<Longrightarrow> canon_members ms acc = acc @ ms"
proof (induction v and vs and ms acc rule: canon_canon_items_canon_members.induct)
  case (7 k v ms acc)
  have "\<forall>m \<in> set acc. fst m < k" using "7.prems" by (auto simp: sorted_wrt_append)
  then have "upsert k v acc = acc @ [(k, v)]" by (rule upsert_last)
  with 7 show ?case by simp
qed simp_all

text \<open>The map as an interface value written and read back.\<close>

interpretation args: json_codec enc_map dec_map canonical_map
proof
  fix m :: gomap
  assume m: "canonical_map m"
  then show "wf_json (enc_map m)" by (simp add: canonical_map_def)
  show "dec_map (enc_map m) = Some m"
    using m canon_id(3) [of "[]"] by (cases m) (auto simp: canonical_map_def enc_map_def dec_map_def)
qed

text \<open>
  \<^verbatim>\<open>json.Unmarshal([]byte(s), &args)\<close> into a nil \<^verbatim>\<open>map[string]any\<close>: the error, if
  there is one, and the map, nil after an error.
\<close>

definition unmarshal_args :: "string \<Rightarrow> bool \<times> gomap" where
  "unmarshal_args s =
    (case Option.bind (parse s) dec_map of None \<Rightarrow> (False, None) | Some m \<Rightarrow> (True, m))"

lemma unmarshal_args_marshal: "canonical_map m \<Longrightarrow> unmarshal_args (marshal (enc_map m)) = (True, m)"
  by (simp add: unmarshal_args_def args.dec_enc args.enc_wf)

end
