(* ===== verification/Ratelimit.thy ===== *)
theory Ratelimit
  imports Prelude
begin

text \<open>
  \<^verbatim>\<open>internal/ratelimit/limiter.go\<close>: the semaphore that caps the requests in flight to
  a model. First the operations as one goroutine sees them, then any number of goroutines
  whose atomic operations (channel send and receive, \<^verbatim>\<open>atomic.Int64\<close> additions)
  interleave.
\<close>

section \<open>The limiter\<close>

definition default_max_concurrency :: int where
  "default_max_concurrency = 10"

text \<open>\<open>sem\<close> is the number of tokens in the buffered channel, \<open>capacity\<close> its size.\<close>

record limiter =
  sem :: nat
  capacity :: int
  active :: int
  total :: int
  dropped :: int

definition new_limiter :: "int \<Rightarrow> limiter" where
  "new_limiter n =
    \<lparr>sem = 0, capacity = (if n \<le> 0 then default_max_concurrency else n),
     active = 0, total = 0, dropped = 0\<rparr>"

definition has_room :: "limiter \<Rightarrow> bool" where
  "has_room l \<longleftrightarrow> int (sem l) < capacity l"

text \<open>The atomic operations.\<close>

definition send :: "limiter \<Rightarrow> limiter" where
  "send l = l\<lparr>sem := sem l + 1\<rparr>"

definition receive :: "limiter \<Rightarrow> limiter" where
  "receive l = l\<lparr>sem := sem l - 1\<rparr>"

definition add_active :: "int \<Rightarrow> limiter \<Rightarrow> limiter" where
  "add_active d l = l\<lparr>active := wrap64 (active l + d)\<rparr>"

definition add_total :: "limiter \<Rightarrow> limiter" where
  "add_total l = l\<lparr>total := wrap64 (total l + 1)\<rparr>"

definition add_dropped :: "limiter \<Rightarrow> limiter" where
  "add_dropped l = l\<lparr>dropped := wrap64 (dropped l + 1)\<rparr>"

text \<open>
  \<^verbatim>\<open>Acquire\<close>: the \<^verbatim>\<open>select\<close> takes a ready case; when both are ready it takes
  either, and \<open>pick\<close> says which. With neither ready it waits.
\<close>

datatype acquired = Acquired limiter | Cancelled goerr limiter | Waiting

definition acquire :: "bool \<Rightarrow> goerr option \<Rightarrow> limiter \<Rightarrow> acquired" where
  "acquire pick done l =
    (case done of
       None \<Rightarrow> if has_room l then Acquired (add_total (add_active 1 (send l))) else Waiting
     | Some e \<Rightarrow>
         if has_room l \<and> pick then Acquired (add_total (add_active 1 (send l)))
         else Cancelled (Errorf ''rate limit: %w'' [AErr e]) (add_dropped l))"

text \<open>\<^verbatim>\<open>Release\<close>: \<open>None\<close> when the receive from the channel would wait for ever.\<close>

definition release :: "limiter \<Rightarrow> limiter option" where
  "release l = (if sem l = 0 then None else Some (receive (add_active (-1) l)))"

record stats =
  st_max_concurrency :: int
  st_active :: int
  st_total :: int
  st_dropped :: int

definition limiter_stats :: "limiter \<Rightarrow> stats" where
  "limiter_stats l =
    \<lparr>st_max_concurrency = capacity l, st_active = active l, st_total = total l, st_dropped = dropped l\<rparr>"

lemmas limiter_ops = send_def receive_def add_active_def add_total_def add_dropped_def

lemma capacity_ops [simp]:
  "capacity (send l) = capacity l" "capacity (receive l) = capacity l"
  "capacity (add_active d l) = capacity l" "capacity (add_total l) = capacity l"
  "capacity (add_dropped l) = capacity l"
  by (simp_all add: limiter_ops)

lemma sem_ops [simp]:
  "sem (send l) = Suc (sem l)" "sem (receive l) = sem l - 1"
  "sem (add_active d l) = sem l" "sem (add_total l) = sem l" "sem (add_dropped l) = sem l"
  by (simp_all add: limiter_ops)

lemma active_ops [simp]:
  "active (send l) = active l" "active (receive l) = active l"
  "active (add_active d l) = wrap64 (active l + d)" "active (add_total l) = active l"
  "active (add_dropped l) = active l"
  by (simp_all add: limiter_ops)

lemma capacity_new [simp]: "capacity (new_limiter n) = (if n \<le> 0 then 10 else n)"
  and sem_new [simp]: "sem (new_limiter n) = 0"
  and active_new [simp]: "active (new_limiter n) = 0"
  by (simp_all add: new_limiter_def default_max_concurrency_def)

text \<open>
  What the clients of a counting semaphore rely on, and the bracket every client forms:
  take a slot, run, give it back.
\<close>

locale slots =
  fixes held :: "'l \<Rightarrow> nat" and cap :: "'l \<Rightarrow> int"
    and take_slot :: "'l \<Rightarrow> 'l option" and give_slot :: "'l \<Rightarrow> 'l option"
  assumes take_room: "int (held l) < cap l \<Longrightarrow>
      \<exists>l'. take_slot l = Some l' \<and> held l' = Suc (held l) \<and> cap l' = cap l"
    and take_full: "cap l \<le> int (held l) \<Longrightarrow> take_slot l = None"
    and give_held: "0 < held l \<Longrightarrow> \<exists>l'. give_slot l = Some l' \<and> Suc (held l') = held l \<and> cap l' = cap l"
    and give_none: "held l = 0 \<Longrightarrow> give_slot l = None"
begin

lemma take_iff: "take_slot l \<noteq> None \<longleftrightarrow> int (held l) < cap l"
  using take_room [of l] take_full [of l] by fastforce

lemma taken_bound: "take_slot l = Some l' \<Longrightarrow> 0 < held l' \<and> int (held l') \<le> cap l'"
  using take_room [of l] take_full [of l] by (cases "int (held l) < cap l") fastforce+

text \<open>A body that returns as many slots as it took leaves the bracket balanced.\<close>

lemma bracket:
  assumes "take_slot l = Some l1" "held (body l1) = held l1" "cap (body l1) = cap l1"
  shows "\<exists>l2. give_slot (body l1) = Some l2 \<and> held l2 = held l \<and> cap l2 = cap l"
proof -
  have room: "int (held l) < cap l" using assms(1) take_iff [of l] by simp
  then obtain l' where "take_slot l = Some l'" "held l' = Suc (held l)" "cap l' = cap l"
    using take_room by blast
  with assms have "held (body l1) = Suc (held l)" "cap (body l1) = cap l" by simp_all
  then show ?thesis using give_held [of "body l1"] by fastforce
qed

end

text \<open>The limiter without cancellation is such a semaphore.\<close>

definition try_acquire :: "limiter \<Rightarrow> limiter option" where
  "try_acquire l = (case acquire True None l of Acquired l' \<Rightarrow> Some l' | _ \<Rightarrow> None)"

interpretation lim: slots sem capacity try_acquire release
proof
  fix l :: limiter
  show "int (sem l) < capacity l \<Longrightarrow>
      \<exists>l'. try_acquire l = Some l' \<and> sem l' = Suc (sem l) \<and> capacity l' = capacity l"
    by (simp add: try_acquire_def acquire_def has_room_def)
  show "capacity l \<le> int (sem l) \<Longrightarrow> try_acquire l = None"
    by (simp add: try_acquire_def acquire_def has_room_def)
  show "0 < sem l \<Longrightarrow> \<exists>l'. release l = Some l' \<and> Suc (sem l') = sem l \<and> capacity l' = capacity l"
    by (simp add: release_def)
  show "sem l = 0 \<Longrightarrow> release l = None"
    by (simp add: release_def)
qed

section \<open>Many goroutines\<close>

text \<open>
  Where a goroutine stands: outside, after its send, after counting itself active, holding
  the slot (\<^verbatim>\<open>Acquire\<close> returned), after uncounting itself in \<^verbatim>\<open>Release\<close>.
\<close>

datatype pc = Outside | Sent | Counted | Holding | Uncounted

record sys =
  lim :: limiter
  at :: "nat \<Rightarrow> pc"

definition move :: "sys \<Rightarrow> nat \<Rightarrow> pc \<Rightarrow> (limiter \<Rightarrow> limiter) \<Rightarrow> sys" where
  "move s i p f = s\<lparr>lim := f (lim s), at := (at s)(i := p)\<rparr>"

inductive step :: "sys \<Rightarrow> sys \<Rightarrow> bool" where
  send: "at s i = Outside \<Longrightarrow> has_room (lim s) \<Longrightarrow> step s (move s i Sent send)"
| cancel: "at s i = Outside \<Longrightarrow> step s (move s i Outside add_dropped)"
| count: "at s i = Sent \<Longrightarrow> step s (move s i Counted (add_active 1))"
| tally: "at s i = Counted \<Longrightarrow> step s (move s i Holding add_total)"
| uncount: "at s i = Holding \<Longrightarrow> step s (move s i Uncounted (add_active (-1)))"
| receive: "at s i = Uncounted \<Longrightarrow> 0 < sem (lim s) \<Longrightarrow> step s (move s i Outside receive)"

definition start :: "int \<Rightarrow> sys" where
  "start n = \<lparr>lim = new_limiter n, at = (\<lambda>_. Outside)\<rparr>"

inductive reach :: "int \<Rightarrow> sys \<Rightarrow> bool" for n :: int where
  begins: "reach n (start n)"
| more: "reach n s \<Longrightarrow> step s t \<Longrightarrow> reach n t"

inductive_cases step_cases: "step s t"

definition inside :: "sys \<Rightarrow> nat set" where
  "inside s = {i. at s i \<noteq> Outside}"

definition counted :: "sys \<Rightarrow> nat set" where
  "counted s = {i. at s i = Counted \<or> at s i = Holding}"

definition holders :: "sys \<Rightarrow> nat set" where
  "holders s = {i. at s i = Holding}"

text \<open>
  The channel holds one token per goroutine inside, the counter counts those between the
  two additions, and the capacity bounds them.
\<close>

definition sys_inv :: "int \<Rightarrow> sys \<Rightarrow> bool" where
  "sys_inv n s \<longleftrightarrow>
     finite (inside s) \<and> sem (lim s) = card (inside s) \<and>
     active (lim s) = int (card (counted s)) \<and>
     int (sem (lim s)) \<le> capacity (lim s) \<and> capacity (lim s) = capacity (new_limiter n)"

lemma lim_move [simp]: "lim (move s i p f) = f (lim s)"
  and at_move [simp]: "at (move s i p f) = (at s)(i := p)"
  by (simp_all add: move_def)

lemma inside_move:
  "inside (move s i p f) = (if p = Outside then inside s - {i} else insert i (inside s))"
  by (auto simp: inside_def)

lemma counted_move:
  "counted (move s i p f) =
     (if p = Counted \<or> p = Holding then insert i (counted s) else counted s - {i})"
  by (auto simp: counted_def)

lemma counted_inside: "counted s \<subseteq> inside s"
  by (auto simp: counted_def inside_def)

lemma holders_counted: "holders s \<subseteq> counted s"
  by (auto simp: counted_def holders_def)

lemma sys_inv_start: "sys_inv n (start n)"
  by (simp add: sys_inv_def start_def inside_def counted_def)

text \<open>The interleaving cannot wrap a counter round: a channel is never larger than an \<^verbatim>\<open>int\<close>.\<close>

lemma active_small:
  assumes "sys_inv n s" "in_int64 n"
  shows "0 \<le> active (lim s)" "active (lim s) < 2 ^ 63"
proof -
  have "card (counted s) \<le> card (inside s)"
    using assms(1) counted_inside by (simp add: sys_inv_def card_mono)
  then have "active (lim s) \<le> capacity (lim s)"
    using assms(1) by (simp add: sys_inv_def)
  also have "\<dots> < 2 ^ 63" using assms by (auto simp: sys_inv_def in_int64_def)
  finally show "active (lim s) < 2 ^ 63" .
  show "0 \<le> active (lim s)" using assms(1) by (simp add: sys_inv_def)
qed

lemma finite_counted: "sys_inv n s \<Longrightarrow> finite (counted s)"
  using counted_inside by (auto simp: sys_inv_def intro: finite_subset)

lemma wrap64_small [simp]: "0 \<le> x \<Longrightarrow> x \<le> 2 ^ 63 - 1 \<Longrightarrow> wrap64 x = x"
  by (rule wrap64_id) (simp add: in_int64_def)

lemma step_inv:
  assumes "step s t" "sys_inv n s" "in_int64 n"
  shows "sys_inv n t"
  using assms(1)
proof (cases rule: step.cases)
  case (send i)
  then have "i \<notin> inside s" "i \<notin> counted s" by (auto simp: inside_def counted_def)
  with send assms(2) show ?thesis
    by (auto simp: sys_inv_def inside_move counted_move has_room_def)
next
  case (cancel i)
  then have "i \<notin> inside s" "i \<notin> counted s" by (auto simp: inside_def counted_def)
  with cancel assms(2) show ?thesis by (simp add: sys_inv_def inside_move counted_move)
next
  case (count i)
  then have i: "i \<in> inside s" "i \<notin> counted s" by (auto simp: inside_def counted_def)
  have "card (insert i (counted s)) \<le> card (inside s)"
    using i counted_inside assms(2) by (intro card_mono) (auto simp: sys_inv_def)
  then have "active (lim s) + 1 \<le> capacity (lim s)"
    using i assms(2) finite_counted [OF assms(2)] by (simp add: sys_inv_def)
  then have "active (lim s) + 1 \<le> 2 ^ 63 - 1"
    using assms(2,3) by (auto simp: sys_inv_def in_int64_def split: if_splits)
  with i count assms(2) finite_counted [OF assms(2)] show ?thesis
    by (simp add: sys_inv_def inside_move counted_move insert_absorb)
next
  case (tally i)
  then have "i \<in> inside s" "i \<in> counted s" by (auto simp: inside_def counted_def)
  with tally assms(2) show ?thesis
    by (simp add: sys_inv_def inside_move counted_move insert_absorb)
next
  case (uncount i)
  then have i: "i \<in> inside s" "i \<in> counted s" by (auto simp: inside_def counted_def)
  then have c: "0 < card (counted s)" using finite_counted [OF assms(2)] by (auto simp: card_gt_0_iff)
  with i uncount assms(2) active_small [OF assms(2,3)] finite_counted [OF assms(2)] show ?thesis
    by (simp add: sys_inv_def inside_move counted_move insert_absorb of_nat_diff)
next
  case (receive i)
  then have "i \<in> inside s" "i \<notin> counted s" by (auto simp: inside_def counted_def)
  with receive assms(2) show ?thesis by (simp add: sys_inv_def inside_move counted_move)
qed

lemma reach_inv: "reach n s \<Longrightarrow> in_int64 n \<Longrightarrow> sys_inv n s"
  by (induction rule: reach.induct) (auto intro: sys_inv_start step_inv)

section \<open>Safety and progress\<close>

text \<open>
  A goroutine that left \<^verbatim>\<open>Acquire\<close> can always finish: the token it put in the
  channel, or one just like it, is still there when it receives.
\<close>

lemma uncounted_can_receive: "sys_inv n s \<Longrightarrow> at s i = Uncounted \<Longrightarrow> 0 < sem (lim s)"
proof -
  assume inv: "sys_inv n s" and i: "at s i = Uncounted"
  then have "i \<in> inside s" by (simp add: inside_def)
  with inv show ?thesis by (auto simp: sys_inv_def card_gt_0_iff)
qed

fun steps_left :: "pc \<Rightarrow> nat" where
  "steps_left Outside = 0"
| "steps_left Sent = 4"
| "steps_left Counted = 3"
| "steps_left Holding = 2"
| "steps_left Uncounted = 1"

definition work :: "sys \<Rightarrow> nat" where
  "work s = (\<Sum>i \<in> inside s. steps_left (at s i))"

lemma work_move:
  assumes "finite (inside s)" "at s i \<noteq> Outside" "steps_left p < steps_left (at s i)"
  shows "work (move s i p f) < work s"
proof -
  let ?rest = "\<Sum>j \<in> inside s - {i}. steps_left (at s j)"
  have i: "i \<in> inside s" using assms(2) by (simp add: inside_def)
  have "work s = steps_left (at s i) + ?rest"
    unfolding work_def using assms(1) i by (rule sum.remove)
  moreover have "work (move s i p f) \<le> steps_left p + ?rest"
  proof (cases "p = Outside")
    case True
    then have "work (move s i p f) = ?rest"
      unfolding work_def inside_move by (auto intro!: sum.cong)
    then show ?thesis by simp
  next
    case False
    then have "inside (move s i p f) = inside s" using i by (auto simp: inside_move)
    then have "work (move s i p f) = steps_left p + (\<Sum>j \<in> inside s - {i}. steps_left (at (move s i p f) j))"
      unfolding work_def using sum.remove [OF assms(1) i, of "\<lambda>j. steps_left (at (move s i p f) j)"] by simp
    moreover have "(\<Sum>j \<in> inside s - {i}. steps_left (at (move s i p f) j)) = ?rest"
      by (rule sum.cong) auto
    ultimately show ?thesis by simp
  qed
  ultimately show ?thesis using assms(3) by linarith
qed

lemma some_progress:
  assumes inv: "sys_inv n s" and "inside s \<noteq> {}"
  shows "\<exists>t. step s t \<and> work t < work s"
proof -
  from assms(2) obtain i where i: "at s i \<noteq> Outside" by (auto simp: inside_def)
  have fin: "finite (inside s)" using inv by (simp add: sys_inv_def)
  note less = work_move [OF fin i]
  show ?thesis
  proof (cases "at s i")
    case Sent
    then show ?thesis using step.count [OF Sent] less [of Counted] by auto
  next
    case Counted
    then show ?thesis using step.tally [OF Counted] less [of Holding] by auto
  next
    case Holding
    then show ?thesis using step.uncount [OF Holding] less [of Uncounted] by auto
  next
    case Uncounted
    then show ?thesis
      using step.receive [OF Uncounted uncounted_can_receive [OF inv Uncounted]] less [of Outside] by auto
  qed (use i in simp)
qed

lemma can_drain:
  assumes "in_int64 n"
  shows "sys_inv n s \<Longrightarrow> \<exists>t. step\<^sup>*\<^sup>* s t \<and> inside t = {} \<and> sys_inv n t"
proof (induction "work s" arbitrary: s rule: less_induct)
  case less
  show ?case
  proof (cases "inside s = {}")
    case True
    with less.prems show ?thesis by blast
  next
    case False
    then obtain u where u: "step s u" "work u < work s" using some_progress less.prems by blast
    moreover have "sys_inv n u" using u(1) less.prems assms by (rule step_inv)
    ultimately show ?thesis using less.hyps [of u] by (meson converse_rtranclp_into_rtranclp)
  qed
qed

text \<open>
  C9. Whatever the interleaving of goroutines acquiring, cancelling and releasing, at most
  \<open>capacity\<close> of them hold a slot at once, and the \<open>active\<close> statistic stays between the
  number of holders and the capacity, so it never goes negative nor overflows.
\<close>

theorem limiter_bound:
  assumes "reach n s" "in_int64 n"
  shows "int (card (holders s)) \<le> active (lim s) \<and> active (lim s) \<le> int (sem (lim s))
    \<and> int (sem (lim s)) \<le> (if n \<le> 0 then 10 else n)"
proof -
  have inv: "sys_inv n s" using assms by (rule reach_inv)
  have "card (holders s) \<le> card (counted s)"
    using holders_counted finite_counted [OF inv] by (rule card_mono [rotated])
  moreover have "card (counted s) \<le> card (inside s)"
    using counted_inside inv by (simp add: sys_inv_def card_mono)
  ultimately show ?thesis using inv by (auto simp: sys_inv_def)
qed

text \<open>A run in which two goroutines enter a limiter of capacity 1, one after the other.\<close>

definition one_sent :: sys where
  "one_sent = move (start 1) 7 Sent send"

definition one_counted :: sys where
  "one_counted = move one_sent 7 Counted (add_active 1)"

definition one_holder :: sys where
  "one_holder = move one_counted 7 Holding add_total"

lemma reach_one_holder: "reach 1 one_holder"
proof -
  have "step (start 1) one_sent"
    unfolding one_sent_def by (rule step.send) (simp_all add: start_def has_room_def)
  moreover have "step one_sent one_counted"
    unfolding one_counted_def by (rule step.count) (simp add: one_sent_def)
  moreover have "step one_counted one_holder"
    unfolding one_holder_def by (rule step.tally) (simp add: one_counted_def)
  ultimately show ?thesis by (blast intro: reach.intros)
qed

theorem limiter_bound_witness:
  "reach 1 one_holder \<and> int (card (holders one_holder)) \<le> active (lim one_holder)
   \<and> active (lim one_holder) \<le> int (sem (lim one_holder)) \<and> int (sem (lim one_holder)) \<le> 1
   \<and> at one_holder 7 = Holding"
  using limiter_bound [OF reach_one_holder] reach_one_holder
  by (simp add: in_int64_def one_holder_def)

text \<open>
  C37. No interleaving wedges the limiter: from every reachable state the goroutines inside
  can run to the end of \<^verbatim>\<open>Release\<close> (its channel receive never blocks for good), and then
  every slot is free again and the \<open>active\<close> statistic is back to 0.
\<close>

theorem limiter_drains:
  assumes "reach n s" "in_int64 n"
  shows "\<exists>t. step\<^sup>*\<^sup>* s t \<and> (\<forall>i. at t i = Outside) \<and> sem (lim t) = 0 \<and> active (lim t) = 0"
proof -
  obtain t where t: "step\<^sup>*\<^sup>* s t" "inside t = {}" "sys_inv n t"
    using can_drain [OF assms(2) reach_inv [OF assms]] by blast
  moreover have "counted t = {}" using t(2) counted_inside by blast
  ultimately show ?thesis by (auto simp: sys_inv_def inside_def)
qed

theorem limiter_drains_witness:
  "\<exists>t. step\<^sup>*\<^sup>* one_holder t \<and> (\<forall>i. at t i = Outside) \<and> sem (lim t) = 0 \<and> active (lim t) = 0"
  by (rule limiter_drains [OF reach_one_holder]) (simp add: in_int64_def)

end
