(* ===== verification/Sse.thy ===== *)
theory Sse
  imports GoStrings
begin

text \<open>
  \<^verbatim>\<open>internal/sse/reader.go\<close>: the reader of Server-Sent Events. The
  \<^verbatim>\<open>bufio.Scanner\<close> it is built on, the loop over its lines as the source has it, and
  the reference it implements: blocks of lines between blank lines.
\<close>

section \<open>The line scanner\<close>

definition LF :: char where "LF = CHR 0x0A"
definition CR :: char where "CR = CHR 0x0D"

definition drop_cr :: "string \<Rightarrow> string" where
  "drop_cr l = (if l \<noteq> [] \<and> last l = CR then butlast l else l)"

definition err_too_long :: goerr where
  "err_too_long = Ext ''bufio.Scanner: token too long''"

text \<open>
  \<^verbatim>\<open>bufio.ScanLines\<close> over a buffer of at most \<open>limit\<close> bytes. A line and its
  line feed fit in the buffer or the scan ends with \<^verbatim>\<open>ErrTooLong\<close>. The last line
  needs no line feed, and is a token even before a read error.
\<close>

function scan :: "nat \<Rightarrow> goerr option \<Rightarrow> string \<Rightarrow> string list \<times> goerr option" where
  "scan limit e s =
    (if s = [] then ([], e)
     else let l = takeWhile (\<lambda>c. c \<noteq> LF) s; r = dropWhile (\<lambda>c. c \<noteq> LF) s in
       if limit \<le> length l then ([], Some err_too_long)
       else if r = [] then ([drop_cr l], e)
       else apfst ((#) (drop_cr l)) (scan limit e (tl r)))"
  by pat_completeness auto
termination
proof (relation "measure (\<lambda>(_, _, s). length s)"; clarsimp simp del: dropWhile_eq_Nil_conv)
  fix s :: string
  assume "s \<noteq> []"
  moreover have "length (dropWhile (\<lambda>c. c \<noteq> LF) s) \<le> length s" by (rule length_dropWhile_le)
  ultimately show "length (dropWhile (\<lambda>c. c \<noteq> LF) s) - Suc 0 < length s"
    by (cases s) auto
qed

declare scan.simps [simp del]

text \<open>A terminated line is scanned off the front.\<close>

lemma scan_line:
  assumes "LF \<notin> set l" "length l < limit"
  shows "scan limit e (l @ LF # r) = apfst ((#) (drop_cr l)) (scan limit e r)"
proof -
  have "\<forall>c \<in> set l. c \<noteq> LF" using assms(1) by auto
  then have "takeWhile (\<lambda>c. c \<noteq> LF) (l @ LF # r) = l" "dropWhile (\<lambda>c. c \<noteq> LF) (l @ LF # r) = LF # r"
    by (simp_all add: takeWhile_append2 dropWhile_append2)
  then show ?thesis using assms(2) by (simp add: scan.simps [of limit e "l @ LF # r"])
qed

lemma scan_end [simp]: "scan limit e [] = ([], e)"
  by (simp add: scan.simps)

lemma scan_lines:
  assumes "\<forall>l \<in> set ls. LF \<notin> set l \<and> CR \<notin> set l \<and> length l < limit"
  shows "scan limit e (concat (map (\<lambda>l. l @ [LF]) ls)) = (ls, e)"
  using assms
proof (induction ls)
  case Nil
  then show ?case by simp
next
  case (Cons l ls)
  then have "last l \<noteq> CR" if "l \<noteq> []" using that by (metis last_in_set list.set_intros(1))
  then have "drop_cr l = l" by (auto simp: drop_cr_def)
  with Cons show ?case by (simp add: scan_line)
qed

section \<open>Read\<close>

record event =
  ev_type :: string
  ev_data :: string

definition no_event :: event where
  "no_event = \<lparr>ev_type = [], ev_data = []\<rparr>"

text \<open>The body of the loop for a line that is not empty.\<close>

definition on_line :: "string \<Rightarrow> event \<Rightarrow> event" where
  "on_line line ev =
    (if has_prefix line ''event:'' then ev\<lparr>ev_type := trim_space (trim_prefix line ''event:'')\<rparr>
     else if has_prefix line ''data:'' then
       (let d = trim_space (trim_prefix line ''data:'') in
        if ev_data ev \<noteq> [] then ev\<lparr>ev_data := ev_data ev @ LF # d\<rparr> else ev\<lparr>ev_data := d\<rparr>)
     else ev)"

type_synonym sse_item = "event \<times> goerr option"

text \<open>The \<^verbatim>\<open>for scanner.Scan()\<close> loop: the signal it ended with, the event in progress, the state.\<close>

fun line_loop :: "string list \<Rightarrow> event \<Rightarrow> (sse_item, 's) yield \<Rightarrow> 's \<Rightarrow> signal \<times> event \<times> 's" where
  "line_loop [] ev y s = (More, ev, s)"
| "line_loop (line # ls) ev y s =
    (if line = [] then
       (if ev_data ev \<noteq> [] then
          (case y (ev, None) s of
             (More, s') \<Rightarrow> line_loop ls no_event y s'
           | (sg, s') \<Rightarrow> (sg, ev, s'))
        else line_loop ls ev y s)
     else line_loop ls (on_line line ev) y s)"

text \<open>\<^verbatim>\<open>Read\<close>: the loop, the event the stream ends in, the scanner's error.\<close>

definition max_line :: nat where
  "max_line = 1024 * 1024"

definition sse_read :: "nat \<Rightarrow> reader \<Rightarrow> (sse_item, 's) seq" where
  "sse_read limit r y s =
    (let (lines, err) = scan limit (fault r) (bytes r) in
     case line_loop lines no_event y s of
       (More, ev, s1) \<Rightarrow>
         (case (if ev_data ev \<noteq> [] then y (ev, None) s1 else (More, s1)) of
            (More, s2) \<Rightarrow>
              (case err of None \<Rightarrow> (Returned, s2) | Some e \<Rightarrow> yield_return (no_event, Some e) y s2)
          | r \<Rightarrow> finish r)
     | (sg, _, s1) \<Rightarrow> finish (sg, s1))"

section \<open>The reference\<close>

text \<open>
  Blocks of lines between blank lines. A block's type is its last \<^verbatim>\<open>event:\<close> field, else
  the type the dataless blocks before it left behind; its data are its \<^verbatim>\<open>data:\<close> fields
  from the first one that is not empty, one per line. A block without data gives no event.
\<close>

fun blocks :: "string list \<Rightarrow> string list list" where
  "blocks [] = [[]]"
| "blocks (l # ls) =
    (if l = [] then [] # blocks ls
     else (case blocks ls of b # bs \<Rightarrow> (l # b) # bs | [] \<Rightarrow> [[l]]))"

definition fields :: "string \<Rightarrow> string list \<Rightarrow> string list" where
  "fields p ls = map (\<lambda>l. trim_space (trim_prefix l p)) (filter (\<lambda>l. has_prefix l p) ls)"

definition block_type :: "string \<Rightarrow> string list \<Rightarrow> string" where
  "block_type t ls = last (t # fields ''event:'' ls)"

definition block_data :: "string list \<Rightarrow> string" where
  "block_data ls = join (dropWhile (\<lambda>d. d = []) (fields ''data:'' ls)) [LF]"

fun block_events :: "string \<Rightarrow> string list list \<Rightarrow> event list" where
  "block_events t [] = []"
| "block_events t (b # bs) =
    (if block_data b = [] then block_events (block_type t b) bs
     else \<lparr>ev_type = block_type t b, ev_data = block_data b\<rparr> # block_events [] bs)"

definition sse_items :: "nat \<Rightarrow> reader \<Rightarrow> sse_item list" where
  "sse_items limit r =
    (let (lines, err) = scan limit (fault r) (bytes r) in
     map (\<lambda>e. (e, None)) (block_events [] (blocks lines)) @
     (case err of None \<Rightarrow> [] | Some e \<Rightarrow> [(no_event, Some e)]))"

section \<open>The reader implements the reference\<close>

text \<open>The loop without its consumer: the events it would yield, and the event left in progress.\<close>

fun pend :: "string list \<Rightarrow> event \<Rightarrow> event list \<times> event" where
  "pend [] ev = ([], ev)"
| "pend (line # ls) ev =
    (if line = [] then
       (if ev_data ev \<noteq> [] then apfst ((#) ev) (pend ls no_event) else pend ls ev)
     else pend ls (on_line line ev))"

abbreviation sent :: "event list \<Rightarrow> sse_item list" where
  "sent evs \<equiv> map (\<lambda>e. (e, None)) evs"

lemma line_loop_drive:
  "\<exists>ev'. line_loop ls ev y s =
     (case drive (sent (fst (pend ls ev))) y s of
        (More, s') \<Rightarrow> (More, snd (pend ls ev), s')
      | (sg, s') \<Rightarrow> (sg, ev', s'))"
proof (induction ls arbitrary: ev s)
  case Nil
  then show ?case by simp
next
  case (Cons line ls)
  show ?case
  proof (cases "line = [] \<and> ev_data ev \<noteq> []")
    case True
    obtain sg s' where y: "y (ev, None) s = (sg, s')" by (cases "y (ev, None) s")
    obtain evs e2 where q: "pend ls no_event = (evs, e2)" by fastforce
    have p: "pend (line # ls) ev = (ev # evs, e2)" using True q by simp
    show ?thesis unfolding p fst_conv snd_conv
      using True Cons.IH [of no_event s', unfolded q fst_conv snd_conv] by (cases sg) (auto simp: y)
  next
    case False
    have p: "pend (line # ls) ev = pend ls (if line = [] then ev else on_line line ev)"
      using False by auto
    show ?thesis unfolding p using False Cons.IH by auto
  qed
qed

definition flush :: "event list \<times> event \<Rightarrow> event list" where
  "flush r = fst r @ (if ev_data (snd r) \<noteq> [] then [snd r] else [])"

fun finish_blocks :: "event \<Rightarrow> string list list \<Rightarrow> event list" where
  "finish_blocks ev [] = []"
| "finish_blocks ev (b # bs) =
    (let ev' = fold on_line b ev in
     if ev_data ev' = [] then block_events (ev_type ev') bs else ev' # block_events [] bs)"

fun join_from :: "string \<Rightarrow> string list \<Rightarrow> string" where
  "join_from d [] = d"
| "join_from d (x # xs) = join_from (if d \<noteq> [] then d @ LF # x else x) xs"

lemma join_from_join: "d \<noteq> [] \<Longrightarrow> join_from d xs = join (d # xs) [LF]"
proof (induction xs arbitrary: d)
  case Nil
  then show ?case by simp
next
  case (Cons x xs)
  then have "join_from d (x # xs) = join ((d @ LF # x) # xs) [LF]" by simp
  also have "\<dots> = join (d # x # xs) [LF]" by (cases xs) simp_all
  finally show ?case .
qed

lemma join_from_Nil: "join_from [] xs = join (dropWhile (\<lambda>d. d = []) xs) [LF]"
  by (induction xs) (simp_all add: join_from_join)

lemma not_both: "has_prefix l ''event:'' \<Longrightarrow> \<not> has_prefix l ''data:''"
  by (auto simp: has_prefix_iff)

lemma fold_on_line:
  "fold on_line b ev =
    ev\<lparr>ev_type := last (ev_type ev # fields ''event:'' b),
       ev_data := join_from (ev_data ev) (fields ''data:'' b)\<rparr>"
proof (induction b arbitrary: ev)
  case Nil
  then show ?case by (simp add: fields_def)
next
  case (Cons l b)
  show ?case using not_both [of l] by (auto simp: Cons on_line_def [of l ev] fields_def Let_def)
qed

lemma fold_block:
  "fold on_line b \<lparr>ev_type = t, ev_data = []\<rparr> = \<lparr>ev_type = block_type t b, ev_data = block_data b\<rparr>"
  by (simp add: fold_on_line block_type_def block_data_def join_from_Nil)

lemma finish_blocks_start:
  "finish_blocks \<lparr>ev_type = t, ev_data = []\<rparr> bs = block_events t bs"
  by (cases bs) (simp_all add: fold_block Let_def)

lemma blocks_nonempty: "blocks ls \<noteq> []"
  by (induction ls) (auto split: list.splits)

lemma flush_pend: "flush (pend ls ev) = finish_blocks ev (blocks ls)"
proof (induction ls arbitrary: ev)
  case Nil
  then show ?case by (simp add: flush_def)
next
  case (Cons line ls)
  have start: "finish_blocks no_event bs = block_events [] bs" for bs
    by (simp add: no_event_def finish_blocks_start)
  have keep: "finish_blocks ev bs = block_events (ev_type ev) bs" if "ev_data ev = []" for bs
  proof -
    have "ev = \<lparr>ev_type = ev_type ev, ev_data = []\<rparr>" using that by (cases ev) simp
    then show ?thesis by (metis finish_blocks_start)
  qed
  have cons: "flush (apfst ((#) e) r) = e # flush r" for e r by (simp add: flush_def)
  obtain b bs where b: "blocks ls = b # bs" using blocks_nonempty [of ls] by (cases "blocks ls") auto
  have first: "finish_blocks e ([] # cs) = (if ev_data e = [] then block_events (ev_type e) cs
      else e # block_events [] cs)" for e cs by simp
  have more: "finish_blocks e ((l # c) # cs) = finish_blocks (on_line l e) (c # cs)" for e l c cs
    by simp
  show ?case
    using Cons.IH b by (auto simp: cons start keep first more simp del: finish_blocks.simps)
qed

lemma sse_read_feed: "sse_read limit r y s = feed (sse_items limit r) y s"
proof -
  obtain ls err where sc: "scan limit (fault r) (bytes r) = (ls, err)" by fastforce
  let ?p = "pend ls no_event"
  let ?tail = "(if ev_data (snd ?p) \<noteq> [] then [(snd ?p, None)] else []) @
               (case err of None \<Rightarrow> [] | Some e \<Rightarrow> [(no_event, Some e)])"
  have "block_events [] (blocks ls) = flush ?p"
    using flush_pend [of ls no_event] finish_blocks_start [of "[]" "blocks ls"] by (simp add: no_event_def)
  then have items: "sse_items limit r = sent (fst ?p) @ ?tail"
    by (simp add: sse_items_def sc flush_def)
  obtain ev' where "line_loop ls no_event y s =
     (case drive (sent (fst ?p)) y s of (More, s') \<Rightarrow> (More, snd ?p, s') | (sg, s') \<Rightarrow> (sg, ev', s'))"
    using line_loop_drive [of ls no_event y s] by (elim exE)
  then show ?thesis
    unfolding sse_read_def sc items feed_def drive_append
    by (cases err) (auto simp: yield_return_def split: prod.split signal.split)
qed

interpretation sse: presents "sse_read limit r" "sse_items limit r"
  by unfold_locales (rule sse_read_feed)

text \<open>
  C4. For every stream, every line limit and every consumer, \<^verbatim>\<open>Read\<close> behaves as the
  iterator over the reference: the events of the blocks of lines, in order, then the scanner's
  error if there is one, and no call of \<open>yield\<close> after it returned false.
\<close>

theorem sse_read_reference: "sse_read limit r y s = feed (sse_items limit r) y s"
  by (rule sse.run)

section \<open>What a server writes is what is read\<close>

text \<open>The lines of an event as a server writes them: its type, if any, its data line by line, a blank line.\<close>

definition wire :: "string \<times> string list \<Rightarrow> string list" where
  "wire e = (if fst e = [] then [] else [''event: '' @ fst e]) @ map ((@) ''data: '') (snd e) @ [[]]"

definition wire_text :: "(string \<times> string list) list \<Rightarrow> string" where
  "wire_text es = concat (map (\<lambda>l. l @ [LF]) (concat (map wire es)))"

definition wire_event :: "string \<times> string list \<Rightarrow> event" where
  "wire_event e = \<lparr>ev_type = fst e, ev_data = join (snd e) [LF]\<rparr>"

definition clean_field :: "nat \<Rightarrow> string \<Rightarrow> bool" where
  "clean_field limit d \<longleftrightarrow> LF \<notin> set d \<and> CR \<notin> set d \<and> trim_space d = d \<and> length d + 7 < limit"

definition clean_event :: "nat \<Rightarrow> string \<times> string list \<Rightarrow> bool" where
  "clean_event limit e \<longleftrightarrow> (\<forall>d \<in> set (fst e # snd e). clean_field limit d) \<and> snd e \<noteq> [] \<and> hd (snd e) \<noteq> []"

lemma trim_space_blank [simp]: "trim_space (CHR '' '' # s) = trim_space s"
  by (simp add: trim_space_def runes_ascii is_space_def)

lemma fields_data [simp]:
  "\<forall>d \<in> set ds. trim_space d = d \<Longrightarrow> fields ''data:'' (map ((@) ''data: '') ds) = ds"
  by (induction ds) (simp_all add: fields_def trim_prefix_def)

lemma fields_event_data [simp]: "fields ''event:'' (map ((@) ''data: '') ds) = []"
  by (induction ds) (simp_all add: fields_def)

lemma blocks_append:
  "[] \<notin> set b \<Longrightarrow> blocks (b @ [] # ls) = b # blocks ls"
  by (induction b) auto

lemma join_nonempty: "ds \<noteq> [] \<Longrightarrow> hd ds \<noteq> [] \<Longrightarrow> join ds sep \<noteq> []"
  by (induction ds sep rule: join.induct) auto

lemma block_of_wire:
  assumes "clean_event limit (t, ds)"
  defines "b \<equiv> (if t = [] then [] else [''event: '' @ t]) @ map ((@) ''data: '') ds"
  shows "block_type [] b = t" "block_data b = join ds [LF]"
proof -
  have ok: "trim_space t = t" "\<forall>d \<in> set ds. trim_space d = d" "ds \<noteq> []" "hd ds \<noteq> []"
    using assms(1) by (auto simp: clean_event_def clean_field_def)
  have e: "fields p (xs @ ys) = fields p xs @ fields p ys" for p xs ys by (simp add: fields_def)
  have "fields ''event:'' [''event: '' @ t] = [t]" "fields ''data:'' [''event: '' @ t] = []"
    using ok(1) by (simp_all add: fields_def trim_prefix_def)
  then have f: "fields ''event:'' b = (if t = [] then [] else [t])" "fields ''data:'' b = ds"
    using ok by (simp_all add: b_def e) (simp_all add: fields_def)
  show "block_type [] b = t" by (simp add: block_type_def f)
  have "dropWhile (\<lambda>d. d = []) ds = ds" using ok by (cases ds) auto
  then show "block_data b = join ds [LF]" by (simp add: block_data_def f)
qed

lemma block_events_wire:
  "\<forall>e \<in> set es. clean_event limit e \<Longrightarrow> block_events [] (blocks (concat (map wire es))) = map wire_event es"
proof (induction es)
  case Nil
  then show ?case by (simp add: block_data_def fields_def)
next
  case (Cons e es)
  obtain t ds where e: "e = (t, ds)" by (cases e)
  let ?b = "(if t = [] then [] else [''event: '' @ t]) @ map ((@) ''data: '') ds"
  have "wire e @ concat (map wire es) = ?b @ [] # concat (map wire es)" by (simp add: wire_def e)
  moreover have "[] \<notin> set ?b" by auto
  ultimately have bl: "blocks (concat (map wire (e # es))) = ?b # blocks (concat (map wire es))"
    using blocks_append by simp
  have cl: "clean_event limit (t, ds)" using Cons.prems e by simp
  have "join ds [LF] \<noteq> []" using cl by (intro join_nonempty) (auto simp: clean_event_def)
  then show ?case
    unfolding bl block_events.simps block_of_wire [OF cl]
    using Cons by (simp add: e wire_event_def)
qed

lemma wire_lines:
  "clean_event limit e \<Longrightarrow> l \<in> set (wire e) \<Longrightarrow> LF \<notin> set l \<and> CR \<notin> set l \<and> length l < limit"
  by (auto simp: wire_def clean_event_def clean_field_def LF_def CR_def split: if_splits)

lemma sse_items_wire:
  assumes "\<forall>e \<in> set es. clean_event limit e"
  shows "sse_items limit \<lparr>bytes = wire_text es, fault = None\<rparr> = sent (map wire_event es)"
proof -
  have "scan limit None (wire_text es) = (concat (map wire es), None)"
    unfolding wire_text_def using assms by (intro scan_lines) (auto dest: wire_lines)
  then show ?thesis using block_events_wire [OF assms] by (simp add: sse_items_def)
qed

text \<open>
  C5. Round trip: whatever sequence of typed or untyped events with data a server writes, as
  long as their fields are clean (no line breaks inside a line, no blanks at its ends, no line
  over the limit), \<^verbatim>\<open>Read\<close> yields exactly those events, multi-line data included, and no error.
\<close>

theorem sse_roundtrip:
  assumes "\<forall>e \<in> set es. clean_event limit e"
  shows "items (sse_read limit \<lparr>bytes = wire_text es, fault = None\<rparr>) = sent (map wire_event es)"
  using sse_items_wire [OF assms] by (simp add: items_def sse.run feed_def)

theorem sse_roundtrip_witness:
  "items (sse_read 100 \<lparr>bytes = wire_text [(''ping'', [''a'', [], ''b'']), ([], [''[DONE]''])], fault = None\<rparr>)
   = [(\<lparr>ev_type = ''ping'', ev_data = [CHR ''a'', LF, LF, CHR ''b'']\<rparr>, None),
      (\<lparr>ev_type = [], ev_data = ''[DONE]''\<rparr>, None)]"
proof -
  have clean: "\<forall>e \<in> set [(''ping'', [''a'', [], ''b'']), ([], [''[DONE]''])]. clean_event 100 e"
    by (simp add: clean_event_def clean_field_def LF_def CR_def trim_space_def runes_ascii is_space_def
        drop_while_end_def)
  show ?thesis using sse_roundtrip [OF clean] by (simp add: wire_event_def)
qed

text \<open>
  An \<^verbatim>\<open>event:\<close> field in a block without data is not forgotten at the blank line that
  ends the block: it becomes the type of the next event, which names none itself.
\<close>

theorem sse_dataless_type_leaks:
  assumes "clean_field limit t" "clean_field limit d" "t \<noteq> []" "d \<noteq> []"
  shows "items (sse_read limit \<lparr>bytes = ''event: '' @ t @ [LF, LF] @ ''data: '' @ d @ [LF, LF], fault = None\<rparr>)
    = [(\<lparr>ev_type = t, ev_data = d\<rparr>, None)]"
proof -
  have "scan limit None (concat (map (\<lambda>l. l @ [LF]) [''event: '' @ t, [], ''data: '' @ d, []]))
      = ([''event: '' @ t, [], ''data: '' @ d, []], None)"
    using assms by (intro scan_lines) (auto simp: clean_field_def LF_def CR_def)
  then have "scan limit None (''event: '' @ t @ [LF, LF] @ ''data: '' @ d @ [LF, LF])
      = ([''event: '' @ t, [], ''data: '' @ d, []], None)" by simp
  moreover have "trim_space t = t" "trim_space d = d" using assms by (simp_all add: clean_field_def)
  ultimately have "sse_items limit \<lparr>bytes = ''event: '' @ t @ [LF, LF] @ ''data: '' @ d @ [LF, LF], fault = None\<rparr>
      = [(\<lparr>ev_type = t, ev_data = d\<rparr>, None)]"
    using assms(4) by (simp add: sse_items_def block_data_def block_type_def fields_def trim_prefix_def)
  then show ?thesis by (simp add: items_def sse.run feed_def)
qed

theorem sse_dataless_type_leaks_witness:
  "items (sse_read 100 \<lparr>bytes = ''event: '' @ ''x'' @ [LF, LF] @ ''data: '' @ ''1'' @ [LF, LF], fault = None\<rparr>)
   = [(\<lparr>ev_type = ''x'', ev_data = ''1''\<rparr>, None)]"
  by (rule sse_dataless_type_leaks)
     (simp_all add: clean_field_def LF_def CR_def trim_space_def runes_ascii is_space_def drop_while_end_def)

end
