(* ===== verification/HttpClient.thy ===== *)
theory HttpClient
  imports GoStrings
begin

text \<open>
  \<^verbatim>\<open>internal/httpclient/client.go\<close>: retries with backoff, body limits and streaming
  requests. What the network does is the argument \<open>env\<close> of the definitions; what a
  call does is the list of its events and its result.
\<close>

section \<open>Options\<close>

definition default_timeout :: int where "default_timeout = 120 * 10 ^ 9"
definition default_max_body :: int where "default_max_body = 10 * 2 ^ 20"
definition default_max_retries :: int where "default_max_retries = 3"
definition base_backoff :: int where "base_backoff = 500 * 10 ^ 6"
definition max_backoff :: int where "max_backoff = 30 * 10 ^ 9"

definition retryable :: "int \<Rightarrow> bool" where
  "retryable status \<longleftrightarrow> status \<in> {429, 500, 502, 503, 504}"

text \<open>Durations are in nanoseconds; \<open>None\<close> is the nil logger.\<close>

record options =
  opt_timeout :: int
  opt_max_body :: int
  opt_max_retries :: int
  opt_logger :: "string option"

definition with_defaults :: "options \<Rightarrow> options" where
  "with_defaults opts =
    \<lparr>opt_timeout = (if opt_timeout opts = 0 then default_timeout else opt_timeout opts),
     opt_max_body = (if opt_max_body opts = 0 then default_max_body else opt_max_body opts),
     opt_max_retries = (if opt_max_retries opts = 0 then default_max_retries
                        else if opt_max_retries opts < 0 then 0 else opt_max_retries opts),
     opt_logger = (case opt_logger opts of None \<Rightarrow> Some ''default'' | l \<Rightarrow> l)\<rparr>"

section \<open>Requests, responses, the network\<close>

text \<open>\<open>get_body\<close> is what a call of \<^verbatim>\<open>req.GetBody\<close> returns; \<open>None\<close> is the nil function.\<close>

record request =
  req_method :: string
  req_url :: string
  req_headers :: "(string \<times> string) list"
  req_body :: "reader option"
  get_body :: "(goerr + string) option"

record response =
  status :: int
  resp_body :: reader

text \<open>
  \<open>transport k\<close> is the outcome of the \<open>k\<close>-th round trip, \<open>ctx_done k\<close> the context's
  error if the context is done before the wait for attempt \<open>k\<close> is over, \<open>noise k\<close> the
  random bits of the wait. \<open>overflow\<close> is the value, which Go leaves to the implementation,
  of a conversion of a float outside the range of \<^verbatim>\<open>int64\<close>.
\<close>

record env =
  transport :: "nat \<Rightarrow> request \<Rightarrow> goerr + response"
  ctx_done :: "nat \<Rightarrow> goerr option"
  noise :: "nat \<Rightarrow> int"
  overflow :: "int \<Rightarrow> int"

datatype http_event =
    Wait nat int
  | Attempt nat "string option"
  | Drained nat
  | Closed

section \<open>Backoff\<close>

text \<open>
  \<^verbatim>\<open>backoff\<close>: \<open>None\<close> is the panic of \<^verbatim>\<open>rand.Int64N\<close> on an argument that is not
  positive. The floating-point products are exact for the delays that fit in 64 bits
  (\<^verbatim>\<open>500ms\<close> is 1953125 times a power of two).
\<close>

definition float_to_int64 :: "(int \<Rightarrow> int) \<Rightarrow> int \<Rightarrow> int" where
  "float_to_int64 ovf x = (if in_int64 x then x else ovf x)"

definition capped_delay :: "(int \<Rightarrow> int) \<Rightarrow> nat \<Rightarrow> int" where
  "capped_delay ovf attempt =
    (let delay = float_to_int64 ovf (base_backoff * 2 ^ (attempt - 1)) in
     if delay > max_backoff then max_backoff else delay)"

definition backoff :: "(int \<Rightarrow> int) \<Rightarrow> int \<Rightarrow> nat \<Rightarrow> int option" where
  "backoff ovf r attempt =
    (let delay = capped_delay ovf attempt in
     if delay div 2 \<le> 0 then None
     else (let jitter = r mod (delay div 2) - delay div 4 in Some (delay + jitter)))"

section \<open>Do\<close>

text \<open>Buffering the body so that it can be sent again.\<close>

definition buffer_body :: "int \<Rightarrow> request \<Rightarrow> goerr + request" where
  "buffer_body retries req =
    (case (req_body req, get_body req) of
       (Some r, None) \<Rightarrow>
         if retries > 0 then
           (case fault r of
              Some e \<Rightarrow> Inl (Errorf ''buffering request body for retries: %w'' [AErr e])
            | None \<Rightarrow> Inr (req\<lparr>req_body := Some \<lparr>bytes = bytes r, fault = None\<rparr>,
                               get_body := Some (Inr (bytes r))\<rparr>))
         else Inr req
     | _ \<Rightarrow> Inr req)"

definition consumed :: "request \<Rightarrow> request" where
  "consumed req = req\<lparr>req_body := map_option (\<lambda>r. r\<lparr>bytes := []\<rparr>) (req_body req)\<rparr>"

definition sent_body :: "request \<Rightarrow> string option" where
  "sent_body req = map_option bytes (req_body req)"

text \<open>Before a retry: wait, give up if the context is done, reset the body. A panic has no result.\<close>

datatype prepared = Ready request | GiveUp goerr | Crash

definition prepare :: "env \<Rightarrow> nat \<Rightarrow> request \<Rightarrow> http_event list \<times> prepared" where
  "prepare env k req =
    (if k = 0 then ([], Ready req)
     else case backoff (overflow env) (noise env k) k of
       None \<Rightarrow> ([], Crash)
     | Some d \<Rightarrow>
         ([Wait k d],
          case ctx_done env k of
            Some e \<Rightarrow> GiveUp e
          | None \<Rightarrow>
              (case get_body req of
                 None \<Rightarrow> Ready req
               | Some (Inl e) \<Rightarrow> GiveUp (Errorf ''resetting request body for retry: %w'' [AErr e])
               | Some (Inr b) \<Rightarrow> Ready (req\<lparr>req_body := Some \<lparr>bytes = b, fault = None\<rparr>\<rparr>))))"

text \<open>The result of \<^verbatim>\<open>Do\<close>: an error, a response (which may be nil), or the panic of \<^verbatim>\<open>backoff\<close>.\<close>

datatype do_result = Failed goerr | Got "response option" | DoPanic

definition http_error :: "response \<Rightarrow> goerr" where
  "http_error resp = Errorf ''HTTP %d: %s''
     [AInt (status resp), AStr (fst (read_limited 1024 (resp_body resp)))]"

text \<open>The loop from attempt \<open>k\<close>, with \<open>left\<close> attempts to go.\<close>

fun do_loop :: "env \<Rightarrow> int \<Rightarrow> nat \<Rightarrow> nat \<Rightarrow> request \<Rightarrow> goerr option \<Rightarrow> response option
    \<Rightarrow> http_event list \<times> do_result" where
  "do_loop env retries 0 k req last_err last_resp =
    ([], case last_err of
           Some e \<Rightarrow> Failed (Errorf ''request failed after %d attempts: %w'' [AInt (wrap64 (retries + 1)), AErr e])
         | None \<Rightarrow> Got last_resp)"
| "do_loop env retries (Suc left) k req last_err last_resp =
    (case prepare env k req of
       (evs, Crash) \<Rightarrow> (evs, DoPanic)
     | (evs, GiveUp e) \<Rightarrow> (evs, Failed e)
     | (evs, Ready req') \<Rightarrow>
         (case transport env k req' of
            Inl e \<Rightarrow>
              apfst (\<lambda>t. evs @ Attempt k (sent_body req') # t)
                (do_loop env retries left (Suc k) (consumed req') (Some e) last_resp)
          | Inr resp \<Rightarrow>
              if \<not> retryable (status resp) then
                (evs @ [Attempt k (sent_body req')], Got (Some resp))
              else
                apfst (\<lambda>t. evs @ Attempt k (sent_body req') # Drained k # t)
                  (do_loop env retries left (Suc k) (consumed req')
                     (Some (http_error resp)) (Some resp))))"

definition do_request :: "options \<Rightarrow> env \<Rightarrow> request \<Rightarrow> http_event list \<times> do_result" where
  "do_request opts env req =
    (case buffer_body (opt_max_retries opts) req of
       Inl e \<Rightarrow> ([], Failed e)
     | Inr req' \<Rightarrow> do_loop env (opt_max_retries opts) (nat (opt_max_retries opts + 1)) 0 req' None None)"

section \<open>ReadBody and DoStream\<close>

definition read_body :: "options \<Rightarrow> response \<Rightarrow> goerr + string" where
  "read_body opts resp =
    (case read_limited (wrap64 (opt_max_body opts + 1)) (resp_body resp) of
       (_, Some e) \<Rightarrow> Inl (Errorf ''reading response body: %w'' [AErr e])
     | (data, None) \<Rightarrow>
         if int (length data) > opt_max_body opts
         then Inl (Errorf ''response body exceeds %d bytes limit'' [AInt (opt_max_body opts)])
         else Inr data)"

definition do_stream :: "env \<Rightarrow> request \<Rightarrow> http_event list \<times> (goerr + response)" where
  "do_stream env req =
    (case transport env 0 req of
       Inl e \<Rightarrow> ([Attempt 0 (sent_body req)], Inl e)
     | Inr resp \<Rightarrow>
         if status resp \<noteq> 200 then
           ([Attempt 0 (sent_body req), Drained 0],
            Inl (Errorf ''stream request failed (HTTP %d): %s''
                  [AInt (status resp), AStr (fst (read_limited 1024 (resp_body resp)))]))
         else ([Attempt 0 (sent_body req)], Inr resp))"

section \<open>Defaults and bounds\<close>

lemma with_defaults_idem:
  "opt_max_retries opts \<noteq> 0 \<Longrightarrow> 0 \<le> opt_max_retries opts \<Longrightarrow> with_defaults (with_defaults opts) = with_defaults opts"
  by (simp add: with_defaults_def default_timeout_def default_max_body_def split: option.split)

text \<open>
  The options of a client after \<^verbatim>\<open>New\<close>: no zero is left, retries are never negative, a
  negative setting disables them, 0 means 3, and every explicit positive setting is kept.
\<close>

theorem with_defaults_spec:
  "let c = with_defaults opts in
     opt_timeout c \<noteq> 0 \<and> opt_max_body c \<noteq> 0 \<and> 0 \<le> opt_max_retries c \<and> opt_logger c \<noteq> None \<and>
     (opt_max_retries c = 0 \<longleftrightarrow> opt_max_retries opts < 0) \<and>
     opt_max_retries c = (if opt_max_retries opts = 0 then 3 else max 0 (opt_max_retries opts)) \<and>
     opt_max_body c = (if opt_max_body opts = 0 then 10485760 else opt_max_body opts) \<and>
     opt_timeout c = (if opt_timeout opts = 0 then 120000000000 else opt_timeout opts)"
  by (simp add: with_defaults_def default_timeout_def default_max_body_def default_max_retries_def Let_def
      split: option.split)

lemma power_small: "k \<le> 35 \<Longrightarrow> (2 :: int) ^ (k - 1) \<le> 17179869184"
  using power_increasing [of "k - 1" 34 "2 :: int"] by simp

lemma in_int64_base: "k \<le> 35 \<Longrightarrow> in_int64 (base_backoff * 2 ^ (k - 1))"
proof -
  assume "k \<le> 35"
  moreover have "in_int64 (base_backoff * x)" if "0 \<le> x" "x \<le> 17179869184" for x
    using that by (simp add: in_int64_def base_backoff_def)
  ultimately show ?thesis using power_small by simp
qed

lemma capped_delay_eq: "k \<le> 35 \<Longrightarrow> capped_delay ovf k = min max_backoff (base_backoff * 2 ^ (k - 1))"
  using in_int64_base [of k] by (auto simp: capped_delay_def float_to_int64_def Let_def min_def)

lemma backoff_range:
  assumes "backoff ovf r k = Some t"
  shows "capped_delay ovf k - capped_delay ovf k div 4 \<le> t \<and>
         t < capped_delay ovf k - capped_delay ovf k div 4 + capped_delay ovf k div 2"
  using assms pos_mod_bound [of "capped_delay ovf k div 2" r] pos_mod_sign [of "capped_delay ovf k div 2" r]
  by (auto simp: backoff_def Let_def split: if_splits)

lemma four_dvd_delay: "(4 :: int) dvd min 30000000000 (500000000 * 2 ^ n)"
proof -
  have "(4 :: int) dvd 500000000 * 2 ^ n" by (rule dvd_mult2) simp
  then show ?thesis by (simp add: min_def)
qed

lemma backoff_exact:
  assumes "k \<le> 35"
  obtains t e where "backoff ovf r k = Some t" "3 * e \<le> t" "t < 5 * e"
    and "min 30000000000 (500000000 * 2 ^ (k - 1)) = 4 * e" "e \<le> 7500000000"
proof -
  let ?d = "min 30000000000 (500000000 * 2 ^ (k - 1)) :: int"
  have d: "capped_delay ovf k = ?d"
    using capped_delay_eq [OF assms] by (simp add: max_backoff_def base_backoff_def)
  obtain e where e: "?d = 4 * e" using four_dvd_delay [of "k - 1"] by (rule dvdE)
  have "(1 :: int) \<le> 2 ^ (k - 1)" by simp
  then have "500000000 \<le> ?d" by (auto simp: min_def)
  then have pos: "0 < e" using e by linarith
  have half: "4 * e div 2 = 2 * e" "4 * e div 4 = e" by simp_all
  obtain t where t: "backoff ovf r k = Some t"
    using pos by (simp add: backoff_def trans [OF d e] half Let_def)
  have b: "3 * e \<le> t" "t < 5 * e"
    using backoff_range [OF t] unfolding trans [OF d e] half by linarith+
  have "4 * e \<le> 30000000000" unfolding e [symmetric] by simp
  then have "e \<le> 7500000000" by linarith
  with t b e show thesis by (rule that)
qed

lemma backoff_ok: "k \<le> 35 \<Longrightarrow> \<exists>t. backoff ovf r k = Some t"
  using backoff_exact by metis

text \<open>
  C31. The wait before retry \<open>k\<close> (up to the 35th) never panics and lies in
  \<open>[3/4 d, 5/4 d)\<close> for \<open>d = min 30s (500ms \<cdot> 2\<^sup>k\<^sup>-\<^sup>1)\<close>. The jitter comes after the
  cap, so \<open>maxBackoff\<close> bounds the delay only up to a quarter: waits stay below 37.5s.
\<close>

theorem backoff_bounds:
  assumes "1 \<le> k" "k \<le> 35"
  shows "\<exists>t. backoff ovf r k = Some t \<and>
    (let d = min 30000000000 (500000000 * 2 ^ (k - 1)) in 3 * d \<le> 4 * t \<and> 4 * t < 5 * d)
    \<and> t < 37500000000"
proof -
  obtain t e where t: "backoff ovf r k = Some t" "3 * e \<le> t" "t < 5 * e"
    and e: "min 30000000000 (500000000 * 2 ^ (k - 1)) = 4 * e" "e \<le> 7500000000"
    using backoff_exact [OF assms(2)] by metis
  show ?thesis unfolding Let_def e(1) using t e(2) by (intro exI [of _ t]) simp
qed

theorem backoff_bounds_witness: "\<exists>t. backoff id 123456789 7 = Some t \<and> 4 * t < 5 * 30000000000"
  using backoff_bounds [of 7 id 123456789] by (auto simp: Let_def)

text \<open>
  At the 36th retry the delay no longer fits in 64 bits. Where the conversion of such a
  float gives a negative number, as on amd64, the cap is skipped and \<^verbatim>\<open>backoff\<close> panics; where it
  saturates, the cap applies.
\<close>

theorem backoff_overflow_panics:
  "backoff (\<lambda>_. - (2 ^ 63)) r 36 = None \<and>
   (\<exists>t. backoff (\<lambda>_. 2 ^ 63 - 1) r 36 = Some t \<and> 22500000000 \<le> t \<and> t < 37500000000)"
proof
  have big: "\<not> in_int64 (base_backoff * 2 ^ (36 - 1))"
    by (simp add: in_int64_def base_backoff_def)
  show "backoff (\<lambda>_. - (2 ^ 63)) r 36 = None"
    using big by (simp add: backoff_def capped_delay_def float_to_int64_def max_backoff_def Let_def)
  have d: "capped_delay (\<lambda>_. 2 ^ 63 - 1) 36 = 30000000000"
    using big by (simp add: capped_delay_def float_to_int64_def max_backoff_def Let_def)
  then obtain t where t: "backoff (\<lambda>_. 2 ^ 63 - 1) r 36 = Some t" by (auto simp: backoff_def Let_def)
  then show "\<exists>t. backoff (\<lambda>_. 2 ^ 63 - 1) r 36 = Some t \<and> 22500000000 \<le> t \<and> t < 37500000000"
    using backoff_range [OF t] d by auto
qed

section \<open>What Do sends and returns\<close>

fun attempts :: "http_event list \<Rightarrow> (nat \<times> string option) list" where
  "attempts [] = []"
| "attempts (Attempt k b # evs) = (k, b) # attempts evs"
| "attempts (_ # evs) = attempts evs"

fun drained :: "http_event list \<Rightarrow> nat list" where
  "drained [] = []"
| "drained (Drained k # evs) = k # drained evs"
| "drained (_ # evs) = drained evs"

lemma attempts_append [simp]: "attempts (xs @ ys) = attempts xs @ attempts ys"
  by (induction xs rule: attempts.induct) simp_all

lemma drained_append [simp]: "drained (xs @ ys) = drained xs @ drained ys"
  by (induction xs rule: drained.induct) simp_all

lemma prepare_quiet [simp]:
  "attempts (fst (prepare env k req)) = []" "drained (fst (prepare env k req)) = []"
  by (auto simp: prepare_def split: option.split)

text \<open>A request whose body can be sent again: the body is \<open>b\<close> and \<open>GetBody\<close> returns \<open>b\<close>.\<close>

definition replayable :: "request \<Rightarrow> string \<Rightarrow> bool" where
  "replayable q b \<longleftrightarrow> req_body q = Some \<lparr>bytes = b, fault = None\<rparr> \<and> get_body q = Some (Inr b)"

definition bad :: "env \<Rightarrow> request \<Rightarrow> nat \<Rightarrow> bool" where
  "bad env q k = (case transport env k q of Inl _ \<Rightarrow> True | Inr r \<Rightarrow> retryable (status r))"

definition attempt_error :: "env \<Rightarrow> request \<Rightarrow> nat \<Rightarrow> goerr" where
  "attempt_error env q k = (case transport env k q of Inl e \<Rightarrow> e | Inr r \<Rightarrow> http_error r)"

definition answered :: "env \<Rightarrow> request \<Rightarrow> nat \<Rightarrow> bool" where
  "answered env q k \<longleftrightarrow> \<not> isl (transport env k q)"

lemma sent_replayable [simp]: "replayable q b \<Longrightarrow> sent_body q = Some b"
  by (simp add: replayable_def sent_body_def)

text \<open>At attempt \<open>k\<close> the request is the original, or the original with its body used up.\<close>

definition stage :: "request \<Rightarrow> nat \<Rightarrow> request \<Rightarrow> bool" where
  "stage q k cur \<longleftrightarrow> cur = q \<or> 0 < k \<and> cur = consumed q"

lemma prepare_ready:
  assumes "replayable q b" "stage q k cur" "k \<le> 35" "0 < k \<longrightarrow> ctx_done env k = None"
  shows "snd (prepare env k cur) = Ready q"
proof (cases "k = 0")
  case True
  then show ?thesis using assms(2) by (simp add: prepare_def stage_def)
next
  case False
  then obtain d where d: "backoff (overflow env) (noise env k) k = Some d"
    using backoff_ok [of k] assms(3) by force
  have "cur\<lparr>req_body := Some \<lparr>bytes = b, fault = None\<rparr>\<rparr> = q" "get_body cur = Some (Inr b)"
    using assms(1,2) by (auto simp: stage_def replayable_def consumed_def)
  then show ?thesis using False assms(4) d by (simp add: prepare_def)
qed

text \<open>One turn of the loop at a bad attempt.\<close>

lemma loop_bad:
  assumes "replayable q b" "stage q k cur" "k \<le> 35" "0 < k \<longrightarrow> ctx_done env k = None" "bad env q k"
  shows "\<exists>pre last_resp'.
    attempts pre = [(k, Some b)] \<and> drained pre = (if answered env q k then [k] else []) \<and>
    do_loop env retries (Suc left) k cur last_err last_resp =
      apfst ((@) pre) (do_loop env retries left (Suc k) (consumed q) (Some (attempt_error env q k)) last_resp')"
proof -
  obtain evs where p: "prepare env k cur = (evs, Ready q)"
    using prepare_ready [OF assms(1-4)] by (cases "prepare env k cur") simp
  then have quiet: "attempts evs = []" "drained evs = []"
    using prepare_quiet [of env k cur] by simp_all
  show ?thesis
  proof (cases "transport env k q")
    case (Inl e)
    show ?thesis
      by (rule exI [of _ "evs @ [Attempt k (Some b)]"], rule exI [of _ last_resp])
         (use p quiet Inl assms(1) in \<open>auto simp: answered_def attempt_error_def apfst_def map_prod_def split: prod.split\<close>)
  next
    case (Inr r)
    then have "retryable (status r)" using assms(5) by (simp add: bad_def)
    then show ?thesis
      by (intro exI [of _ "evs @ [Attempt k (Some b), Drained k]"] exI [of _ "Some r"])
         (use p quiet Inr assms(1) in \<open>auto simp: answered_def attempt_error_def apfst_def map_prod_def split: prod.split\<close>)
  qed
qed

lemma stage_next: "stage q (Suc k) (consumed q)"
  by (simp add: stage_def)

text \<open>Bad attempts up to \<open>j\<close>, all of them made, then the loop goes on from \<open>j\<close>.\<close>

lemma loop_until:
  assumes rp: "replayable q b" and j: "k \<le> j" "j \<le> k + left" "j \<le> 36"
    and st: "stage q k cur"
    and free: "\<forall>i. k \<le> i \<and> 0 < i \<and> i < j \<longrightarrow> ctx_done env i = None"
    and allbad: "\<forall>i. k \<le> i \<and> i < j \<longrightarrow> bad env q i"
  shows "\<exists>pre cur' last_resp'.
    attempts pre = map (\<lambda>i. (i, Some b)) [k..<j] \<and> drained pre = filter (answered env q) [k..<j] \<and>
    stage q j cur' \<and>
    do_loop env retries left k cur last_err last_resp =
      apfst ((@) pre) (do_loop env retries (k + left - j) j cur'
        (if j = k then last_err else Some (attempt_error env q (j - 1))) last_resp')"
  using j st free allbad
proof (induction left arbitrary: k cur last_err last_resp)
  case 0
  then have "j = k" by simp
  then show ?case using "0.prems"(4)
    by (intro exI [of _ "[]"] exI [of _ cur] exI [of _ last_resp]) (simp add: apfst_def map_prod_def)
next
  case (Suc left)
  show ?case
  proof (cases "j = k")
    case True
    then show ?thesis using Suc.prems(4)
      by (intro exI [of _ "[]"] exI [of _ cur] exI [of _ last_resp]) (simp add: apfst_def map_prod_def split: prod.split)
  next
    case False
    then have k: "k < j" "k \<le> 35" using Suc.prems by simp_all
    obtain pre r where one: "attempts pre = [(k, Some b)]" "drained pre = (if answered env q k then [k] else [])"
      "do_loop env retries (Suc left) k cur last_err last_resp =
        apfst ((@) pre) (do_loop env retries left (Suc k) (consumed q) (Some (attempt_error env q k)) r)"
      using loop_bad [OF rp Suc.prems(4) k(2), of env retries left last_err last_resp] Suc.prems k by auto
    obtain pre' cur' r' where rest:
      "attempts pre' = map (\<lambda>i. (i, Some b)) [Suc k..<j]" "drained pre' = filter (answered env q) [Suc k..<j]"
      "stage q j cur'"
      "do_loop env retries left (Suc k) (consumed q) (Some (attempt_error env q k)) r =
        apfst ((@) pre') (do_loop env retries (Suc k + left - j) j cur'
          (if j = Suc k then Some (attempt_error env q k) else Some (attempt_error env q (j - 1))) r')"
      using Suc.IH [of "Suc k" "consumed q" "Some (attempt_error env q k)" r] Suc.prems k stage_next by auto
    have "[k..<j] = k # [Suc k..<j]" using k by (simp add: upt_conv_Cons)
    then show ?thesis
      using one rest k False
      by (intro exI [of _ "pre @ pre'"] exI [of _ cur'] exI [of _ r'])
         (auto simp: apfst_def map_prod_def split: prod.split)
  qed
qed

text \<open>
  The request the loop starts from: with a body and no \<open>GetBody\<close> it is buffered when there
  are retries, and then can be sent again.
\<close>

lemma buffer_replayable:
  assumes "req_body req = Some \<lparr>bytes = b, fault = None\<rparr>"
    and "get_body req = None \<and> 0 < retries \<or> get_body req = Some (Inr b)"
  shows "\<exists>q. buffer_body retries req = Inr q \<and> replayable q b"
  using assms by (auto simp: buffer_body_def replayable_def)

abbreviation buffered :: "options \<Rightarrow> request \<Rightarrow> request" where
  "buffered opts req \<equiv> projr (buffer_body (opt_max_retries opts) req)"

definition can_resend :: "options \<Rightarrow> request \<Rightarrow> string \<Rightarrow> bool" where
  "can_resend opts req b \<longleftrightarrow>
     req_body req = Some \<lparr>bytes = b, fault = None\<rparr> \<and>
     (get_body req = None \<and> 0 < opt_max_retries opts \<or> get_body req = Some (Inr b)) \<and>
     0 \<le> opt_max_retries opts \<and> opt_max_retries opts \<le> 35"

lemma do_until:
  assumes "can_resend opts req b" "j \<le> nat (opt_max_retries opts + 1)"
    and "\<forall>i. 0 < i \<and> i < j \<longrightarrow> ctx_done env i = None"
    and "\<forall>i<j. bad env (buffered opts req) i"
  shows "\<exists>pre cur r. replayable (buffered opts req) b \<and> stage (buffered opts req) j cur \<and>
    attempts pre = map (\<lambda>i. (i, Some b)) [0..<j] \<and>
    drained pre = filter (answered env (buffered opts req)) [0..<j] \<and>
    do_request opts env req =
      apfst ((@) pre) (do_loop env (opt_max_retries opts) (nat (opt_max_retries opts + 1) - j) j cur
        (if j = 0 then None else Some (attempt_error env (buffered opts req) (j - 1))) r)"
proof -
  obtain q where q: "buffer_body (opt_max_retries opts) req = Inr q" "replayable q b"
    using buffer_replayable [of req b "opt_max_retries opts"] assms(1) by (auto simp: can_resend_def)
  moreover have "j \<le> 36" using assms(1,2) by (auto simp: can_resend_def)
  ultimately show ?thesis
    using loop_until [of q b 0 j "nat (opt_max_retries opts + 1)" q env "opt_max_retries opts" None None] assms
    by (fastforce simp: do_request_def stage_def)
qed

lemma budget: "int j \<le> r \<Longrightarrow> j \<le> nat (r + 1)"
  by simp

text \<open>
  C6. \<^verbatim>\<open>Do\<close> returns the first response whose status is not retryable, as soon as it has it:
  if attempts \<open>0 \<dots> j-1\<close> end in network errors or retryable statuses and attempt \<open>j\<close> (within
  the retry budget) does not, \<^verbatim>\<open>Do\<close> makes exactly the attempts \<open>0 \<dots> j\<close>, sends the whole
  body each time, closes exactly the retryable responses it dropped, and returns response \<open>j\<close>.
\<close>

theorem do_first_answer:
  assumes "can_resend opts req b" "int j \<le> opt_max_retries opts"
    and "\<forall>i. 0 < i \<and> i \<le> j \<longrightarrow> ctx_done env i = None"
    and "\<forall>i<j. bad env (buffered opts req) i"
    and "transport env j (buffered opts req) = Inr resp" "\<not> retryable (status resp)"
  shows "\<exists>evs. do_request opts env req = (evs, Got (Some resp)) \<and>
    attempts evs = map (\<lambda>i. (i, Some b)) [0..<Suc j] \<and>
    drained evs = filter (answered env (buffered opts req)) [0..<j]"
proof -
  let ?q = "buffered opts req" and ?n = "nat (opt_max_retries opts + 1)"
  obtain pre cur r where pre: "replayable ?q b" "stage ?q j cur"
    "attempts pre = map (\<lambda>i. (i, Some b)) [0..<j]" "drained pre = filter (answered env ?q) [0..<j]"
    "do_request opts env req = apfst ((@) pre) (do_loop env (opt_max_retries opts) (?n - j) j cur
        (if j = 0 then None else Some (attempt_error env ?q (j - 1))) r)"
    using do_until [OF assms(1) _ _ assms(4)] assms(2,3) by (metis less_imp_le budget)
  obtain left where left: "?n - j = Suc left" using assms(2) by (cases "?n - j") auto
  have "j \<le> 35" using assms(1,2) by (auto simp: can_resend_def)
  then obtain evs where p: "prepare env j cur = (evs, Ready ?q)"
    using prepare_ready [OF pre(1,2), of env] assms(3) by (metis order_refl prod.collapse)
  have "attempts evs = []" "drained evs = []" using prepare_quiet [of env j cur] p by simp_all
  then show ?thesis using pre p assms(5,6) left by (simp add: apfst_def map_prod_def)
qed

text \<open>
  C7. When every attempt is bad, \<^verbatim>\<open>Do\<close> makes all \<open>MaxRetries+1\<close> attempts, each with the
  whole body, and fails with the error of the last one wrapped in the attempt count.
\<close>

theorem do_exhausts:
  assumes "can_resend opts req b"
    and "\<forall>i. ctx_done env i = None"
    and "\<forall>i. bad env (buffered opts req) i"
  defines "n \<equiv> nat (opt_max_retries opts + 1)"
  shows "\<exists>evs e. do_request opts env req = (evs, Failed e) \<and>
    e = Errorf ''request failed after %d attempts: %w''
          [AInt (int n), AErr (attempt_error env (buffered opts req) (n - 1))] \<and>
    errors_is e (attempt_error env (buffered opts req) (n - 1)) \<and>
    attempts evs = map (\<lambda>i. (i, Some b)) [0..<n] \<and>
    drained evs = filter (answered env (buffered opts req)) [0..<n]"
proof -
  have n: "0 < n" "wrap64 (opt_max_retries opts + 1) = int n"
    using assms(1) by (simp_all add: n_def can_resend_def in_int64_def)
  have refl: "errors_is e e" for e by (cases e) auto
  show ?thesis
    using do_until [of opts req b n env] assms(1-3) n refl
    by (auto simp: n_def [symmetric] apfst_def map_prod_def)
qed

text \<open>
  C29. A context that is done while \<^verbatim>\<open>Do\<close> waits for attempt \<open>j\<close> ends the call with the
  context's error, and attempt \<open>j\<close> is not made.
\<close>

theorem do_cancelled:
  assumes "can_resend opts req b" "0 < j" "int j \<le> opt_max_retries opts"
    and "\<forall>i. 0 < i \<and> i < j \<longrightarrow> ctx_done env i = None" "ctx_done env j = Some e"
    and "\<forall>i<j. bad env (buffered opts req) i"
  shows "\<exists>evs. do_request opts env req = (evs, Failed e) \<and>
    attempts evs = map (\<lambda>i. (i, Some b)) [0..<j]"
proof -
  let ?q = "buffered opts req" and ?n = "nat (opt_max_retries opts + 1)"
  obtain pre cur r where pre: "attempts pre = map (\<lambda>i. (i, Some b)) [0..<j]"
    "do_request opts env req = apfst ((@) pre) (do_loop env (opt_max_retries opts) (?n - j) j cur
        (if j = 0 then None else Some (attempt_error env ?q (j - 1))) r)"
    using do_until [OF assms(1) _ assms(4,6)] budget [OF assms(3)] by metis
  obtain left where left: "?n - j = Suc left" using assms(3) by (cases "?n - j") auto
  have "j \<le> 35" using assms(1,3) by (auto simp: can_resend_def)
  then obtain d where "backoff (overflow env) (noise env j) j = Some d" using backoff_ok by blast
  then have "prepare env j cur = ([Wait j d], GiveUp e)" using assms(2,5) by (simp add: prepare_def)
  then show ?thesis using pre left by (simp add: apfst_def map_prod_def)
qed

text \<open>A network that fails, then answers 503, then 200, and a client with its defaults.\<close>

definition flaky :: env where
  "flaky = \<lparr>transport = (\<lambda>k q. if k = 0 then Inl (Ext ''connection refused'')
       else Inr \<lparr>status = (if k = 1 then 503 else 200), resp_body = \<lparr>bytes = ''ok'', fault = None\<rparr>\<rparr>),
     ctx_done = (\<lambda>_. None), noise = (\<lambda>k. 1000 * int k), overflow = (\<lambda>_. - (2 ^ 63))\<rparr>"

definition down :: "(nat \<Rightarrow> goerr option) \<Rightarrow> env" where
  "down ctx = \<lparr>transport = (\<lambda>k q. Inr \<lparr>status = 503, resp_body = \<lparr>bytes = ''busy'', fault = None\<rparr>\<rparr>),
     ctx_done = ctx, noise = (\<lambda>k. 7), overflow = (\<lambda>_. - (2 ^ 63))\<rparr>"

definition default_client :: options where
  "default_client = with_defaults \<lparr>opt_timeout = 0, opt_max_body = 0, opt_max_retries = 0, opt_logger = None\<rparr>"

definition post :: "string \<Rightarrow> request" where
  "post b = \<lparr>req_method = ''POST'', req_url = ''http://x'', req_headers = [],
             req_body = Some \<lparr>bytes = b, fault = None\<rparr>, get_body = None\<rparr>"

lemma default_retries [simp]: "opt_max_retries default_client = 3"
  by (simp add: default_client_def with_defaults_def default_max_retries_def)

lemma post_resend: "can_resend default_client (post b) b"
  by (simp add: can_resend_def post_def)

theorem do_first_answer_witness:
  "\<exists>evs resp. do_request default_client flaky (post ''hello'') = (evs, Got (Some resp)) \<and> status resp = 200 \<and>
    attempts evs = [(0, Some ''hello''), (1, Some ''hello''), (2, Some ''hello'')] \<and> drained evs = [1]"
proof -
  have two: "i < 2 \<longleftrightarrow> i = 0 \<or> i = 1" for i :: nat by auto
  have "\<forall>i<2. bad flaky (buffered default_client (post ''hello'')) i"
    by (simp add: two bad_def flaky_def retryable_def)
  then show ?thesis
    using do_first_answer [of default_client "post ''hello''" "''hello''" 2 flaky
        "\<lparr>status = 200, resp_body = \<lparr>bytes = ''ok'', fault = None\<rparr>\<rparr>", OF post_resend]
    by (auto simp: flaky_def retryable_def answered_def upt_rec numeral_2_eq_2)
qed

theorem do_exhausts_witness:
  "\<exists>evs e. do_request default_client (down (\<lambda>_. None)) (post ''hello'') = (evs, Failed e) \<and>
    errors_is e (Errorf ''HTTP %d: %s'' [AInt 503, AStr ''busy'']) \<and> length (attempts evs) = 4"
proof -
  have "\<forall>i. bad (down (\<lambda>_. None)) (buffered default_client (post ''hello'')) i"
    by (simp add: bad_def down_def retryable_def)
  moreover have "attempt_error (down (\<lambda>_. None)) q k = Errorf ''HTTP %d: %s'' [AInt 503, AStr ''busy'']" for q k
    by (simp add: attempt_error_def down_def http_error_def read_limited_def)
  ultimately show ?thesis
    using do_exhausts [of default_client "post ''hello''" "''hello''" "down (\<lambda>_. None)", OF post_resend] by (auto simp: down_def)
qed

theorem do_cancelled_witness:
  "\<exists>evs. do_request default_client (down (\<lambda>k. if k = 2 then Some (CtxErr ''context canceled'') else None))
      (post ''hello'') = (evs, Failed (CtxErr ''context canceled'')) \<and>
    attempts evs = [(0, Some ''hello''), (1, Some ''hello'')]"
proof -
  let ?env = "down (\<lambda>k. if k = 2 then Some (CtxErr ''context canceled'') else None)"
  have "\<forall>i<2. bad ?env (buffered default_client (post ''hello'')) i"
    by (simp add: bad_def down_def retryable_def)
  then show ?thesis
    using do_cancelled [of default_client "post ''hello''" "''hello''" 2 ?env "CtxErr ''context canceled''", OF post_resend]
    by (auto simp: down_def upt_rec numeral_2_eq_2)
qed

text \<open>The loop never ends with a nil response and no error.\<close>

lemma loop_not_nil:
  "0 < left \<or> last_err \<noteq> None \<Longrightarrow>
   case snd (do_loop env retries left k req last_err last_resp) of
     Got r \<Rightarrow> \<exists>resp. r = Some resp \<and> \<not> retryable (status resp) | _ \<Rightarrow> True"
proof (induction left arbitrary: k req last_err last_resp)
  case 0
  then show ?case by (auto split: option.split)
next
  case (Suc left)
  show ?case
    by (auto simp: Suc.IH split: prod.split prepared.split sum.split)
qed

text \<open>Within 35 retries the loop does not panic, so \<^verbatim>\<open>Do\<close> ends in an error or a response.\<close>

lemma prepare_no_crash: "k \<le> 35 \<Longrightarrow> snd (prepare env k req) \<noteq> Crash"
  using backoff_ok [of k "overflow env" "noise env k"]
  by (auto simp: prepare_def split: option.split sum.split)

lemma loop_no_panic: "left + k \<le> 36 \<Longrightarrow> snd (do_loop env retries left k req last_err last_resp) \<noteq> DoPanic"
proof (induction left arbitrary: k req last_err last_resp)
  case 0
  then show ?case by (simp split: option.split)
next
  case (Suc left)
  obtain evs pr where p: "prepare env k req = (evs, pr)" by fastforce
  then have "pr \<noteq> Crash" using prepare_no_crash [of k env req] Suc.prems by simp
  then show ?case
    using p Suc.IH [of "Suc k"] Suc.prems by (cases pr) (auto split: sum.split)
qed

lemma do_request_ends:
  assumes "0 \<le> opt_max_retries opts" "opt_max_retries opts \<le> 35"
  shows "(\<exists>e. snd (do_request opts env req) = Failed e) \<or> (\<exists>r. snd (do_request opts env req) = Got (Some r))"
proof (cases "buffer_body (opt_max_retries opts) req")
  case (Inl e)
  then show ?thesis by (simp add: do_request_def)
next
  case (Inr q)
  let ?r = "snd (do_loop env (opt_max_retries opts) (nat (opt_max_retries opts + 1)) 0 q None None)"
  have "?r \<noteq> DoPanic" using assms by (intro loop_no_panic) simp
  moreover have "case ?r of Got r \<Rightarrow> \<exists>resp. r = Some resp \<and> \<not> retryable (status resp) | _ \<Rightarrow> True"
    using assms(1) by (intro loop_not_nil) simp
  ultimately show ?thesis using Inr by (cases ?r) (auto simp: do_request_def)
qed

text \<open>
  A response comes from the last attempt made; the attempts are numbered without a gap, and only
  responses of earlier ones are thrown away.
\<close>

lemma loop_got:
  assumes "do_loop env retries left k req last_err last_resp = (evs, Got r)" "0 < left \<or> last_err \<noteq> None"
  shows "\<exists>resp j q. r = Some resp \<and> \<not> retryable (status resp) \<and> transport env j q = Inr resp \<and>
    k \<le> j \<and> j < k + left \<and> map fst (attempts evs) = [k..<Suc j] \<and> set (drained evs) \<subseteq> {k..<j}"
  using assms
proof (induction left arbitrary: k req last_err last_resp evs)
  case 0
  then show ?case by (auto split: option.splits)
next
  case (Suc left)
  obtain pre pr where p: "prepare env k req = (pre, pr)" by fastforce
  have quiet: "attempts pre = []" "drained pre = []" using prepare_quiet [of env k req] p by simp_all
  obtain req' where ready: "pr = Ready req'" using Suc.prems(1) p by (cases pr) auto
  have later: ?case
    if l: "do_loop env retries left (Suc k) (consumed req') (Some e) lr = (tl, Got r)"
      and evs: "map fst (attempts evs) = k # map fst (attempts tl)" "set (drained evs) \<subseteq> {k} \<union> set (drained tl)"
    for e lr tl
  proof -
    obtain resp j q where j: "r = Some resp" "\<not> retryable (status resp)" "transport env j q = Inr resp"
      "Suc k \<le> j" "j < Suc k + left" "map fst (attempts tl) = [Suc k..<Suc j]" "set (drained tl) \<subseteq> {Suc k..<j}"
      using Suc.IH [OF l] by auto
    then have "k # [Suc k..<Suc j] = [k..<Suc j]" by (simp add: upt_conv_Cons)
    moreover have "set (drained evs) \<subseteq> {k..<j}" using evs(2) j(4,7) by fastforce
    ultimately show ?thesis using j evs(1) by (intro exI [of _ resp] exI [of _ j] exI [of _ q]) simp
  qed
  show ?case
  proof (cases "transport env k req'")
    case (Inl e)
    obtain tl res where l: "do_loop env retries left (Suc k) (consumed req') (Some e) last_resp = (tl, res)" by fastforce
    then have "evs = pre @ Attempt k (sent_body req') # tl" "res = Got r" using Suc.prems(1) p ready Inl by auto
    then show ?thesis by (intro later [OF l [unfolded \<open>res = Got r\<close>]]) (auto simp: quiet)
  next
    case (Inr resp)
    show ?thesis
    proof (cases "retryable (status resp)")
      case True
      obtain tl res where l: "do_loop env retries left (Suc k) (consumed req') (Some (http_error resp)) (Some resp) = (tl, res)"
        by fastforce
      then have "evs = pre @ Attempt k (sent_body req') # Drained k # tl" "res = Got r"
        using Suc.prems(1) p ready Inr True by auto
      then show ?thesis by (intro later [OF l [unfolded \<open>res = Got r\<close>]]) (simp_all add: quiet)
    next
      case False
      then have "evs = pre @ [Attempt k (sent_body req')]" "r = Some resp"
        using Suc.prems(1) p ready Inr by auto
      then show ?thesis using Inr False quiet by (intro exI [of _ resp] exI [of _ k] exI [of _ req']) simp
    qed
  qed
qed

text \<open>
  C30. What a response of \<^verbatim>\<open>Do\<close> says about the attempts, for any request, any network and any
  client made by \<^verbatim>\<open>New\<close>: it is never nil (the \<^verbatim>\<open>return lastResp, nil\<close> at its end is dead code), it
  is the network's answer to the last attempt made and not a retryable one, the attempts are
  numbered from 0 without a gap and within the retries of the client, and only responses of
  earlier attempts were thrown away, so the body of this one is still there to read.
\<close>

theorem do_result_sound:
  assumes "do_request (with_defaults opts) env req = (evs, Got r)"
  shows "\<exists>resp j q. r = Some resp \<and> \<not> retryable (status resp) \<and> transport env j q = Inr resp \<and>
    map fst (attempts evs) = [0..<Suc j] \<and> int j \<le> opt_max_retries (with_defaults opts) \<and>
    set (drained evs) \<subseteq> {..<j}"
proof -
  let ?n = "opt_max_retries (with_defaults opts)"
  have n: "0 \<le> ?n" "0 < nat (?n + 1)" by (simp_all add: with_defaults_def default_max_retries_def)
  obtain q where "buffer_body ?n req = Inr q" using assms by (auto simp: do_request_def split: sum.splits)
  then have "do_loop env ?n (nat (?n + 1)) 0 q None None = (evs, Got r)" using assms by (simp add: do_request_def)
  from loop_got [OF this] n show ?thesis by (fastforce simp: atLeast0LessThan)
qed

theorem do_result_sound_witness:
  "\<exists>evs r. do_request (with_defaults \<lparr>opt_timeout = 0, opt_max_body = 0, opt_max_retries = -1, opt_logger = None\<rparr>)
      (down (\<lambda>_. None)\<lparr>transport := (\<lambda>k q. Inr \<lparr>status = 404, resp_body = \<lparr>bytes = [], fault = None\<rparr>\<rparr>)\<rparr>)
      (post ''x'') = (evs, Got r) \<and> (\<exists>resp. r = Some resp \<and> \<not> retryable (status resp)) \<and> map fst (attempts evs) = [0]"
proof -
  let ?o = "\<lparr>opt_timeout = 0, opt_max_body = 0, opt_max_retries = -1, opt_logger = None\<rparr>"
  let ?e = "down (\<lambda>_. None)\<lparr>transport := (\<lambda>k q. Inr \<lparr>status = 404, resp_body = \<lparr>bytes = [], fault = None\<rparr>\<rparr>)\<rparr>"
  have "do_request (with_defaults ?o) ?e (post ''x'')
      = ([Attempt 0 (Some ''x'')], Got (Some \<lparr>status = 404, resp_body = \<lparr>bytes = [], fault = None\<rparr>\<rparr>))"
    by (simp add: do_request_def buffer_body_def with_defaults_def post_def down_def prepare_def
        retryable_def sent_body_def)
  then show ?thesis
    using do_result_sound [of ?o ?e "post ''x''"] by fastforce
qed

section \<open>Body limits\<close>

text \<open>
  C32. \<^verbatim>\<open>ReadBody\<close> under a limit that is not negative and below the largest \<^verbatim>\<open>int64\<close>: it
  succeeds exactly on bodies that end without error within the limit, returning all of them;
  a longer body is an error however it ends; a shorter one that breaks off reports its error.
\<close>

theorem read_body_limit:
  assumes "0 \<le> opt_max_body opts" "opt_max_body opts < 2 ^ 63 - 1"
  shows "read_body opts resp =
    (let b = resp_body resp; m = opt_max_body opts in
     if m < int (length (bytes b)) then Inl (Errorf ''response body exceeds %d bytes limit'' [AInt m])
     else case fault b of
       Some e \<Rightarrow> Inl (Errorf ''reading response body: %w'' [AErr e])
     | None \<Rightarrow> Inr (bytes b))"
proof -
  have "in_int64 (opt_max_body opts + 1)" using assms by (simp add: in_int64_def)
  then show ?thesis
    using assms by (auto simp: read_body_def read_limited_def Let_def split: option.split)
qed

theorem read_body_limit_witness:
  "read_body default_client \<lparr>status = 200, resp_body = \<lparr>bytes = ''ok'', fault = None\<rparr>\<rparr> = Inr ''ok''"
proof -
  have m: "opt_max_body default_client = 10485760"
    by (simp add: default_client_def with_defaults_def default_max_body_def)
  show ?thesis using read_body_limit [of default_client] by (simp add: m Let_def)
qed

text \<open>
  With \<^verbatim>\<open>MaxBodySize\<close> set to the largest \<^verbatim>\<open>int64\<close> ("no limit"), the limit plus one wraps
  around to a negative number: \<^verbatim>\<open>ReadBody\<close> then returns an empty body and no error for
  every response.
\<close>

theorem read_body_wraps:
  "read_body (opts\<lparr>opt_max_body := 2 ^ 63 - 1\<rparr>) resp = Inr []"
  by (simp add: read_body_def read_limited_def wrap64_def)

text \<open>
  \<^verbatim>\<open>DoStream\<close> makes one attempt whatever happens; it hands a response over only with
  status 200, and closes the body of every other response itself.
\<close>

theorem do_stream_once:
  "attempts (fst (do_stream env req)) = [(0, sent_body req)] \<and>
   (case snd (do_stream env req) of
      Inr resp \<Rightarrow> status resp = 200 \<and> transport env 0 req = Inr resp \<and> drained (fst (do_stream env req)) = []
    | Inl e \<Rightarrow> (drained (fst (do_stream env req)) = [0]) = (\<exists>resp. transport env 0 req = Inr resp \<and> status resp \<noteq> 200))"
  by (auto simp: do_stream_def split: sum.split)

end
