(* ===== verification/RuntimeCfg.thy ===== *)
theory RuntimeCfg
  imports JsonDecode "HOL-Library.Monad_Syntax"
begin

text \<open>
  \<^verbatim>\<open>internal/runtimecfg/config.go\<close>: the connection details written at build time and read at
  start: the types, their JSON, \<^verbatim>\<open>Load\<close>, \<^verbatim>\<open>Save\<close> and \<^verbatim>\<open>Lookup\<close>, on a file system
  whose faults are part of its state.
\<close>

section \<open>Types\<close>

record model_connection =
  api_type :: string
  api_base :: string
  auth_env_var :: string
  host_env_var :: string
  max_concurrency :: int

text \<open>The Go map is kept in the order of its keys; \<open>None\<close> is the nil map.\<close>

record config =
  cfg_models :: "(string \<times> model_connection) list option"

definition config_path :: string where
  "config_path = ''.crate/runtime.json''"

definition lookup :: "config \<Rightarrow> string \<Rightarrow> model_connection option" where
  "lookup c model = (case cfg_models c of None \<Rightarrow> None | Some ms \<Rightarrow> map_of ms model)"

section \<open>JSON\<close>

text \<open>\<^verbatim>\<open>omitempty\<close> on strings and on integers.\<close>

definition omit_string :: "string \<Rightarrow> string \<Rightarrow> (string \<times> json) list" where
  "omit_string k s = (if s = [] then [] else [(k, JStr s)])"

definition omit_int :: "string \<Rightarrow> int \<Rightarrow> (string \<times> json) list" where
  "omit_int k i = (if i = 0 then [] else [(k, JNum (itoa i))])"

definition enc_conn :: "model_connection \<Rightarrow> json" where
  "enc_conn c = JObj
    ([(''api_type'', JStr (api_type c)), (''api_base'', JStr (api_base c))] @
     omit_string ''auth_env_var'' (auth_env_var c) @
     omit_string ''host_env_var'' (host_env_var c) @
     omit_int ''max_concurrency'' (max_concurrency c))"

definition dec_conn :: "json option \<Rightarrow> model_connection option" where
  "dec_conn = dec_struct (\<lambda>ms. do {
     t \<leftarrow> dec_string (field ''api_type'' ms);
     b \<leftarrow> dec_string (field ''api_base'' ms);
     a \<leftarrow> dec_string (field ''auth_env_var'' ms);
     h \<leftarrow> dec_string (field ''host_env_var'' ms);
     n \<leftarrow> dec_int (field ''max_concurrency'' ms);
     Some \<lparr>api_type = t, api_base = b, auth_env_var = a, host_env_var = h, max_concurrency = n\<rparr>
   })"

fun dec_conns :: "(string \<times> json) list \<Rightarrow> (string \<times> model_connection) list
    \<Rightarrow> (string \<times> model_connection) list option" where
  "dec_conns [] acc = Some acc"
| "dec_conns ((k, j) # ms) acc = do { c \<leftarrow> dec_conn (Some j); dec_conns ms (upsert k c acc) }"

definition enc_config :: "config \<Rightarrow> json" where
  "enc_config c = JObj [(''models'', case cfg_models c of
       None \<Rightarrow> JNull | Some ms \<Rightarrow> JObj (map (\<lambda>(k, m). (k, enc_conn m)) ms))]"

definition dec_models :: "json option \<Rightarrow> (string \<times> model_connection) list option option" where
  "dec_models j =
    (case j of None \<Rightarrow> Some None | Some JNull \<Rightarrow> Some None
     | Some (JObj ms) \<Rightarrow> map_option Some (dec_conns ms []) | _ \<Rightarrow> None)"

definition dec_config :: "json \<Rightarrow> config option" where
  "dec_config j = dec_struct (\<lambda>ms. map_option (\<lambda>m. \<lparr>cfg_models = m\<rparr>) (dec_models (field ''models'' ms))) (Some j)"

section \<open>Files\<close>

text \<open>\<^verbatim>\<open>filepath.Dir\<close>: the part before the last slash, cleaned.\<close>

definition slash :: char where "slash = CHR ''/''"

fun path_elems :: "string \<Rightarrow> string list" where
  "path_elems [] = [[]]"
| "path_elems (a # s) =
    (if a = slash then [] # path_elems s
     else (case path_elems s of e # es \<Rightarrow> (a # e) # es | [] \<Rightarrow> [[a]]))"

fun resolve :: "bool \<Rightarrow> string list \<Rightarrow> string list \<Rightarrow> string list" where
  "resolve rooted acc [] = rev acc"
| "resolve rooted acc (e # es) =
    (if e = [] \<or> e = ''.'' then resolve rooted acc es
     else if e = ''..'' then
       (case acc of
          p # ps \<Rightarrow> if p = ''..'' then resolve rooted (e # acc) es else resolve rooted ps es
        | [] \<Rightarrow> resolve rooted (if rooted then [] else [e]) es)
     else resolve rooted (e # acc) es)"

definition clean :: "string \<Rightarrow> string" where
  "clean p =
    (let rooted = has_prefix p [slash];
         r = (if rooted then [slash] else []) @ join (resolve rooted [] (path_elems p)) [slash]
     in if r = [] then ''.'' else r)"

definition dir :: "string \<Rightarrow> string" where
  "dir p = clean (drop_while_end (\<lambda>c. c \<noteq> slash) p)"

text \<open>
  A failed write leaves the file as the fault says; a read fails because the file is not
  there, or with the fault of its path.
\<close>

record fs =
  files :: "string \<Rightarrow> string option"
  read_fault :: "string \<Rightarrow> goerr option"
  mkdir_fault :: "string \<Rightarrow> goerr option"
  write_fault :: "string \<Rightarrow> (goerr \<times> string option) option"

datatype read_result = Data string | NotExist | ReadErr goerr

definition read_file :: "fs \<Rightarrow> string \<Rightarrow> read_result" where
  "read_file f p = (case read_fault f p of Some e \<Rightarrow> ReadErr e
     | None \<Rightarrow> (case files f p of Some d \<Rightarrow> Data d | None \<Rightarrow> NotExist))"

definition write_file :: "fs \<Rightarrow> string \<Rightarrow> string \<Rightarrow> fs \<times> goerr option" where
  "write_file f p d = (case write_fault f p of
     None \<Rightarrow> (f\<lparr>files := (files f)(p \<mapsto> d)\<rparr>, None)
   | Some (e, left) \<Rightarrow> (f\<lparr>files := (files f)(p := left)\<rparr>, Some e))"

text \<open>
  \<open>syntax_err\<close> is the error \<^verbatim>\<open>json.Unmarshal\<close> gives for a text; its wording is the
  library's.
\<close>

definition load :: "(string \<Rightarrow> goerr) \<Rightarrow> fs \<Rightarrow> string \<Rightarrow> goerr + config" where
  "load syntax_err f path =
    (case read_file f path of
       NotExist \<Rightarrow> Inr \<lparr>cfg_models = Some []\<rparr>
     | ReadErr e \<Rightarrow> Inl (Errorf ''reading runtime config: %w'' [AErr e])
     | Data data \<Rightarrow>
         (case Option.bind (parse data) dec_config of
            None \<Rightarrow> Inl (Errorf ''parsing runtime config: %w'' [AErr (syntax_err data)])
          | Some cfg \<Rightarrow> Inr (case cfg_models cfg of None \<Rightarrow> cfg\<lparr>cfg_models := Some []\<rparr> | Some _ \<Rightarrow> cfg)))"

text \<open>The types of a \<open>config\<close> always marshal, so that branch of \<^verbatim>\<open>Save\<close> is not taken.\<close>

definition save :: "fs \<Rightarrow> config \<Rightarrow> string \<Rightarrow> fs \<times> goerr option" where
  "save f c path =
    (let data = marshal_indent (enc_config c) in
     case mkdir_fault f (dir path) of
       Some e \<Rightarrow> (f, Some (Errorf ''creating config directory: %w'' [AErr e]))
     | None \<Rightarrow> write_file f path data)"

section \<open>The codec\<close>

definition conn_ok :: "model_connection \<Rightarrow> bool" where
  "conn_ok c \<longleftrightarrow> utf8_valid (api_type c) \<and> utf8_valid (api_base c) \<and> utf8_valid (auth_env_var c)
     \<and> utf8_valid (host_env_var c) \<and> in_int64 (max_concurrency c)"

text \<open>A Go value of the type whose strings are text.\<close>

definition config_ok :: "config \<Rightarrow> bool" where
  "config_ok c \<longleftrightarrow> (case cfg_models c of None \<Rightarrow> True | Some ms \<Rightarrow>
     sorted_wrt (<) (map fst ms) \<and> (\<forall>m \<in> set ms. utf8_valid (fst m) \<and> conn_ok (snd m)))"

lemma fold_eq_simps [simp]:
  "fold_name ''api_type'' = ''API_TYPE''" "fold_name ''api_base'' = ''API_BASE''"
  "fold_name ''auth_env_var'' = ''AUTH_ENV_VAR''" "fold_name ''host_env_var'' = ''HOST_ENV_VAR''"
  "fold_name ''max_concurrency'' = ''MAX_CONCURRENCY''" "fold_name ''models'' = ''MODELS''"
  by code_simp+

lemma field_omit [simp]:
  "field k (omit_string k' s) = (if s \<noteq> [] \<and> fold_name k' = fold_name k then Some (JStr s) else None)"
  "field k (omit_int k' i) = (if i \<noteq> 0 \<and> fold_name k' = fold_name k then Some (JNum (itoa i)) else None)"
  by (simp_all add: omit_string_def omit_int_def field_Cons)

lemma dec_enc_conn: "conn_ok c \<Longrightarrow> dec_conn (Some (enc_conn c)) = Some c"
  by (cases c) (simp add: enc_conn_def dec_conn_def dec_struct_def field_Cons field_append
      dec_string_def dec_int_def conn_ok_def parse_int_itoa)

lemma dec_enc_conns:
  "sorted_wrt (<) (map fst (acc @ ms)) \<Longrightarrow> \<forall>m \<in> set ms. conn_ok (snd m) \<Longrightarrow>
   dec_conns (map (\<lambda>(k, m). (k, enc_conn m)) ms) acc = Some (acc @ ms)"
proof (induction ms arbitrary: acc)
  case Nil
  then show ?case by simp
next
  case (Cons m ms)
  obtain k c where m: "m = (k, c)" by (cases m)
  have "\<forall>x \<in> set acc. fst x < k" using Cons.prems(1) m by (auto simp: sorted_wrt_append)
  then have "upsert k c acc = acc @ [(k, c)]" by (rule upsert_last)
  then show ?case using Cons m by (simp add: dec_enc_conn)
qed

lemma wf_enc_conn: "conn_ok c \<Longrightarrow> wf_json (enc_conn c)"
  by (auto simp: enc_conn_def omit_string_def omit_int_def conn_ok_def text_simps)

interpretation cfg: json_codec enc_config dec_config config_ok
proof
  fix c :: config
  assume c: "config_ok c"
  show "dec_config (enc_config c) = Some c"
  proof (cases "cfg_models c")
    case None
    then show ?thesis
      by (cases c) (simp add: dec_config_def enc_config_def dec_struct_def dec_models_def field_Cons)
  next
    case (Some ms)
    then have "dec_conns (map (\<lambda>(k, m). (k, enc_conn m)) ms) [] = Some ms"
      using c dec_enc_conns [of "[]" ms] by (simp add: config_ok_def)
    then show ?thesis using Some
      by (cases c) (simp add: dec_config_def enc_config_def dec_struct_def dec_models_def field_Cons)
  qed
  show "wf_json (enc_config c)"
    using c wf_enc_conn by (fastforce simp: enc_config_def config_ok_def text_simps split: option.splits)
qed

section \<open>Saving and loading\<close>

lemma load_never_nil: "load se f path = Inr c \<Longrightarrow> cfg_models c \<noteq> None"
  by (auto simp: load_def split: read_result.splits option.splits)

lemma load_missing: "read_fault f path = None \<Longrightarrow> files f path = None \<Longrightarrow> load se f path = Inr \<lparr>cfg_models = Some []\<rparr>"
  by (simp add: load_def read_file_def)

lemma lookup_empty [simp]: "lookup \<lparr>cfg_models = Some []\<rparr> model = None"
  by (simp add: lookup_def)

text \<open>
  C26. A config that \<^verbatim>\<open>Save\<close> wrote without error is the config \<^verbatim>\<open>Load\<close> reads back: the
  same connection for every model, with the nil map become an empty one; no other file changes.
  A failing \<^verbatim>\<open>MkdirAll\<close> leaves every file as it was.
\<close>

theorem save_load:
  assumes "config_ok c" "read_fault f path = None"
  shows "case save f c path of
      (f', None) \<Rightarrow>
        load se f' path = Inr \<lparr>cfg_models = Some (case cfg_models c of None \<Rightarrow> [] | Some ms \<Rightarrow> ms)\<rparr> \<and>
        (\<forall>m. lookup (projr (load se f' path)) m = lookup c m) \<and>
        (\<forall>q. q \<noteq> path \<longrightarrow> files f' q = files f q)
    | (f', Some e) \<Rightarrow>
        (mkdir_fault f (dir path) \<noteq> None \<longrightarrow> f' = f) \<and>
        (\<forall>q. q \<noteq> path \<longrightarrow> files f' q = files f q)"
proof (cases "mkdir_fault f (dir path)")
  case (Some e)
  then show ?thesis by (simp add: save_def Let_def)
next
  case None
  show ?thesis
  proof (cases "write_fault f path")
    case (Some w)
    then show ?thesis using None by (cases w) (simp add: save_def write_file_def Let_def)
  next
    case w: None
    let ?f = "f\<lparr>files := (files f)(path \<mapsto> marshal_indent (enc_config c))\<rparr>"
    have s: "save f c path = (?f, None)" using None w by (simp add: save_def write_file_def Let_def)
    have "read_file ?f path = Data (marshal_indent (enc_config c))"
      using assms(2) by (simp add: read_file_def)
    then have "load se ?f path = Inr (case cfg_models c of None \<Rightarrow> c\<lparr>cfg_models := Some []\<rparr> | Some _ \<Rightarrow> c)"
      using cfg.indent_roundtrip [OF assms(1)] by (simp add: load_def)
    then have l: "load se ?f path = Inr \<lparr>cfg_models = Some (case cfg_models c of None \<Rightarrow> [] | Some ms \<Rightarrow> ms)\<rparr>"
      by (cases c) (auto split: option.split)
    show ?thesis by (simp add: s l lookup_def split: option.split)
  qed
qed

definition ollama :: model_connection where
  "ollama = \<lparr>api_type = ''openai'', api_base = ''http://localhost:11434/v1'', auth_env_var = [],
             host_env_var = ''OLLAMA_HOST'', max_concurrency = 1\<rparr>"

definition empty_fs :: fs where
  "empty_fs = \<lparr>files = (\<lambda>_. None), read_fault = (\<lambda>_. None), mkdir_fault = (\<lambda>_. None), write_fault = (\<lambda>_. None)\<rparr>"

theorem save_load_witness:
  "\<exists>f'. save empty_fs \<lparr>cfg_models = Some [(''ollama/llama3'', ollama)]\<rparr> config_path = (f', None) \<and>
    load Ext f' config_path = Inr \<lparr>cfg_models = Some [(''ollama/llama3'', ollama)]\<rparr>"
proof -
  let ?c = "\<lparr>cfg_models = Some [(''ollama/llama3'', ollama)]\<rparr>"
  have ok: "config_ok ?c"
    by (simp add: config_ok_def conn_ok_def ollama_def text_simps in_int64_def)
  obtain f' where s: "save empty_fs ?c config_path = (f', None)"
    by (simp add: save_def write_file_def empty_fs_def Let_def)
  show ?thesis
    using save_load [OF ok, of empty_fs config_path Ext] s by (simp add: empty_fs_def)
qed

end
