(* ===== verification/Llm.thy ===== *)
theory Llm
  imports HttpClient JsonDecode "HOL-Library.AList"
begin

text \<open>
  The types the model providers share: the fields of the ADK's and genai's types that the
  program reads or writes, the configuration of a model, the state of a call, and the lemmas on
  loops that turn one stream into another. The functions that are not the program's (the
  environment, URL parsing, the wording of JSON errors, genai's part constructors) are
  arguments of the definitions that call them.
\<close>

section \<open>genai and ADK types\<close>

record function_call =
  fc_id :: string
  fc_name :: string
  fc_args :: gomap

record function_response =
  fr_id :: string
  fr_name :: string
  fr_response :: gomap

record part =
  part_text :: string
  part_call :: "function_call option"
  part_response :: "function_response option"

record content =
  content_role :: string
  content_parts :: "part list"

record usage_metadata =
  prompt_count :: int32
  candidates_count :: int32
  total_count :: int32

datatype finish_reason = NoReason | FinishStop | FinishMaxTokens | FinishSafety

record llm_response =
  lr_content :: "content option"
  lr_usage :: "usage_metadata option"
  lr_turn_complete :: bool
  lr_finish :: finish_reason

text \<open>
  A schema is the JSON it marshals to; \<open>None\<close> is the nil pointer. \<open>gofloat\<close> is a float
  with the literal Go writes for it.
\<close>

record fun_decl =
  fd_name :: string
  fd_description :: string
  fd_parameters :: "json option"
  fd_json_schema :: "json option"

datatype gofloat = Finite string | NaN | PosInf | NegInf

record gen_config =
  gc_tools :: "fun_decl list list"
  gc_temperature :: "gofloat option"
  gc_max_tokens :: int32
  gc_top_p :: "gofloat option"

record llm_request =
  req_contents :: "content list"
  req_config :: "gen_config option"

text \<open>\<^verbatim>\<open>genai.NewPartFromText\<close> and \<^verbatim>\<open>genai.NewPartFromFunctionCall\<close>, and what they promise.\<close>

record genai =
  text_part :: "string \<Rightarrow> part"
  call_part :: "string \<Rightarrow> gomap \<Rightarrow> part"

definition genai_ok :: "genai \<Rightarrow> bool" where
  "genai_ok g \<longleftrightarrow>
     (\<forall>s. text_part g s = \<lparr>part_text = s, part_call = None, part_response = None\<rparr>) \<and>
     (\<forall>n a. call_part g n a =
        \<lparr>part_text = [], part_call = Some \<lparr>fc_id = [], fc_name = n, fc_args = a\<rparr>, part_response = None\<rparr>)"

definition genai_lib :: genai where
  "genai_lib =
    \<lparr>text_part = (\<lambda>s. \<lparr>part_text = s, part_call = None, part_response = None\<rparr>),
     call_part = (\<lambda>n a. \<lparr>part_text = [], part_call = Some \<lparr>fc_id = [], fc_name = n, fc_args = a\<rparr>,
                        part_response = None\<rparr>)\<rparr>"

lemma genai_lib_ok: "genai_ok genai_lib"
  by (simp add: genai_ok_def genai_lib_def)

text \<open>The platform: environment variables, URL parsing, the wording of JSON errors.\<close>

record platform =
  getenv :: "string \<Rightarrow> string"
  url_error :: "string \<Rightarrow> goerr option"
  json_error :: "string \<Rightarrow> goerr"

text \<open>A platform with an empty environment and lenient URLs, for examples.\<close>

definition bare_platform :: platform where
  "bare_platform = \<lparr>getenv = (\<lambda>_. []), url_error = (\<lambda>_. None), json_error = Ext\<rparr>"

section \<open>Models\<close>

text \<open>\<^verbatim>\<open>agentfile.ModelConfig\<close> and \<^verbatim>\<open>runtime.ConnectConfig\<close>.\<close>

record model_config =
  mc_name :: string
  mc_model :: string
  mc_temperature :: "gofloat option"
  mc_max_tokens :: "int option"
  mc_top_p :: "gofloat option"

record connect_config =
  cc_api_base :: string
  cc_auth_env :: string
  cc_host_env :: string

type_synonym llm_item = "llm_response option \<times> goerr option"

text \<open>
  \<^verbatim>\<open>model.LLM\<close>. The state of a call is the world its iterator and its consumer share:
  what was done over HTTP and what was logged; a consumer's own state extends it.
\<close>

datatype log_entry =
    LlmRequest bool nat nat
  | LlmError goerr
  | LlmResponse nat "usage_metadata option" "string list"

record world =
  http_log :: "http_event list"
  llm_log :: "log_entry list"

text \<open>
  What is decided outside the program while a call runs: whether its context is done when it
  asks for a slot, which ready case a \<^verbatim>\<open>select\<close> takes, what the network does.
\<close>

record call =
  call_done :: "goerr option"
  call_pick :: bool
  call_net :: env

record 's llm =
  llm_name :: string
  generate :: "call \<Rightarrow> llm_request \<Rightarrow> bool \<Rightarrow> (llm_item, 's) seq"

text \<open>Local variables of a function that live across a call of \<open>yield\<close>.\<close>

definition push :: "'l \<Rightarrow> 'w world_scheme \<Rightarrow> ('l \<times> 'w) world_scheme" where
  "push l w = \<lparr>http_log = http_log w, llm_log = llm_log w, \<dots> = (l, world.more w)\<rparr>"

definition top :: "('l \<times> 'w) world_scheme \<Rightarrow> 'l" where
  "top s = fst (world.more s)"

definition pop :: "('l \<times> 'w) world_scheme \<Rightarrow> 'w world_scheme" where
  "pop s = \<lparr>http_log = http_log s, llm_log = llm_log s, \<dots> = snd (world.more s)\<rparr>"

lemma push_pop [simp]: "pop (push l w) = w" "top (push l w) = l" "push (top s) (pop s) = s"
  by (simp_all add: push_def pop_def top_def)

definition note_http :: "http_event list \<Rightarrow> 's world_scheme \<Rightarrow> 's world_scheme" where
  "note_http evs w = w\<lparr>http_log := http_log w @ evs\<rparr>"

text \<open>\<^verbatim>\<open>defer\<close>: runs when the function returns and when it panics.\<close>

definition deferred :: "('s \<Rightarrow> 's) \<Rightarrow> outcome \<times> 's \<Rightarrow> outcome \<times> 's" where
  "deferred f r = (case r of (Blocked, s) \<Rightarrow> (Blocked, s) | (out, s) \<Rightarrow> (out, f s))"

definition fail_with :: "goerr \<Rightarrow> (llm_item, 's) seq" where
  "fail_with e = yield_return (None, Some e)"

section \<open>Requests\<close>

definition and_then :: "'e + 'a \<Rightarrow> ('a \<Rightarrow> 'e + 'b) \<Rightarrow> 'e + 'b" where
  "and_then r f = (case r of Inl e \<Rightarrow> Inl e | Inr a \<Rightarrow> f a)"

lemma and_then_simps [simp]: "and_then (Inl e) f = Inl e" "and_then (Inr a) f = f a"
  by (simp_all add: and_then_def)

text \<open>A \<^verbatim>\<open>*float64\<close> with \<^verbatim>\<open>omitempty\<close>; JSON has no text for infinities and NaN.\<close>

fun enc_float :: "gofloat \<Rightarrow> goerr + json" where
  "enc_float (Finite s) = Inr (JNum s)"
| "enc_float NaN = Inl (Ext ''json: unsupported value: NaN'')"
| "enc_float PosInf = Inl (Ext ''json: unsupported value: +Inf'')"
| "enc_float NegInf = Inl (Ext ''json: unsupported value: -Inf'')"

definition omit_float :: "string \<Rightarrow> gofloat option \<Rightarrow> goerr + (string \<times> json) list" where
  "omit_float k x =
    (case x of None \<Rightarrow> Inr [] | Some f \<Rightarrow> and_then (enc_float f) (\<lambda>j. Inr [(k, j)]))"

definition omit_list :: "string \<Rightarrow> json list \<Rightarrow> (string \<times> json) list" where
  "omit_list k js = (if js = [] then [] else [(k, JArr js)])"

text \<open>A slice without \<^verbatim>\<open>omitempty\<close>: the nil slice, the only empty one here, is \<^verbatim>\<open>null\<close>.\<close>

definition enc_slice :: "json list \<Rightarrow> json" where
  "enc_slice js = (if js = [] then JNull else JArr js)"

definition enc_ptr :: "json option \<Rightarrow> json" where
  "enc_ptr p = (case p of None \<Rightarrow> JNull | Some j \<Rightarrow> j)"

text \<open>
  \<^verbatim>\<open>http.NewRequestWithContext\<close> for a POST of a \<^verbatim>\<open>bytes.Reader\<close>: it sets
  \<^verbatim>\<open>GetBody\<close>.
\<close>

definition new_post :: "platform \<Rightarrow> string \<Rightarrow> string \<Rightarrow> goerr + request" where
  "new_post p url body =
    (case url_error p url of Some e \<Rightarrow> Inl e
     | None \<Rightarrow> Inr \<lparr>req_method = ''POST'', req_url = url, req_headers = [],
                   req_body = Some \<lparr>bytes = body, fault = None\<rparr>, get_body = Some (Inr body)\<rparr>)"

definition set_header :: "string \<Rightarrow> string \<Rightarrow> request \<Rightarrow> request" where
  "set_header k v r = r\<lparr>req_headers := AList.update k v (req_headers r)\<rparr>"

section \<open>A stream made from another\<close>

text \<open>
  The body of a loop over a stream that itself yields: for each item it yields some items, then
  goes on with a new loop state, leaves the loop, or panics.
\<close>

datatype 'l verdict = Continue 'l | Halt | Crashed

type_synonym ('l, 'a, 'b) transducer = "'l \<Rightarrow> 'a \<Rightarrow> 'b list \<times> 'l verdict"

definition emit_then :: "'b list \<times> 'l verdict \<Rightarrow> ('b, 's) yield \<Rightarrow> 'l \<Rightarrow> 's \<Rightarrow> signal \<times> 'l \<times> 's" where
  "emit_then r y l s =
    (case r of (out, v) \<Rightarrow>
       (case drive out y s of
          (More, s') \<Rightarrow>
            (case v of Continue l' \<Rightarrow> (More, (l', s')) | Halt \<Rightarrow> (Stop, (l, s')) | Crashed \<Rightarrow> (Panic, (l, s')))
        | (sg, s') \<Rightarrow> (sg, (l, s'))))"

definition via :: "('l, 'a, 'b) transducer \<Rightarrow> ('b, 's) yield \<Rightarrow> ('a, 'l \<times> 's) yield" where
  "via f y x ls = emit_then (f (fst ls) x) y (fst ls) (snd ls)"

text \<open>What comes out of a list of items, and how it ends.\<close>

fun transduce :: "('l, 'a, 'b) transducer \<Rightarrow> 'l \<Rightarrow> 'a list \<Rightarrow> 'b list" where
  "transduce f l [] = []"
| "transduce f l (x # xs) =
    (case f l x of (out, Continue l') \<Rightarrow> out @ transduce f l' xs | (out, _) \<Rightarrow> out)"

fun crashes :: "('l, 'a, 'b) transducer \<Rightarrow> 'l \<Rightarrow> 'a list \<Rightarrow> bool" where
  "crashes f l [] = False"
| "crashes f l (x # xs) =
    (case f l x of (out, Continue l') \<Rightarrow> crashes f l' xs | (out, Halt) \<Rightarrow> False | (out, Crashed) \<Rightarrow> True)"

text \<open>The consumer's view: the items that come out, then a panic if the loop crashes.\<close>

definition feed_crash :: "'b list \<Rightarrow> bool \<Rightarrow> ('b, 's) seq" where
  "feed_crash xs crash y s =
    (case drive xs y s of (More, s') \<Rightarrow> (if crash then Panicked else Returned, s') | r \<Rightarrow> finish r)"

lemma feed_crash_False [simp]: "feed_crash xs False = feed xs"
  by (auto simp: fun_eq_iff feed_crash_def feed_def split: prod.split signal.split)

lemma drive_via:
  "map_prod id snd (finish (drive xs (via f y) (l, s))) =
   feed_crash (transduce f l xs) (crashes f l xs) y s"
proof (induction xs arbitrary: l s)
  case Nil
  then show ?case by (simp add: feed_crash_def)
next
  case (Cons x xs)
  obtain out v where f: "f l x = (out, v)" by fastforce
  obtain sg s' where d: "drive out y s = (sg, s')" by fastforce
  show ?case
    using Cons f d
    by (cases v; cases sg) (simp_all add: via_def emit_then_def feed_crash_def feed_def drive_append)
qed

text \<open>
  A range loop over an iterator that presents its items, with a body that is a transducer, up
  to the loop state it leaves behind when it ends.
\<close>

definition agrees :: "signal \<times> 'l \<times> 's \<Rightarrow> signal \<times> 'l \<times> 's \<Rightarrow> bool" where
  "agrees a b \<longleftrightarrow> fst a = fst b \<and> snd (snd a) = snd (snd b) \<and> (fst a = More \<longrightarrow> a = b)"

lemma agrees_More: "agrees (More, ls) b \<Longrightarrow> b = (More, ls)"
  by (auto simp: agrees_def)

lemma agrees_refl [simp]: "agrees a a"
  by (simp add: agrees_def)

lemma drive_agrees:
  assumes "\<And>x ls. agrees (body x ls) (body' x ls)"
  shows "agrees (drive xs body ls) (drive xs body' ls)"
proof (induction xs arbitrary: ls)
  case Nil
  then show ?case by (simp add: agrees_def)
next
  case (Cons x xs)
  obtain sg t where b: "body x ls = (sg, t)" by (cases "body x ls")
  obtain sg' t' where b': "body' x ls = (sg', t')" by (cases "body' x ls")
  have a: "agrees (sg, t) (sg', t')" using assms [of x ls] b b' by simp
  show ?case
  proof (cases sg)
    case More
    then have "sg' = More" "t' = t" using a agrees_More by blast+
    then show ?thesis using More b b' Cons.IH [of t] by simp
  next
    case Stop
    then have "sg' = Stop" "snd t' = snd t" using a by (simp_all add: agrees_def)
    then show ?thesis using Stop b b' by (simp add: agrees_def)
  next
    case Panic
    then have "sg' = Panic" "snd t' = snd t" using a by (simp_all add: agrees_def)
    then show ?thesis using Panic b b' by (simp add: agrees_def)
  qed
qed

lemma loop_via:
  assumes "presents it xs" "\<And>x ls. agrees (body x ls) (via f y x ls)"
  shows "apsnd snd (it body (l, s)) = feed_crash (transduce f l xs) (crashes f l xs) y s"
proof -
  have "agrees (drive xs body (l, s)) (drive xs (via f y) (l, s))"
    by (rule drive_agrees) (rule assms(2))
  then have "apsnd snd (finish (drive xs body (l, s))) = apsnd snd (finish (drive xs (via f y) (l, s)))"
    by (cases "drive xs body (l, s)"; cases "drive xs (via f y) (l, s)") (auto simp: agrees_def)
  then show ?thesis
    using presents.run [OF assms(1)] drive_via [of xs f y l s] by (simp add: feed_def apsnd_def)
qed

lemma transduce_append:
  "transduce f l (xs @ ys) =
    transduce f l xs @
    (case foldl (\<lambda>v x. case v of Continue l' \<Rightarrow> snd (f l' x) | v \<Rightarrow> v) (Continue l) xs of
       Continue l' \<Rightarrow> transduce f l' ys | _ \<Rightarrow> [])"
proof (induction xs arbitrary: l)
  case Nil
  then show ?case by simp
next
  case (Cons x xs)
  have stay: "foldl (\<lambda>v x. case v of Continue l' \<Rightarrow> snd (f l' x) | v \<Rightarrow> v) v xs = v"
    if "\<forall>l. v \<noteq> Continue l" for v
    using that by (induction xs) (auto split: verdict.split)
  obtain out v where "f l x = (out, v)" by fastforce
  then show ?case using Cons stay by (cases v) simp_all
qed

text \<open>Items that the body passes over make no difference.\<close>

lemma transduce_skip:
  assumes "\<And>x l. skip x \<Longrightarrow> f l x = ([], Continue l)"
  shows "transduce f l (filter (\<lambda>x. \<not> skip x) xs) = transduce f l xs"
    and "crashes f l (filter (\<lambda>x. \<not> skip x) xs) = crashes f l xs"
  using assms by (induction xs arbitrary: l) (auto split: prod.split verdict.split)

text \<open>What holds of the items of every step holds of all items.\<close>

lemma transduce_all:
  assumes "\<And>l x. \<forall>b \<in> set (fst (f l x)). P b"
  shows "\<forall>b \<in> set (transduce f l xs). P b"
proof (induction xs arbitrary: l)
  case Nil
  then show ?case by simp
next
  case (Cons x xs)
  obtain out v where "f l x = (out, v)" by fastforce
  then show ?case using assms [of l x] Cons by (cases v) auto
qed

section \<open>Calls of a model\<close>

text \<open>
  The contract of a model's iterator: HTTP traffic, then a fixed list of items (and perhaps a
  panic), then the deferred HTTP traffic, which happens whatever the consumer does. This is
  what the middleware relies on.
\<close>

locale llm_call =
  fixes it :: "(llm_item, 'w world_scheme) seq"
    and xs :: "llm_item list" and crash :: bool and before after :: "http_event list"
  assumes run: "it y w = deferred (note_http after) (feed_crash xs crash y (note_http before w))"
begin

lemma returns: "fst (it y w) \<noteq> Blocked"
  by (auto simp: run deferred_def feed_crash_def split: prod.split signal.split outcome.split)

text \<open>The deferred traffic is the last thing that happens, on every way out.\<close>

lemma traffic:
  assumes "\<And>x s. http_log (snd (y x s)) = http_log s"
  shows "http_log (snd (it y w)) = http_log w @ before @ after"
proof -
  have "http_log (snd (drive xs y (note_http before w))) = http_log w @ before"
    by (rule drive_invariant) (simp_all add: note_http_def assms)
  then show ?thesis
    by (cases "drive xs y (note_http before w)"; cases "fst (drive xs y (note_http before w))")
       (auto simp: run deferred_def feed_crash_def note_http_def split: outcome.split)
qed

end

text \<open>What a call does, as data; the providers' calls are shown to be the run of a plan.\<close>

record plan =
  pl_before :: "http_event list"
  pl_items :: "llm_item list"
  pl_crash :: bool
  pl_after :: "http_event list"

definition run_plan :: "plan \<Rightarrow> (llm_item, 'w world_scheme) seq" where
  "run_plan pl y w =
    deferred (note_http (pl_after pl)) (feed_crash (pl_items pl) (pl_crash pl) y (note_http (pl_before pl) w))"

definition fail_plan :: "http_event list \<Rightarrow> goerr \<Rightarrow> http_event list \<Rightarrow> plan" where
  "fail_plan before e after =
    \<lparr>pl_before = before, pl_items = [(None, Some e)], pl_crash = False, pl_after = after\<rparr>"

lemma note_http_Nil [simp]: "note_http [] = id"
  by (simp add: fun_eq_iff note_http_def)

lemma deferred_id [simp]: "deferred id r = r"
  by (simp add: deferred_def split: prod.split outcome.split)

lemma run_fail_plan:
  "run_plan (fail_plan before e after) y w = deferred (note_http after) (fail_with e y (note_http before w))"
  by (simp add: run_plan_def fail_plan_def fail_with_def seq_simps del: feed_Cons)

lemma run_crash: "run_plan \<lparr>pl_before = evs, pl_items = [], pl_crash = True, pl_after = []\<rparr> y w = (Panicked, note_http evs w)"
  by (simp add: run_plan_def feed_crash_def)

lemma run_answer: "run_plan \<lparr>pl_before = evs, pl_items = [x], pl_crash = False, pl_after = as\<rparr> y w =
    deferred (note_http as) (yield_return x y (note_http evs w))"
  by (simp add: run_plan_def seq_simps del: feed_Cons)

lemma plan_call:
  "(\<And>y w. it y w = run_plan pl y w) \<Longrightarrow> llm_call it (pl_items pl) (pl_crash pl) (pl_before pl) (pl_after pl)"
  by unfold_locales (simp add: run_plan_def)

text \<open>\<^verbatim>\<open>yield(x); return\<close> in the body of a range loop.\<close>

definition yield_stop :: "'b \<Rightarrow> ('b, 's) yield \<Rightarrow> 'l \<Rightarrow> 's \<Rightarrow> signal \<times> 'l \<times> 's" where
  "yield_stop x y l s = (case y x s of (Panic, s') \<Rightarrow> (Panic, (l, s')) | (_, s') \<Rightarrow> (Stop, (l, s')))"

section \<open>Deferred calls\<close>

lemma deferred_feed_crash:
  "deferred h (feed_crash xs c y s) =
    (case drive xs y s of
       (More, s') \<Rightarrow> (if c then Panicked else Returned, h s')
     | (sg, s') \<Rightarrow> (if sg = Panic then Panicked else Returned, h s'))"
  by (auto simp: deferred_def feed_crash_def split: prod.split signal.split outcome.split)

lemma deferred_runs:
  "fst r \<noteq> Blocked \<Longrightarrow> deferred h r = (fst r, h (snd r))"
  by (cases r; cases "fst r") (simp_all add: deferred_def)

end
