(* ===== verification/Middleware.thy ===== *)
theory Middleware
  imports Llm Ratelimit
begin

text \<open>
  \<^verbatim>\<open>internal/runtime/middleware/middleware.go\<close>: the logging decorator and the rate
  limiting decorator of a model, and what they keep of the model they wrap. Durations are left
  out of the log.
\<close>

section \<open>Logging\<close>

definition log_to :: "log_entry \<Rightarrow> 'w world_scheme \<Rightarrow> 'w world_scheme" where
  "log_to e w = w\<lparr>llm_log := llm_log w @ [e]\<rparr>"

definition tool_count :: "llm_request \<Rightarrow> nat" where
  "tool_count req = (case req_config req of None \<Rightarrow> 0 | Some c \<Rightarrow> sum_list (map length (gc_tools c)))"

text \<open>
  The local variables of the iterator; \<open>stopped\<close> is set by the \<^verbatim>\<open>return\<close> inside the
  loop, which leaves the function as well.
\<close>

record log_state =
  last_resp :: "llm_response option"
  chunks :: nat
  had_error :: bool
  stopped :: bool

definition log_start :: log_state where
  "log_start = \<lparr>last_resp = None, chunks = 0, had_error = False, stopped = False\<rparr>"

definition log_body :: "(llm_item, 'w world_scheme) yield \<Rightarrow> (llm_item, (log_state \<times> 'w) world_scheme) yield" where
  "log_body y x s =
    (case x of (resp, err) \<Rightarrow>
     let st = (top s)\<lparr>chunks := chunks (top s) + 1\<rparr>;
         (st, w) = (case err of Some e \<Rightarrow> (st\<lparr>had_error := True\<rparr>, log_to (LlmError e) (pop s))
                              | None \<Rightarrow> (st, pop s));
         st = (if resp \<noteq> None then st\<lparr>last_resp := resp\<rparr> else st)
     in case y (resp, err) w of
          (More, w') \<Rightarrow> (More, push st w')
        | (Stop, w') \<Rightarrow> (Stop, push (st\<lparr>stopped := True\<rparr>) w')
        | (Panic, w') \<Rightarrow> (Panic, push st w'))"

definition summary :: "log_state \<Rightarrow> log_entry" where
  "summary st =
    LlmResponse (chunks st)
      (case last_resp st of None \<Rightarrow> None | Some r \<Rightarrow> lr_usage r)
      (case last_resp st of None \<Rightarrow> [] | Some r \<Rightarrow>
        (case lr_content r of None \<Rightarrow> [] | Some c \<Rightarrow>
           map fc_name (List.map_filter part_call (content_parts c))))"

definition logged_call :: "(llm_item, (log_state \<times> 'w) world_scheme) seq \<Rightarrow> llm_request \<Rightarrow> bool
    \<Rightarrow> (llm_item, 'w world_scheme) seq" where
  "logged_call inner req streaming y w =
    (let w0 = log_to (LlmRequest streaming (length (req_contents req)) (tool_count req)) w in
     case inner (log_body y) (push log_start w0) of
       (Returned, s) \<Rightarrow>
         if stopped (top s) \<or> had_error (top s) then (Returned, pop s)
         else (Returned, log_to (summary (top s)) (pop s))
     | (out, s) \<Rightarrow> (out, pop s))"

definition with_logging :: "(log_state \<times> 'w) world_scheme llm \<Rightarrow> 'w world_scheme llm" where
  "with_logging m =
    \<lparr>llm_name = llm_name m,
     generate = (\<lambda>c req streaming. logged_call (generate m c req streaming) req streaming)\<rparr>"

section \<open>Rate limiting\<close>

text \<open>The world of a model with a limiter.\<close>

record limited = world +
  lim_of :: limiter

definition give_back :: "outcome \<times> 's limited_scheme \<Rightarrow> outcome \<times> 's limited_scheme" where
  "give_back r =
    (case r of
       (Blocked, w) \<Rightarrow> (Blocked, w)
     | (out, w) \<Rightarrow> (case release (lim_of w) of Some l \<Rightarrow> (out, w\<lparr>lim_of := l\<rparr>) | None \<Rightarrow> (Blocked, w)))"

definition pass_on :: "('a, 's) yield \<Rightarrow> ('a, 's) yield" where
  "pass_on y x s = (case y x s of (More, s') \<Rightarrow> (More, s') | (sg, s') \<Rightarrow> (sg, s'))"

definition limited_call :: "string \<Rightarrow> call \<Rightarrow> (llm_item, 's limited_scheme) seq \<Rightarrow> (llm_item, 's limited_scheme) seq" where
  "limited_call name c inner y w =
    (case acquire (call_pick c) (call_done c) (lim_of w) of
       Waiting \<Rightarrow> (Blocked, w)
     | Cancelled e l \<Rightarrow>
         fail_with (Errorf ''rate limit exceeded for model %s: %w'' [AStr name, AErr e]) y (w\<lparr>lim_of := l\<rparr>)
     | Acquired l \<Rightarrow> give_back (inner (pass_on y) (w\<lparr>lim_of := l\<rparr>)))"

definition with_rate_limit :: "'s limited_scheme llm \<Rightarrow> 's limited_scheme llm" where
  "with_rate_limit m =
    \<lparr>llm_name = llm_name m,
     generate = (\<lambda>c req streaming. limited_call (llm_name m) c (generate m c req streaming))\<rparr>"

section \<open>What logging keeps\<close>

definition note_error :: "llm_item \<Rightarrow> 'w world_scheme \<Rightarrow> 'w world_scheme" where
  "note_error x w = (case snd x of None \<Rightarrow> w | Some e \<Rightarrow> log_to (LlmError e) w)"

definition noting :: "(llm_item, 'w world_scheme) yield \<Rightarrow> (llm_item, 'w world_scheme) yield" where
  "noting y x w = y x (note_error x w)"

definition observe :: "log_state \<Rightarrow> llm_item \<Rightarrow> log_state" where
  "observe st x = st\<lparr>chunks := chunks st + 1, had_error := (had_error st \<or> snd x \<noteq> None),
     last_resp := (case fst x of None \<Rightarrow> last_resp st | r \<Rightarrow> r)\<rparr>"

lemma log_body_push:
  "log_body y x (push st w) =
    (case noting y x w of
       (More, w') \<Rightarrow> (More, push (observe st x) w')
     | (Stop, w') \<Rightarrow> (Stop, push ((observe st x)\<lparr>stopped := True\<rparr>) w')
     | (Panic, w') \<Rightarrow> (Panic, push (observe st x) w'))"
  by (cases x; cases st; cases "snd x"; cases "fst x")
     (simp_all add: log_body_def noting_def note_error_def observe_def Let_def split: prod.split signal.split)

lemma drive_log_body:
  "\<exists>st'. drive xs (log_body y) (push st w) =
    (case drive xs (noting y) w of
       (More, w') \<Rightarrow> (More, push (foldl observe st xs) w')
     | (Stop, w') \<Rightarrow> (Stop, push (st'\<lparr>stopped := True\<rparr>) w')
     | (Panic, w') \<Rightarrow> (Panic, push st' w'))"
proof (induction xs arbitrary: st w)
  case Nil
  then show ?case by simp
next
  case (Cons x xs)
  obtain sg w' where n: "noting y x w = (sg, w')" by fastforce
  obtain st' where "drive xs (log_body y) (push (observe st x) w') =
    (case drive xs (noting y) w' of
       (More, w') \<Rightarrow> (More, push (foldl observe (observe st x) xs) w')
     | (Stop, w') \<Rightarrow> (Stop, push (st'\<lparr>stopped := True\<rparr>) w')
     | (Panic, w') \<Rightarrow> (Panic, push st' w'))"
    using Cons [of "observe st x" w'] by (elim exE) (rule that)
  then show ?case
    using n by (intro exI [of _ "if sg = More then st' else observe st x"], cases sg;
        cases "drive xs (noting y) w'"; cases "fst (drive xs (noting y) w')")
      (simp_all add: log_body_push)
qed

lemma foldl_observe:
  "had_error (foldl observe st xs) \<longleftrightarrow> had_error st \<or> (\<exists>x \<in> set xs. snd x \<noteq> None)"
  "stopped (foldl observe st xs) = stopped st"
  "chunks (foldl observe st xs) = chunks st + length xs"
  by (induction xs arbitrary: st) (auto simp: observe_def)

lemma note_http_push [simp]: "note_http evs (push l w) = push l (note_http evs w)"
  by (simp add: note_http_def push_def)

text \<open>The logged call, written over the items its model presents.\<close>

definition ending :: "llm_item list \<Rightarrow> 'w world_scheme \<Rightarrow> 'w world_scheme" where
  "ending xs w =
    (if \<exists>x \<in> set xs. snd x \<noteq> None then w else log_to (summary (foldl observe log_start xs)) w)"

lemma logged_run:
  assumes "llm_call inner xs crash before after"
  shows "logged_call inner req streaming y w =
    (let w0 = log_to (LlmRequest streaming (length (req_contents req)) (tool_count req)) w in
     case drive xs (noting y) (note_http before w0) of
       (More, s) \<Rightarrow> if crash then (Panicked, note_http after s) else (Returned, ending xs (note_http after s))
     | (Stop, s) \<Rightarrow> (Returned, note_http after s)
     | (Panic, s) \<Rightarrow> (Panicked, note_http after s))"
proof -
  let ?w0 = "log_to (LlmRequest streaming (length (req_contents req)) (tool_count req)) w"
  obtain st' where d: "drive xs (log_body y) (push log_start (note_http before ?w0)) =
    (case drive xs (noting y) (note_http before ?w0) of
       (More, w') \<Rightarrow> (More, push (foldl observe log_start xs) w')
     | (Stop, w') \<Rightarrow> (Stop, push (st'\<lparr>stopped := True\<rparr>) w')
     | (Panic, w') \<Rightarrow> (Panic, push st' w'))"
    using drive_log_body by blast
  obtain sg s where n: "drive xs (noting y) (note_http before ?w0) = (sg, s)" by fastforce
  have start: "\<not> stopped log_start" "\<not> had_error log_start" by (simp_all add: log_start_def)
  have errs: "had_error (foldl observe log_start xs) \<longleftrightarrow> (\<exists>x \<in> set xs. snd x \<noteq> None)"
    "\<not> stopped (foldl observe log_start xs)"
    using foldl_observe [of log_start xs] start by simp_all
  show ?thesis
    using d n errs
    by (cases sg) (simp_all add: logged_call_def Let_def llm_call.run [OF assms] deferred_feed_crash ending_def)
qed

text \<open>
  Logging is transparent: to a consumer that neither reads nor writes the model's log, a
  logged call looks like the call itself, whatever the model's items and however the consumer
  ends the loop.
\<close>

definition log_blind :: "(llm_item, 'w world_scheme) yield \<Rightarrow> bool" where
  "log_blind y \<longleftrightarrow> (\<forall>x w l. y x (w\<lparr>llm_log := l\<rparr>) = apsnd (\<lambda>w'. w'\<lparr>llm_log := l\<rparr>) (y x w))"

definition erase :: "'w world_scheme \<Rightarrow> 'w world_scheme" where
  "erase w = w\<lparr>llm_log := []\<rparr>"

lemma erase_simps [simp]:
  "erase (log_to e w) = erase w" "erase (note_error x w) = erase w" "erase (ending xs w) = erase w"
  "erase (note_http evs w) = note_http evs (erase w)" "erase (erase w) = erase w"
  by (simp_all add: erase_def log_to_def note_error_def ending_def note_http_def split: option.split)

lemma blind_erase: "log_blind y \<Longrightarrow> y x (erase w) = apsnd erase (y x w)"
  unfolding log_blind_def erase_def [abs_def] by blast

lemma drive_blind: "log_blind y \<Longrightarrow> drive xs y (erase w) = apsnd erase (drive xs y w)"
proof (induction xs arbitrary: w)
  case Nil
  then show ?case by simp
next
  case (Cons x xs)
  obtain sg w' where "y x w = (sg, w')" by fastforce
  then show ?case using Cons by (cases sg) (simp_all add: blind_erase)
qed

lemma drive_noting: "log_blind y \<Longrightarrow> apsnd erase (drive xs (noting y) w) = apsnd erase (drive xs y w)"
proof (induction xs arbitrary: w)
  case Nil
  then show ?case by simp
next
  case (Cons x xs)
  obtain sg w' where n: "y x (note_error x w) = (sg, w')" by fastforce
  obtain sg2 w2 where p: "y x w = (sg2, w2)" by fastforce
  have "apsnd erase (y x (note_error x w)) = apsnd erase (y x w)"
    using blind_erase [OF Cons.prems, of x] by (metis erase_simps(2))
  then have same: "sg = sg2" "erase w' = erase w2" using n p by simp_all
  have "apsnd erase (drive xs y w') = apsnd erase (drive xs y w2)"
    using drive_blind [OF Cons.prems, of xs] same(2) by metis
  then show ?case using Cons n p same by (cases sg2) (simp_all add: noting_def)
qed

lemma logging_transparent:
  assumes "llm_call inner xs crash before after" "llm_call plain xs crash before after" "log_blind y"
  shows "apsnd erase (logged_call inner req streaming y w) = apsnd erase (plain y w)"
proof -
  let ?w0 = "note_http before (log_to (LlmRequest streaming (length (req_contents req)) (tool_count req)) w)"
  have "apsnd erase (drive xs y ?w0) = apsnd erase (drive xs y (note_http before w))"
    using drive_blind [OF assms(3), of xs] by (metis erase_simps(1,4))
  then have "apsnd erase (drive xs (noting y) ?w0) = apsnd erase (drive xs y (note_http before w))"
    using drive_noting [OF assms(3)] by metis
  then show ?thesis
    by (cases "drive xs (noting y) ?w0"; cases "fst (drive xs (noting y) ?w0)";
        cases "drive xs y (note_http before w)")
       (simp_all add: logged_run [OF assms(1)] llm_call.run [OF assms(2)] deferred_feed_crash Let_def)
qed

section \<open>What rate limiting keeps\<close>

lemma pass_on_id [simp]: "pass_on y = y"
  by (auto simp: fun_eq_iff pass_on_def split: prod.split signal.split)

text \<open>
  The contract of the call inside: it returns or panics, and leaves the limiter alone, so
  that what its consumer keeps of the limiter it keeps too.
\<close>

locale slot_user =
  fixes it :: "(llm_item, 's limited_scheme) seq"
  assumes ends: "fst (it y w) \<noteq> Blocked"
    and keeps: "(\<And>x s. P (lim_of s) \<Longrightarrow> P (lim_of (snd (y x s)))) \<Longrightarrow> P (lim_of w) \<Longrightarrow> P (lim_of (snd (it y w)))"
begin

text \<open>
  A slot taken is given back on every way out: when the items end, when the consumer stops,
  when the consumer or the model panics.
\<close>

lemma slot_returned:
  assumes acq: "acquire (call_pick c) (call_done c) (lim_of w) = Acquired l"
    and bal: "\<And>x s. 0 < sem (lim_of s) \<Longrightarrow> sem (lim_of (snd (y x s))) = sem (lim_of s)"
  shows "\<exists>out w'. limited_call name c it y w = (out, w') \<and> out \<noteq> Blocked \<and>
    sem (lim_of w') = sem (lim_of w) \<and> out = fst (it y (w\<lparr>lim_of := l\<rparr>))"
proof -
  have l: "sem l = Suc (sem (lim_of w))"
    using acq by (auto simp: acquire_def split: option.splits if_splits)
  obtain out w' where r: "it y (w\<lparr>lim_of := l\<rparr>) = (out, w')" by fastforce
  have "sem (lim_of (snd (it y (w\<lparr>lim_of := l\<rparr>)))) = Suc (sem (lim_of w))"
    by (rule keeps [of "\<lambda>m. sem m = Suc (sem (lim_of w))"]) (simp_all add: bal l)
  then have s: "sem (lim_of w') = Suc (sem (lim_of w))" by (simp add: r)
  then obtain m where "release (lim_of w') = Some m" "sem m = sem (lim_of w)" by (simp add: release_def)
  moreover have "out \<noteq> Blocked" using ends [of y "w\<lparr>lim_of := l\<rparr>"] r by simp
  ultimately show ?thesis using acq r
    by (cases out) (simp_all add: limited_call_def give_back_def)
qed

end

text \<open>A logged call of a model that keeps its contract is such a call.\<close>

lemma slots_noted [simp]:
  "lim_of (log_to e w) = lim_of w" "lim_of (note_http evs w) = lim_of w" "lim_of (note_error x w) = lim_of w"
  "lim_of (ending xs w) = lim_of w"
  by (simp_all add: log_to_def note_http_def note_error_def ending_def split: option.split)

lemma logged_slot_user:
  assumes "llm_call inner xs crash before after"
  shows "slot_user (logged_call inner req streaming)"
proof
  fix y :: "(llm_item, 'a limited_scheme) yield" and w :: "'a limited_scheme"
  let ?w0 = "note_http before (log_to (LlmRequest streaming (length (req_contents req)) (tool_count req)) w)"
  obtain sg s where d: "drive xs (noting y) ?w0 = (sg, s)" by fastforce
  show "fst (logged_call inner req streaming y w) \<noteq> Blocked"
    using d by (cases sg) (simp_all add: logged_run [OF assms] Let_def)
  fix P
  assume y: "\<And>x s. P (lim_of s) \<Longrightarrow> P (lim_of (snd (y x s)))" and w: "P (lim_of w)"
  have "P (lim_of (snd (drive xs (noting y) ?w0)))"
    by (rule drive_invariant) (simp_all add: noting_def y w)
  then show "P (lim_of (snd (logged_call inner req streaming y w)))"
    using d by (cases sg) (simp_all add: logged_run [OF assms] Let_def)
qed

lemma feed_slot_user: "slot_user (feed xs)"
proof
  fix y :: "(llm_item, 'a limited_scheme) yield" and w :: "'a limited_scheme"
  show "fst (feed xs y w) \<noteq> Blocked" by (simp add: feed_def)
  fix P
  assume y: "\<And>x s. P (lim_of s) \<Longrightarrow> P (lim_of (snd (y x s)))" and w: "P (lim_of w)"
  have "P (lim_of (snd (drive xs y w)))" by (rule drive_invariant) (simp_all add: y w)
  then show "P (lim_of (snd (feed xs y w)))" by (cases "drive xs y w") (simp add: feed_def)
qed

text \<open>
  C8. The rate limiter brackets a call. It waits exactly when there is no free slot and
  the context is live, and then neither the model runs nor anything changes. With the context
  done it may give up: then the consumer receives one error, which wraps the context's, the
  model does not run and no slot is held. Otherwise the outcome is the model's own, and the
  slot is back on every way out: end of the items, early stop, panic.
\<close>

theorem rate_limit_bracket:
  assumes "slot_user it" and bal: "\<And>x s. 0 < sem (lim_of s) \<Longrightarrow> sem (lim_of (snd (y x s))) = sem (lim_of s)"
  shows "case acquire (call_pick c) (call_done c) (lim_of w) of
      Waiting \<Rightarrow> limited_call name c it y w = (Blocked, w) \<and> \<not> has_room (lim_of w) \<and> call_done c = None
    | Cancelled e l \<Rightarrow>
        (\<exists>err ctx. limited_call name c it y w = finish (y (None, Some err) (w\<lparr>lim_of := l\<rparr>)) \<and>
           call_done c = Some ctx \<and> errors_is err ctx \<and> sem l = sem (lim_of w))
    | Acquired l \<Rightarrow>
        fst (limited_call name c it y w) = fst (it y (w\<lparr>lim_of := l\<rparr>)) \<and>
        fst (limited_call name c it y w) \<noteq> Blocked \<and>
        sem l = Suc (sem (lim_of w)) \<and>
        sem (lim_of (snd (limited_call name c it y w))) = sem (lim_of w)"
proof (cases "acquire (call_pick c) (call_done c) (lim_of w)")
  case (Acquired l)
  then obtain out w' where r: "limited_call name c it y w = (out, w')" "out \<noteq> Blocked"
    "sem (lim_of w') = sem (lim_of w)" "out = fst (it y (w\<lparr>lim_of := l\<rparr>))"
    using slot_user.slot_returned [OF assms(1) Acquired, where y = y and name = name] bal by blast
  have "sem l = Suc (sem (lim_of w))"
    using Acquired by (auto simp: acquire_def split: option.splits if_splits)
  with r Acquired show ?thesis by simp
next
  case (Cancelled e l)
  then obtain ctx where ctx: "call_done c = Some ctx" "e = Errorf ''rate limit: %w'' [AErr ctx]" "sem l = sem (lim_of w)"
    by (auto simp: acquire_def split: option.splits if_splits)
  have "errors_is ctx ctx" by (cases ctx) auto
  with Cancelled ctx show ?thesis
    by (auto simp: limited_call_def fail_with_def yield_return_def)
next
  case Waiting
  then show ?thesis by (auto simp: limited_call_def acquire_def split: option.splits if_splits)
qed

definition live_call :: call where
  "live_call = \<lparr>call_done = None, call_pick = True, call_net = down (\<lambda>_. None)\<rparr>"

definition idle :: limited where
  "idle = \<lparr>http_log = [], llm_log = [], lim_of = new_limiter 1\<rparr>"

theorem rate_limit_bracket_witness:
  "\<exists>w'. limited_call ''m'' live_call (feed [(None, Some (Ext ''boom''))]) (\<lambda>x s. (Panic, s)) idle = (Panicked, w') \<and>
    sem (lim_of w') = 0"
proof -
  let ?it = "feed [(None, Some (Ext ''boom''))] :: (llm_item, limited) seq"
  have "\<exists>l. acquire True None (new_limiter 1) = Acquired l" by (simp add: acquire_def has_room_def)
  then obtain l where l: "acquire (call_pick live_call) (call_done live_call) (lim_of idle) = Acquired l"
    by (auto simp: live_call_def idle_def)
  have "fst (?it (\<lambda>x s. (Panic, s)) s) = Panicked" for s by (simp add: feed_def)
  then show ?thesis
    using rate_limit_bracket [OF feed_slot_user [of "[(None, Some (Ext ''boom''))]"], where y = "\<lambda>x s. (Panic, s)" and c = live_call and w = idle
        and name = "''m''"] l
    by (cases "limited_call ''m'' live_call ?it (\<lambda>x s. (Panic, s)) idle") (simp add: idle_def)
qed

end
