(* ===== verification/OpenAI.thy ===== *)
theory OpenAI
  imports Middleware Sse RuntimeCfg
begin

text \<open>
  \<^verbatim>\<open>internal/runtime/providers/openai/openai.go\<close>: the OpenAI provider. Its types and their
  JSON, the conversion of requests and responses, the synchronous and the streaming call, and
  what comes out of a stream.
\<close>

section \<open>The model\<close>

definition oai_default_base :: string where "oai_default_base = ''https://api.openai.com/v1''"
definition oai_default_key_env :: string where "oai_default_key_env = ''OPENAI_API_KEY''"

record oai_model =
  oai_id :: string
  oai_key :: string
  oai_base :: string
  oai_config :: model_config
  oai_client :: options

definition oai_base_url :: "platform \<Rightarrow> connect_config \<Rightarrow> string" where
  "oai_base_url p cc =
    (let host = (if cc_host_env cc \<noteq> [] then getenv p (cc_host_env cc) else []);
         base = (if host \<noteq> [] then trim_right host slash @ ''/v1'' else []);
         base = (if base = [] then cc_api_base cc else base)
     in if base = [] then oai_default_base else base)"

text \<open>The format of the error for a missing key, with its dash in UTF-8.\<close>

definition key_missing :: string where
  "key_missing = ''%s is not set '' @ [CHR 0xE2, CHR 0x80, CHR 0x94] @
     '' required for model %q (set it in your environment or use --env-file)''"

definition oai_create :: "platform \<Rightarrow> string \<Rightarrow> connect_config \<Rightarrow> model_config \<Rightarrow> goerr + oai_model" where
  "oai_create p model_id cc mc =
    (let key_env = (if cc_auth_env cc = [] then oai_default_key_env else cc_auth_env cc);
         key = getenv p key_env;
         base = oai_base_url p cc
     in if key = [] \<and> base = oai_default_base then
          Inl (Errorf key_missing
                [AStr key_env, AStr model_id])
        else Inr \<lparr>oai_id = model_id, oai_key = key, oai_base = base, oai_config = mc,
                  oai_client = with_defaults \<lparr>opt_timeout = 120 * 10 ^ 9, opt_max_body = 0,
                    opt_max_retries = 0, opt_logger = Some ''openai''\<rparr>\<rparr>)"

section \<open>Requests\<close>

record oai_tool_call =
  tc_id :: string
  tc_type :: string
  tc_name :: string
  tc_arguments :: string

record oai_message =
  msg_role :: string
  msg_content :: string
  msg_tool_calls :: "oai_tool_call list"
  msg_tool_call_id :: string

record oai_tool =
  ot_type :: string
  ot_name :: string
  ot_description :: string
  ot_parameters :: "json option"

record chat_request =
  cr_model :: string
  cr_messages :: "oai_message list"
  cr_temperature :: "gofloat option"
  cr_max_tokens :: "int option"
  cr_top_p :: "gofloat option"
  cr_tools :: "oai_tool list"
  cr_stream :: bool
  cr_stream_options :: "bool option"

definition oai_map_role :: "string \<Rightarrow> string" where
  "oai_map_role role =
    (if role = ''user'' then ''user'' else if role = ''model'' then ''assistant'' else role)"

definition oai_extract_text :: "content \<Rightarrow> string" where
  "oai_extract_text c = concat (map part_text (content_parts c))"

text \<open>The call's ID, or its name for want of one.\<close>

definition call_ref :: "string \<Rightarrow> string \<Rightarrow> string" where
  "call_ref ident name = (if ident = [] then name else ident)"

definition oai_call_of :: "function_call \<Rightarrow> oai_tool_call" where
  "oai_call_of fc =
    \<lparr>tc_id = call_ref (fc_id fc) (fc_name fc), tc_type = ''function'', tc_name = fc_name fc,
     tc_arguments = marshal (enc_map (fc_args fc))\<rparr>"

definition oai_convert_content :: "content \<Rightarrow> oai_message" where
  "oai_convert_content c =
    (let role = oai_map_role (content_role c);
         msg = \<lparr>msg_role = role, msg_content = oai_extract_text c, msg_tool_calls = [], msg_tool_call_id = []\<rparr>;
         msg = (if role = ''tool'' then
                  (case content_parts c of
                     [] \<Rightarrow> msg
                   | part # _ \<Rightarrow>
                       (case part_response part of
                          None \<Rightarrow> msg
                        | Some fr \<Rightarrow> msg\<lparr>msg_tool_call_id := call_ref (fr_id fr) (fr_name fr),
                                        msg_content := marshal (enc_map (fr_response fr))\<rparr>))
                else msg);
         msg = (if role = ''assistant'' then
                  (let calls = map oai_call_of (List.map_filter part_call (content_parts c));
                       msg = msg\<lparr>msg_tool_calls := calls\<rparr>
                   in if calls \<noteq> [] then msg\<lparr>msg_content := []\<rparr> else msg)
                else msg)
     in msg)"

definition oai_convert_contents :: "content list \<Rightarrow> oai_message list" where
  "oai_convert_contents = map oai_convert_content"

definition oai_convert_tools :: "fun_decl list list \<Rightarrow> oai_tool list" where
  "oai_convert_tools tools =
    map (\<lambda>fd. \<lparr>ot_type = ''function'', ot_name = fd_name fd, ot_description = fd_description fd,
               ot_parameters = fd_parameters fd\<rparr>) (concat tools)"

definition oai_build_request :: "oai_model \<Rightarrow> llm_request \<Rightarrow> bool \<Rightarrow> chat_request" where
  "oai_build_request m req stream =
    \<lparr>cr_model = oai_id m,
     cr_messages = oai_convert_contents (req_contents req),
     cr_temperature = mc_temperature (oai_config m),
     cr_max_tokens = mc_max_tokens (oai_config m),
     cr_top_p = mc_top_p (oai_config m),
     cr_tools = (case req_config req of None \<Rightarrow> []
                 | Some c \<Rightarrow> if gc_tools c \<noteq> [] then oai_convert_tools (gc_tools c) else []),
     cr_stream = stream,
     cr_stream_options = (if stream then Some True else None)\<rparr>"

definition enc_oai_call :: "oai_tool_call \<Rightarrow> json" where
  "enc_oai_call tc = JObj
    [(''id'', JStr (tc_id tc)), (''type'', JStr (tc_type tc)),
     (''function'', JObj [(''name'', JStr (tc_name tc)), (''arguments'', JStr (tc_arguments tc))])]"

definition enc_oai_message :: "oai_message \<Rightarrow> json" where
  "enc_oai_message msg = JObj
    ([(''role'', JStr (msg_role msg))] @
     omit_string ''content'' (msg_content msg) @
     omit_list ''tool_calls'' (map enc_oai_call (msg_tool_calls msg)) @
     omit_string ''tool_call_id'' (msg_tool_call_id msg))"

text \<open>
  The parameters are a \<^verbatim>\<open>*genai.Schema\<close> in an \<^verbatim>\<open>any\<close>: never an empty interface,
  so \<^verbatim>\<open>omitempty\<close> keeps even a nil pointer.
\<close>

definition enc_oai_tool :: "oai_tool \<Rightarrow> json" where
  "enc_oai_tool t = JObj
    [(''type'', JStr (ot_type t)),
     (''function'', JObj
       ([(''name'', JStr (ot_name t))] @ omit_string ''description'' (ot_description t) @
        [(''parameters'', enc_ptr (ot_parameters t))]))]"

definition enc_chat_request :: "chat_request \<Rightarrow> goerr + json" where
  "enc_chat_request r =
    and_then (omit_float ''temperature'' (cr_temperature r)) (\<lambda>temp.
    and_then (omit_float ''top_p'' (cr_top_p r)) (\<lambda>top_p. Inr (JObj
      ([(''model'', JStr (cr_model r)), (''messages'', enc_slice (map enc_oai_message (cr_messages r)))] @
       temp @
       (case cr_max_tokens r of None \<Rightarrow> [] | Some n \<Rightarrow> [(''max_tokens'', JNum (itoa n))]) @
       top_p @
       omit_list ''tools'' (map enc_oai_tool (cr_tools r)) @
       [(''stream'', JBool (cr_stream r))] @
       (case cr_stream_options r of None \<Rightarrow> []
        | Some u \<Rightarrow> [(''stream_options'', JObj [(''include_usage'', JBool u)])])))))"

definition oai_set_headers :: "oai_model \<Rightarrow> request \<Rightarrow> request" where
  "oai_set_headers m r =
    (let r = set_header ''Content-Type'' ''application/json'' r in
     if oai_key m \<noteq> [] then set_header ''Authorization'' (''Bearer '' @ oai_key m) r else r)"

section \<open>Responses\<close>

record oai_usage =
  us_prompt :: int
  us_completion :: int
  us_total :: int

record oai_choice =
  ch_message :: oai_message
  ch_finish_reason :: string

record chat_response =
  rsp_choices :: "oai_choice list"
  rsp_usage :: "oai_usage option"

record stream_call =
  sc_index :: int
  sc_id :: string
  sc_type :: string
  sc_name :: string
  sc_arguments :: string

record stream_delta =
  sd_role :: string
  sd_content :: string
  sd_tool_calls :: "stream_call list"

record stream_choice =
  so_delta :: stream_delta
  so_finish_reason :: "string option"

record stream_response =
  sr_choices :: "stream_choice list"
  sr_usage :: "oai_usage option"

definition dec_oai_usage :: "json option \<Rightarrow> oai_usage option" where
  "dec_oai_usage = dec_struct (\<lambda>ms. do {
     a \<leftarrow> dec_int (field ''prompt_tokens'' ms);
     b \<leftarrow> dec_int (field ''completion_tokens'' ms);
     c \<leftarrow> dec_int (field ''total_tokens'' ms);
     Some \<lparr>us_prompt = a, us_completion = b, us_total = c\<rparr>
   })"

definition dec_named :: "json option \<Rightarrow> (string \<times> string) option" where
  "dec_named = dec_struct (\<lambda>ms. do {
     n \<leftarrow> dec_string (field ''name'' ms);
     a \<leftarrow> dec_string (field ''arguments'' ms);
     Some (n, a)
   })"

definition dec_oai_call :: "json option \<Rightarrow> oai_tool_call option" where
  "dec_oai_call = dec_struct (\<lambda>ms. do {
     i \<leftarrow> dec_string (field ''id'' ms);
     t \<leftarrow> dec_string (field ''type'' ms);
     (n, a) \<leftarrow> dec_named (field ''function'' ms);
     Some \<lparr>tc_id = i, tc_type = t, tc_name = n, tc_arguments = a\<rparr>
   })"

definition dec_oai_message :: "json option \<Rightarrow> oai_message option" where
  "dec_oai_message = dec_struct (\<lambda>ms. do {
     r \<leftarrow> dec_string (field ''role'' ms);
     c \<leftarrow> dec_string (field ''content'' ms);
     ts \<leftarrow> dec_list dec_oai_call (field ''tool_calls'' ms);
     i \<leftarrow> dec_string (field ''tool_call_id'' ms);
     Some \<lparr>msg_role = r, msg_content = c, msg_tool_calls = ts, msg_tool_call_id = i\<rparr>
   })"

definition dec_oai_choice :: "json option \<Rightarrow> oai_choice option" where
  "dec_oai_choice = dec_struct (\<lambda>ms. do {
     m \<leftarrow> dec_oai_message (field ''message'' ms);
     r \<leftarrow> dec_string (field ''finish_reason'' ms);
     Some \<lparr>ch_message = m, ch_finish_reason = r\<rparr>
   })"

definition dec_chat_response :: "json \<Rightarrow> chat_response option" where
  "dec_chat_response j = dec_struct (\<lambda>ms. do {
     cs \<leftarrow> dec_list dec_oai_choice (field ''choices'' ms);
     u \<leftarrow> dec_ptr dec_oai_usage (field ''usage'' ms);
     Some \<lparr>rsp_choices = cs, rsp_usage = u\<rparr>
   }) (Some j)"

definition dec_stream_call :: "json option \<Rightarrow> stream_call option" where
  "dec_stream_call = dec_struct (\<lambda>ms. do {
     k \<leftarrow> dec_int (field ''index'' ms);
     i \<leftarrow> dec_string (field ''id'' ms);
     t \<leftarrow> dec_string (field ''type'' ms);
     (n, a) \<leftarrow> dec_named (field ''function'' ms);
     Some \<lparr>sc_index = k, sc_id = i, sc_type = t, sc_name = n, sc_arguments = a\<rparr>
   })"

definition dec_stream_delta :: "json option \<Rightarrow> stream_delta option" where
  "dec_stream_delta = dec_struct (\<lambda>ms. do {
     r \<leftarrow> dec_string (field ''role'' ms);
     c \<leftarrow> dec_string (field ''content'' ms);
     ts \<leftarrow> dec_list dec_stream_call (field ''tool_calls'' ms);
     Some \<lparr>sd_role = r, sd_content = c, sd_tool_calls = ts\<rparr>
   })"

definition dec_stream_choice :: "json option \<Rightarrow> stream_choice option" where
  "dec_stream_choice = dec_struct (\<lambda>ms. do {
     d \<leftarrow> dec_stream_delta (field ''delta'' ms);
     r \<leftarrow> dec_ptr dec_string (field ''finish_reason'' ms);
     Some \<lparr>so_delta = d, so_finish_reason = r\<rparr>
   })"

definition dec_stream_response :: "json \<Rightarrow> stream_response option" where
  "dec_stream_response j = dec_struct (\<lambda>ms. do {
     cs \<leftarrow> dec_list dec_stream_choice (field ''choices'' ms);
     u \<leftarrow> dec_ptr dec_oai_usage (field ''usage'' ms);
     Some \<lparr>sr_choices = cs, sr_usage = u\<rparr>
   }) (Some j)"

definition oai_map_finish :: "string \<Rightarrow> finish_reason" where
  "oai_map_finish reason =
    (if reason = ''stop'' then FinishStop else if reason = ''tool_calls'' then FinishStop
     else if reason = ''length'' then FinishMaxTokens
     else if reason = ''content_filter'' then FinishSafety else FinishStop)"

definition oai_usage_meta :: "oai_usage \<Rightarrow> usage_metadata" where
  "oai_usage_meta u =
    \<lparr>prompt_count = int32_of (us_prompt u), candidates_count = int32_of (us_completion u),
     total_count = int32_of (us_total u)\<rparr>"

definition oai_convert_sync :: "genai \<Rightarrow> chat_response \<Rightarrow> llm_response" where
  "oai_convert_sync g resp =
    (case rsp_choices resp of
       [] \<Rightarrow> \<lparr>lr_content = None, lr_usage = None, lr_turn_complete = True, lr_finish = FinishStop\<rparr>
     | ch # _ \<Rightarrow>
         (let msg = ch_message ch;
              parts = (if msg_tool_calls msg \<noteq> []
                       then map (\<lambda>tc. call_part g (tc_name tc) (snd (unmarshal_args (tc_arguments tc)))) (msg_tool_calls msg)
                       else if msg_content msg \<noteq> [] then [text_part g (msg_content msg)] else [])
          in \<lparr>lr_content = Some \<lparr>content_role = ''model'', content_parts = parts\<rparr>,
              lr_usage = map_option oai_usage_meta (rsp_usage resp),
              lr_turn_complete = True,
              lr_finish = oai_map_finish (ch_finish_reason ch)\<rparr>))"

section \<open>The calls\<close>

definition oai_name :: "oai_model \<Rightarrow> string" where
  "oai_name m = ''openai/'' @ oai_id m"

definition oai_sync :: "platform \<Rightarrow> genai \<Rightarrow> oai_model \<Rightarrow> call \<Rightarrow> llm_request \<Rightarrow> (llm_item, 'w world_scheme) seq" where
  "oai_sync p g m c req y w =
    (case enc_chat_request (oai_build_request m req False) of
       Inl e \<Rightarrow> fail_with (Errorf ''marshaling openai request: %w'' [AErr e]) y w
     | Inr j \<Rightarrow>
    (case new_post p (oai_base m @ ''/chat/completions'') (marshal j) of
       Inl e \<Rightarrow> fail_with (Errorf ''creating openai request: %w'' [AErr e]) y w
     | Inr http_req \<Rightarrow>
    (case do_request (oai_client m) (call_net c) (oai_set_headers m http_req) of
       (evs, Failed e) \<Rightarrow> fail_with (Errorf ''openai API call failed: %w'' [AErr e]) y (note_http evs w)
     | (evs, DoPanic) \<Rightarrow> (Panicked, note_http evs w)
     | (evs, Got None) \<Rightarrow> (Panicked, note_http evs w)
     | (evs, Got (Some resp)) \<Rightarrow> deferred (note_http [Closed])
    (case read_body (oai_client m) resp of
       Inl e \<Rightarrow> fail_with (Errorf ''reading openai response: %w'' [AErr e]) y (note_http evs w)
     | Inr body \<Rightarrow>
         if status resp \<noteq> 200 then
           fail_with (Errorf ''openai API error (HTTP %d): %s'' [AInt (status resp), AStr body]) y (note_http evs w)
         else
    (case Option.bind (parse body) dec_chat_response of
       None \<Rightarrow> fail_with (Errorf ''unmarshaling openai response: %w'' [AErr (json_error p body)]) y (note_http evs w)
     | Some chat_resp \<Rightarrow> yield_return (Some (oai_convert_sync g chat_resp), None) y (note_http evs w))))))"

text \<open>Tool calls accumulate across chunks; an index below zero panics.\<close>

record accumulator =
  acc_id :: string
  acc_name :: string
  acc_arguments :: string

definition no_call :: accumulator where
  "no_call = \<lparr>acc_id = [], acc_name = [], acc_arguments = []\<rparr>"

definition merge_call :: "stream_call \<Rightarrow> accumulator \<Rightarrow> accumulator" where
  "merge_call tc a =
    \<lparr>acc_id = (if sc_id tc \<noteq> [] then sc_id tc else acc_id a),
     acc_name = (if sc_name tc \<noteq> [] then sc_name tc else acc_name a),
     acc_arguments = acc_arguments a @ sc_arguments tc\<rparr>"

definition add_call :: "stream_call \<Rightarrow> accumulator list \<Rightarrow> accumulator list option" where
  "add_call tc accs =
    (let accs = accs @ replicate (nat (sc_index tc + 1) - length accs) no_call in
     if sc_index tc < 0 then None
     else Some (accs[nat (sc_index tc) := merge_call tc (accs ! nat (sc_index tc))]))"

fun add_calls :: "stream_call list \<Rightarrow> accumulator list \<Rightarrow> accumulator list option" where
  "add_calls [] accs = Some accs"
| "add_calls (tc # tcs) accs = (case add_call tc accs of None \<Rightarrow> None | Some accs' \<Rightarrow> add_calls tcs accs')"

record oai_stream =
  os_calls :: "accumulator list"
  os_usage :: "oai_usage option"

definition text_response :: "genai \<Rightarrow> string \<Rightarrow> llm_response" where
  "text_response g s =
    \<lparr>lr_content = Some \<lparr>content_role = ''model'', content_parts = [text_part g s]\<rparr>,
     lr_usage = None, lr_turn_complete = False, lr_finish = NoReason\<rparr>"

definition oai_final :: "genai \<Rightarrow> oai_stream \<Rightarrow> string \<Rightarrow> llm_response" where
  "oai_final g st reason =
    \<lparr>lr_content = (if os_calls st \<noteq> [] then
        Some \<lparr>content_role = ''model'',
              content_parts = map (\<lambda>a. call_part g (acc_name a) (snd (unmarshal_args (acc_arguments a)))) (os_calls st)\<rparr>
        else None),
     lr_usage = map_option oai_usage_meta (os_usage st),
     lr_turn_complete = True, lr_finish = oai_map_finish reason\<rparr>"

text \<open>The body of the loop over the stream; its state is the local variables.\<close>

definition oai_on_choice :: "genai \<Rightarrow> (llm_item, 's) yield \<Rightarrow> stream_choice \<Rightarrow> oai_stream \<Rightarrow> 's \<Rightarrow> signal \<times> oai_stream \<times> 's" where
  "oai_on_choice g y choice st w =
    (case (if sd_content (so_delta choice) \<noteq> []
           then y (Some (text_response g (sd_content (so_delta choice))), None) w else (More, w)) of
       (Stop, w) \<Rightarrow> (Stop, (st, w))
     | (Panic, w) \<Rightarrow> (Panic, (st, w))
     | (More, w) \<Rightarrow>
         (case add_calls (sd_tool_calls (so_delta choice)) (os_calls st) of
            None \<Rightarrow> (Panic, (st, w))
          | Some accs \<Rightarrow>
              (let st = st\<lparr>os_calls := accs\<rparr> in
               case so_finish_reason choice of
                 None \<Rightarrow> (More, (st, w))
               | Some reason \<Rightarrow> yield_stop (Some (oai_final g st reason), None) y st w)))"

definition oai_body :: "platform \<Rightarrow> genai \<Rightarrow> (llm_item, 's) yield \<Rightarrow> (sse_item, oai_stream \<times> 's) yield" where
  "oai_body p g y x s =
    (case x of (event, err) \<Rightarrow>
     case s of (st, w) \<Rightarrow>
     case err of
       Some e \<Rightarrow> yield_stop (None, Some (Errorf ''reading openai stream: %w'' [AErr e])) y st w
     | None \<Rightarrow>
         if ev_data event = ''[DONE]'' then (Stop, (st, w))
         else
    (case Option.bind (parse (ev_data event)) dec_stream_response of
       None \<Rightarrow> yield_stop (None, Some (Errorf ''parsing openai stream chunk: %w'' [AErr (json_error p (ev_data event))])) y st w
     | Some chunk \<Rightarrow>
         (let st = (if sr_usage chunk \<noteq> None then st\<lparr>os_usage := sr_usage chunk\<rparr> else st) in
          case sr_choices chunk of
            [] \<Rightarrow> (More, (st, w))
          | choice # _ \<Rightarrow> oai_on_choice g y choice st w)))"

definition oai_stream_start :: oai_stream where
  "oai_stream_start = \<lparr>os_calls = [], os_usage = None\<rparr>"

definition oai_streaming :: "platform \<Rightarrow> genai \<Rightarrow> oai_model \<Rightarrow> call \<Rightarrow> llm_request \<Rightarrow> (llm_item, 'w world_scheme) seq" where
  "oai_streaming p g m c req y w =
    (case enc_chat_request (oai_build_request m req True) of
       Inl e \<Rightarrow> fail_with (Errorf ''marshaling openai request: %w'' [AErr e]) y w
     | Inr j \<Rightarrow>
    (case new_post p (oai_base m @ ''/chat/completions'') (marshal j) of
       Inl e \<Rightarrow> fail_with (Errorf ''creating openai request: %w'' [AErr e]) y w
     | Inr http_req \<Rightarrow>
    (case do_stream (call_net c) (oai_set_headers m http_req) of
       (evs, Inl e) \<Rightarrow> fail_with (Errorf ''openai stream failed: %w'' [AErr e]) y (note_http evs w)
     | (evs, Inr resp) \<Rightarrow> deferred (note_http [Closed])
         (apsnd snd (sse_read max_line (resp_body resp) (oai_body p g y) (oai_stream_start, note_http evs w))))))"

definition oai_generate :: "platform \<Rightarrow> genai \<Rightarrow> oai_model \<Rightarrow> call \<Rightarrow> llm_request \<Rightarrow> bool \<Rightarrow> (llm_item, 'w world_scheme) seq" where
  "oai_generate p g m c req streaming =
    (if streaming then oai_streaming p g m c req else oai_sync p g m c req)"

definition oai_llm :: "platform \<Rightarrow> genai \<Rightarrow> oai_model \<Rightarrow> 'w world_scheme llm" where
  "oai_llm p g m = \<lparr>llm_name = oai_name m, generate = oai_generate p g m\<rparr>"

section \<open>What a call amounts to\<close>

text \<open>The stream's loop as a transducer of SSE items.\<close>

definition oai_choice_step :: "genai \<Rightarrow> stream_choice \<Rightarrow> oai_stream \<Rightarrow> llm_item list \<times> oai_stream verdict" where
  "oai_choice_step g choice st =
    (let text = (if sd_content (so_delta choice) \<noteq> []
       then [(Some (text_response g (sd_content (so_delta choice))), None)] else []) in
     case add_calls (sd_tool_calls (so_delta choice)) (os_calls st) of
       None \<Rightarrow> (text, Crashed)
     | Some accs \<Rightarrow>
         (case so_finish_reason choice of
            None \<Rightarrow> (text, Continue (st\<lparr>os_calls := accs\<rparr>))
          | Some reason \<Rightarrow> (text @ [(Some (oai_final g (st\<lparr>os_calls := accs\<rparr>) reason), None)], Halt)))"

definition oai_step :: "platform \<Rightarrow> genai \<Rightarrow> (oai_stream, sse_item, llm_item) transducer" where
  "oai_step p g st x =
    (case snd x of
       Some e \<Rightarrow> ([(None, Some (Errorf ''reading openai stream: %w'' [AErr e]))], Halt)
     | None \<Rightarrow>
         if ev_data (fst x) = ''[DONE]'' then ([], Halt)
         else
    (case Option.bind (parse (ev_data (fst x))) dec_stream_response of
       None \<Rightarrow> ([(None, Some (Errorf ''parsing openai stream chunk: %w'' [AErr (json_error p (ev_data (fst x)))]))], Halt)
     | Some chunk \<Rightarrow>
         (let st = (if sr_usage chunk \<noteq> None then st\<lparr>os_usage := sr_usage chunk\<rparr> else st) in
          case sr_choices chunk of
            [] \<Rightarrow> ([], Continue st)
          | choice # _ \<Rightarrow> oai_choice_step g choice st)))"

lemma oai_on_choice_after:
  "agrees (oai_on_choice g y ch st w) (emit_then (oai_choice_step g ch st) y st0 w)"
proof -
  let ?t = "(Some (text_response g (sd_content (so_delta ch))), None)"
  obtain sg w' where y: "y ?t w = (sg, w')" by fastforce
  show ?thesis
  proof (cases "add_calls (sd_tool_calls (so_delta ch)) (os_calls st)")
    case None
    then show ?thesis
      by (cases sg) (simp_all add: y oai_on_choice_def oai_choice_step_def emit_then_def agrees_def Let_def)
  next
    case (Some accs)
    let ?st = "st\<lparr>os_calls := accs\<rparr>"
    show ?thesis
    proof (cases "so_finish_reason ch")
      case None
      then show ?thesis using Some
        by (cases sg) (simp_all add: y oai_on_choice_def oai_choice_step_def emit_then_def agrees_def Let_def)
    next
      case fin: (Some r)
      let ?f = "(Some (oai_final g ?st r), None)"
      obtain sg1 w1 where f1: "y ?f w = (sg1, w1)" by fastforce
      obtain sg2 w2 where f2: "y ?f w' = (sg2, w2)" by fastforce
      show ?thesis using Some fin
        by (cases sg; cases sg1; cases sg2)
           (simp_all add: y f1 f2 oai_on_choice_def oai_choice_step_def emit_then_def agrees_def
              yield_stop_def Let_def)
    qed
  qed
qed

lemma oai_body_via: "agrees (oai_body p g y x s) (via (oai_step p g) y x s)"
proof -
  obtain event err st w where x: "x = (event, err)" and s: "s = (st, w)" by (cases x; cases s)
  show ?thesis
  proof (cases err)
    case (Some e)
    let ?i = "(None, Some (Errorf ''reading openai stream: %w'' [AErr e]))"
    show ?thesis
      by (cases "y ?i w"; cases "fst (y ?i w)")
         (simp_all add: x s Some oai_body_def oai_step_def via_def emit_then_def yield_stop_def agrees_def del: drive.simps(2))
  next
    case ok: None
    show ?thesis
    proof (cases "ev_data event = ''[DONE]''")
      case True
      then show ?thesis using ok x s by (simp add: oai_body_def oai_step_def via_def emit_then_def agrees_def)
    next
      case data: False
      show ?thesis
      proof (cases "Option.bind (parse (ev_data event)) dec_stream_response")
        case None
        let ?i = "(None, Some (Errorf ''parsing openai stream chunk: %w'' [AErr (json_error p (ev_data event))]))"
        show ?thesis
          by (cases "y ?i w"; cases "fst (y ?i w)")
             (simp_all add: x s ok data None oai_body_def oai_step_def via_def emit_then_def yield_stop_def agrees_def
               del: drive.simps(2))
      next
        case (Some chunk)
        then show ?thesis
          by (cases "sr_choices chunk"; cases "sr_usage chunk")
             (simp_all add: x s ok data oai_body_def oai_step_def via_def emit_then_def [of "([], _)"] oai_on_choice_after agrees_refl Let_def)
      qed
    qed
  qed
qed

text \<open>The plans of the two calls.\<close>

definition oai_sync_answer :: "platform \<Rightarrow> genai \<Rightarrow> oai_model \<Rightarrow> response \<Rightarrow> llm_item" where
  "oai_sync_answer p g m resp =
    (case read_body (oai_client m) resp of
       Inl e \<Rightarrow> (None, Some (Errorf ''reading openai response: %w'' [AErr e]))
     | Inr body \<Rightarrow>
         if status resp \<noteq> 200 then
           (None, Some (Errorf ''openai API error (HTTP %d): %s'' [AInt (status resp), AStr body]))
         else (case Option.bind (parse body) dec_chat_response of
           None \<Rightarrow> (None, Some (Errorf ''unmarshaling openai response: %w'' [AErr (json_error p body)]))
         | Some r \<Rightarrow> (Some (oai_convert_sync g r), None)))"

definition oai_http_request :: "platform \<Rightarrow> oai_model \<Rightarrow> llm_request \<Rightarrow> bool \<Rightarrow> goerr + request" where
  "oai_http_request p m req streaming =
    (case enc_chat_request (oai_build_request m req streaming) of
       Inl e \<Rightarrow> Inl (Errorf ''marshaling openai request: %w'' [AErr e])
     | Inr j \<Rightarrow>
         (case new_post p (oai_base m @ ''/chat/completions'') (marshal j) of
            Inl e \<Rightarrow> Inl (Errorf ''creating openai request: %w'' [AErr e])
          | Inr q \<Rightarrow> Inr (oai_set_headers m q)))"

definition oai_sync_plan :: "platform \<Rightarrow> genai \<Rightarrow> oai_model \<Rightarrow> call \<Rightarrow> llm_request \<Rightarrow> plan" where
  "oai_sync_plan p g m c req =
    (case oai_http_request p m req False of
       Inl e \<Rightarrow> fail_plan [] e []
     | Inr q \<Rightarrow>
         (case do_request (oai_client m) (call_net c) q of
            (evs, Failed e) \<Rightarrow> fail_plan evs (Errorf ''openai API call failed: %w'' [AErr e]) []
          | (evs, Got (Some resp)) \<Rightarrow>
              \<lparr>pl_before = evs, pl_items = [oai_sync_answer p g m resp], pl_crash = False, pl_after = [Closed]\<rparr>
          | (evs, _) \<Rightarrow> \<lparr>pl_before = evs, pl_items = [], pl_crash = True, pl_after = []\<rparr>))"

definition oai_stream_plan :: "platform \<Rightarrow> genai \<Rightarrow> oai_model \<Rightarrow> call \<Rightarrow> llm_request \<Rightarrow> plan" where
  "oai_stream_plan p g m c req =
    (case oai_http_request p m req True of
       Inl e \<Rightarrow> fail_plan [] e []
     | Inr q \<Rightarrow>
         (case do_stream (call_net c) q of
            (evs, Inl e) \<Rightarrow> fail_plan evs (Errorf ''openai stream failed: %w'' [AErr e]) []
          | (evs, Inr resp) \<Rightarrow>
              \<lparr>pl_before = evs,
               pl_items = transduce (oai_step p g) oai_stream_start (sse_items max_line (resp_body resp)),
               pl_crash = crashes (oai_step p g) oai_stream_start (sse_items max_line (resp_body resp)),
               pl_after = [Closed]\<rparr>))"

definition oai_plan :: "platform \<Rightarrow> genai \<Rightarrow> oai_model \<Rightarrow> call \<Rightarrow> llm_request \<Rightarrow> bool \<Rightarrow> plan" where
  "oai_plan p g m c req streaming =
    (if streaming then oai_stream_plan p g m c req else oai_sync_plan p g m c req)"

lemma oai_sync_run: "oai_sync p g m c req y w = run_plan (oai_sync_plan p g m c req) y w"
proof (cases "enc_chat_request (oai_build_request m req False)")
  case (Inl e)
  then show ?thesis by (simp add: oai_sync_def oai_sync_plan_def oai_http_request_def run_fail_plan)
next
  case j: (Inr j)
  show ?thesis
  proof (cases "new_post p (oai_base m @ ''/chat/completions'') (marshal j)")
    case (Inl e)
    then show ?thesis using j by (simp add: oai_sync_def oai_sync_plan_def oai_http_request_def run_fail_plan)
  next
    case q: (Inr q)
    obtain evs r where d: "do_request (oai_client m) (call_net c) (oai_set_headers m q) = (evs, r)" by fastforce
    show ?thesis
    proof (cases r)
      case (Got ro)
      then show ?thesis using j q d
        by (cases ro)
           (auto simp: oai_sync_def oai_sync_plan_def oai_http_request_def run_crash run_answer
             oai_sync_answer_def fail_with_def split: sum.split option.split)
    qed (use j q d in \<open>simp_all add: oai_sync_def oai_sync_plan_def oai_http_request_def run_fail_plan run_crash\<close>)
  qed
qed

lemmas oai_loop = loop_via [OF sse.presents_axioms oai_body_via]

lemma oai_streaming_run: "oai_streaming p g m c req y w = run_plan (oai_stream_plan p g m c req) y w"
proof (cases "enc_chat_request (oai_build_request m req True)")
  case (Inl e)
  then show ?thesis by (simp add: oai_streaming_def oai_stream_plan_def oai_http_request_def run_fail_plan)
next
  case j: (Inr j)
  show ?thesis
  proof (cases "new_post p (oai_base m @ ''/chat/completions'') (marshal j)")
    case (Inl e)
    then show ?thesis using j by (simp add: oai_streaming_def oai_stream_plan_def oai_http_request_def run_fail_plan)
  next
    case q: (Inr q)
    obtain evs r where d: "do_stream (call_net c) (oai_set_headers m q) = (evs, r)" by fastforce
    show ?thesis
    proof (cases r)
      case (Inl e)
      then show ?thesis using j q d
        by (simp add: oai_streaming_def oai_stream_plan_def oai_http_request_def run_fail_plan)
    next
      case (Inr resp)
      then show ?thesis using j q d
        by (simp add: oai_loop oai_streaming_def oai_stream_plan_def oai_http_request_def run_plan_def)
    qed
  qed
qed

lemma oai_generate_run: "oai_generate p g m c req streaming y w = run_plan (oai_plan p g m c req streaming) y w"
  by (simp add: oai_generate_def oai_plan_def oai_sync_run oai_streaming_run)

interpretation oai: llm_call "oai_generate p g m c req streaming"
    "pl_items (oai_plan p g m c req streaming)" "pl_crash (oai_plan p g m c req streaming)"
    "pl_before (oai_plan p g m c req streaming)" "pl_after (oai_plan p g m c req streaming)"
  by (rule plan_call) (rule oai_generate_run)

section \<open>Accumulating tool calls\<close>

text \<open>
  The reference: the deltas of each index, its last ID and its last name that are not empty,
  its argument fragments in order; one call for every index up to the largest.
\<close>

definition deltas_for :: "nat \<Rightarrow> stream_call list \<Rightarrow> stream_call list" where
  "deltas_for i tcs = filter (\<lambda>tc. sc_index tc = int i) tcs"

definition last_set :: "string list \<Rightarrow> string" where
  "last_set ss = last ([] # filter (\<lambda>s. s \<noteq> []) ss)"

definition gathered :: "stream_call list \<Rightarrow> accumulator" where
  "gathered tcs =
    \<lparr>acc_id = last_set (map sc_id tcs), acc_name = last_set (map sc_name tcs),
     acc_arguments = concat (map sc_arguments tcs)\<rparr>"

definition width :: "stream_call list \<Rightarrow> nat" where
  "width tcs = foldl (\<lambda>n tc. max n (nat (sc_index tc + 1))) 0 tcs"

definition assembled :: "stream_call list \<Rightarrow> accumulator list" where
  "assembled tcs = map (\<lambda>i. gathered (deltas_for i tcs)) [0..<width tcs]"

lemma last_set_snoc: "last_set (ss @ [s]) = (if s \<noteq> [] then s else last_set ss)"
  by (simp add: last_set_def)

lemma gathered_Nil [simp]: "gathered [] = no_call"
  by (simp add: gathered_def no_call_def last_set_def)

lemma gathered_snoc: "gathered (tcs @ [tc]) = merge_call tc (gathered tcs)"
  by (simp add: gathered_def merge_call_def last_set_snoc)

lemma deltas_for_snoc:
  "deltas_for i (tcs @ [tc]) = deltas_for i tcs @ (if sc_index tc = int i then [tc] else [])"
  by (simp add: deltas_for_def)

lemma width_le_deltas: "\<forall>tc \<in> set tcs. 0 \<le> sc_index tc \<Longrightarrow> width tcs \<le> i \<Longrightarrow> deltas_for i tcs = []"
proof (induction tcs rule: rev_induct)
  case Nil
  then show ?case by (simp add: deltas_for_def)
next
  case (snoc tc tcs)
  then show ?case by (auto simp: deltas_for_snoc width_def)
qed

lemma assembled_snoc:
  assumes "\<forall>x \<in> set (tcs @ [tc]). 0 \<le> sc_index x"
  shows "add_call tc (assembled tcs) = Some (assembled (tcs @ [tc]))"
proof -
  obtain k where k: "sc_index tc = int k" using assms nonneg_int_cases [of "sc_index tc"] by auto
  let ?ext = "assembled tcs @ replicate (Suc k - width tcs) no_call"
  have w: "width (tcs @ [tc]) = max (width tcs) (Suc k)" by (simp add: width_def k nat_add_distrib)
  have nth: "?ext ! i = gathered (deltas_for i tcs)" if "i < max (width tcs) (Suc k)" for i
    using that assms width_le_deltas [of tcs i]
    by (cases "i < width tcs") (simp_all add: assembled_def nth_append)
  have "?ext[k := merge_call tc (?ext ! k)] = assembled (tcs @ [tc])"
  proof (rule nth_equalityI)
    show "length (?ext[k := merge_call tc (?ext ! k)]) = length (assembled (tcs @ [tc]))"
      by (simp add: assembled_def w)
    fix i assume "i < length (?ext[k := merge_call tc (?ext ! k)])"
    then have i: "i < max (width tcs) (Suc k)" by (simp add: assembled_def)
    have "assembled (tcs @ [tc]) ! i = gathered (deltas_for i (tcs @ [tc]))"
      using i by (simp add: assembled_def w del: max_less_iff_conj)
    also have "\<dots> = (if i = k then merge_call tc (?ext ! k) else ?ext ! i)"
      using nth [OF i] by (auto simp: deltas_for_snoc gathered_snoc k)
    also have "\<dots> = ?ext[k := merge_call tc (?ext ! k)] ! i"
      using i by (simp add: nth_list_update assembled_def)
    finally show "?ext[k := merge_call tc (?ext ! k)] ! i = assembled (tcs @ [tc]) ! i" by simp
  qed
  moreover have "length (assembled tcs) = width tcs" by (simp add: assembled_def)
  ultimately show ?thesis by (simp add: add_call_def k nat_add_distrib Let_def)
qed

lemma add_calls_append:
  "add_calls (xs @ ys) accs = Option.bind (add_calls xs accs) (add_calls ys)"
  by (induction xs arbitrary: accs) (auto split: option.split)

lemma add_calls_ok: "\<forall>tc \<in> set tcs. 0 \<le> sc_index tc \<Longrightarrow> add_calls tcs [] = Some (assembled tcs)"
proof (induction tcs rule: rev_induct)
  case Nil
  then show ?case by (simp add: assembled_def width_def)
next
  case (snoc tc tcs)
  then show ?case using assembled_snoc [of tcs tc] by (simp add: add_calls_append)
qed

lemma add_calls_neg: "\<exists>tc \<in> set tcs. sc_index tc < 0 \<Longrightarrow> add_calls tcs accs = None"
  by (induction tcs arbitrary: accs) (auto simp: add_call_def Let_def split: option.split)

text \<open>
  C3. The accumulator loop is the grouping by index: for any deltas, in any interleaving, each
  call gets its last ID and name that are set and the concatenation of its fragments in order,
  with empty calls for the indices skipped; a negative index panics.
\<close>

theorem accumulate_groups:
  "add_calls tcs [] = (if \<exists>tc \<in> set tcs. sc_index tc < 0 then None else Some (assembled tcs))"
  using add_calls_ok [of tcs] add_calls_neg [of tcs] by force

section \<open>What comes out of a stream\<close>

definition carries :: "sse_item \<Rightarrow> stream_response \<Rightarrow> bool" where
  "carries x c \<longleftrightarrow> snd x = None \<and> ev_data (fst x) \<noteq> ''[DONE]'' \<and>
     Option.bind (parse (ev_data (fst x))) dec_stream_response = Some c"

definition chunk_calls :: "stream_response \<Rightarrow> stream_call list" where
  "chunk_calls c = (case sr_choices c of [] \<Rightarrow> [] | ch # _ \<Rightarrow> sd_tool_calls (so_delta ch))"

definition chunk_text :: "stream_response \<Rightarrow> string" where
  "chunk_text c = (case sr_choices c of [] \<Rightarrow> [] | ch # _ \<Rightarrow> sd_content (so_delta ch))"

definition chunk_finish :: "stream_response \<Rightarrow> string option" where
  "chunk_finish c = (case sr_choices c of [] \<Rightarrow> None | ch # _ \<Rightarrow> so_finish_reason ch)"

definition text_items :: "genai \<Rightarrow> stream_response list \<Rightarrow> llm_item list" where
  "text_items g cs =
    map (\<lambda>s. (Some \<lparr>lr_content = Some \<lparr>content_role = ''model'', content_parts = [text_part g s]\<rparr>,
                   lr_usage = None, lr_turn_complete = False, lr_finish = NoReason\<rparr>, None))
      (filter (\<lambda>s. s \<noteq> []) (map chunk_text cs))"

definition last_usage :: "oai_usage option \<Rightarrow> stream_response list \<Rightarrow> oai_usage option" where
  "last_usage u cs = foldl (\<lambda>u c. case sr_usage c of None \<Rightarrow> u | v \<Rightarrow> v) u cs"

definition after_chunks :: "oai_stream \<Rightarrow> stream_response list \<Rightarrow> oai_stream" where
  "after_chunks st cs =
    \<lparr>os_calls = the (add_calls (concat (map chunk_calls cs)) (os_calls st)), os_usage = last_usage (os_usage st) cs\<rparr>"

lemma oai_step_chunk:
  assumes "carries x c" "add_calls (chunk_calls c) (os_calls st) = Some accs"
  shows "oai_step p g st x =
    (let st' = \<lparr>os_calls = accs, os_usage = last_usage (os_usage st) [c]\<rparr> in
     case chunk_finish c of
       None \<Rightarrow> (text_items g [c], Continue st')
     | Some r \<Rightarrow> (text_items g [c] @ [(Some (oai_final g st' r), None)], Halt))"
  using assms
  by (cases st; cases "sr_choices c"; cases "sr_usage c")
     (simp_all add: oai_step_def carries_def oai_choice_step_def chunk_calls_def chunk_finish_def
       chunk_text_def text_items_def text_response_def last_usage_def Let_def split: option.split)

lemma oai_step_negative:
  assumes "carries x c" "add_calls (chunk_calls c) (os_calls st) = None"
  shows "oai_step p g st x = (text_items g [c], Crashed)"
  using assms
  by (cases st; cases "sr_choices c"; cases "sr_usage c")
     (simp_all add: oai_step_def carries_def oai_choice_step_def chunk_calls_def
       chunk_text_def text_items_def text_response_def Let_def)

lemma text_items_Cons: "text_items g (c # cs) = text_items g [c] @ text_items g cs"
  by (simp add: text_items_def)

text \<open>Chunks that do not finish the stream: their texts come out, their calls accumulate.\<close>

lemma transduce_chunks:
  assumes "list_all2 carries xs cs" "\<forall>c \<in> set cs. chunk_finish c = None"
    and "add_calls (concat (map chunk_calls cs)) (os_calls st) \<noteq> None"
  shows "transduce (oai_step p g) st (xs @ ys) =
      text_items g cs @ transduce (oai_step p g) (after_chunks st cs) ys \<and>
    crashes (oai_step p g) st (xs @ ys) = crashes (oai_step p g) (after_chunks st cs) ys"
  using assms
proof (induction xs cs arbitrary: st rule: list_all2_induct)
  case Nil
  then show ?case by (cases st) (simp add: text_items_def after_chunks_def last_usage_def)
next
  case (Cons x xs c cs)
  obtain accs where a: "add_calls (chunk_calls c) (os_calls st) = Some accs"
    using Cons.prems(2) by (cases "add_calls (chunk_calls c) (os_calls st)") (auto simp: add_calls_append)
  let ?st = "\<lparr>os_calls = accs, os_usage = last_usage (os_usage st) [c]\<rparr>"
  have s: "oai_step p g st x = (text_items g [c], Continue ?st)"
    using oai_step_chunk [OF Cons.hyps(1) a] Cons.prems(1) by (simp add: Let_def)
  have "after_chunks st (c # cs) = after_chunks ?st cs"
    using a by (simp add: after_chunks_def add_calls_append last_usage_def)
  then show ?case
    using Cons.IH [of ?st] Cons.prems a s by (simp add: add_calls_append text_items_Cons [of g c cs])
qed

text \<open>
  A stream of chunks up to the one with a finish reason yields the texts that are not
  empty, one response each, and then one final response with the accumulated calls, the last
  usage seen and the finish reason. Nothing behind that chunk is looked at: a usage the server
  sends in a chunk of its own after the finish reason never arrives.
\<close>

theorem oai_stream_finish:
  assumes "list_all2 carries xs cs" "\<forall>c \<in> set cs. chunk_finish c = None"
    and "carries x c" "chunk_finish c = Some reason"
    and "\<forall>tc \<in> set (concat (map chunk_calls (cs @ [c]))). 0 \<le> sc_index tc"
  shows "transduce (oai_step p g) oai_stream_start (xs @ x # behind) =
      text_items g (cs @ [c]) @
      [(Some (oai_final g \<lparr>os_calls = assembled (concat (map chunk_calls (cs @ [c]))),
                           os_usage = last_usage None (cs @ [c])\<rparr> reason), None)] \<and>
    \<not> crashes (oai_step p g) oai_stream_start (xs @ x # behind)"
proof -
  let ?tcs = "concat (map chunk_calls cs)"
  have all: "add_calls (?tcs @ chunk_calls c) [] = Some (assembled (?tcs @ chunk_calls c))"
    using assms(5) by (intro add_calls_ok) simp
  then obtain accs where accs: "add_calls ?tcs [] = Some accs"
    "add_calls (chunk_calls c) accs = Some (assembled (?tcs @ chunk_calls c))"
    by (auto simp: add_calls_append bind_eq_Some_conv)
  have st: "after_chunks oai_stream_start cs = \<lparr>os_calls = accs, os_usage = last_usage None cs\<rparr>"
    using accs by (simp add: after_chunks_def oai_stream_start_def)
  have "add_calls ?tcs (os_calls oai_stream_start) \<noteq> None" using accs by (simp add: oai_stream_start_def)
  note rest = transduce_chunks [OF assms(1,2) this, of p g "x # behind"]
  have "oai_step p g (after_chunks oai_stream_start cs) x =
    (text_items g [c] @ [(Some (oai_final g \<lparr>os_calls = assembled (?tcs @ chunk_calls c),
        os_usage = last_usage None (cs @ [c])\<rparr> reason), None)], Halt)"
    using oai_step_chunk [OF assms(3), of "after_chunks oai_stream_start cs"] accs(2) assms(4) st
    by (simp add: Let_def last_usage_def)
  then show ?thesis using rest by (simp add: text_items_def)
qed

text \<open>
  A stream that ends, or says \<^verbatim>\<open>[DONE]\<close>, before any finish reason: the texts came
  out, but there is no final response, and the tool calls received so far are dropped without
  an error.
\<close>

theorem oai_stream_unfinished:
  assumes "list_all2 carries xs cs" "\<forall>c \<in> set cs. chunk_finish c = None"
    and "\<forall>tc \<in> set (concat (map chunk_calls cs)). 0 \<le> sc_index tc"
    and "tail = [] \<or> (\<exists>t rest. tail = (\<lparr>ev_type = t, ev_data = ''[DONE]''\<rparr>, None) # rest)"
  shows "transduce (oai_step p g) oai_stream_start (xs @ tail) = text_items g cs \<and>
    \<not> crashes (oai_step p g) oai_stream_start (xs @ tail)"
proof -
  have "add_calls (concat (map chunk_calls cs)) (os_calls oai_stream_start) \<noteq> None"
    using add_calls_ok [OF assms(3)] by (simp add: oai_stream_start_def)
  note rest = transduce_chunks [OF assms(1,2) this, of p g tail]
  show ?thesis using assms(4)
  proof
    assume "tail = []"
    then show ?thesis using rest by simp
  next
    assume "\<exists>t rest. tail = (\<lparr>ev_type = t, ev_data = ''[DONE]''\<rparr>, None) # rest"
    then show ?thesis using rest by (auto simp: oai_step_def)
  qed
qed

text \<open>
  C13. Tool calls survive streaming: however the server cuts the argument texts of its calls
  into fragments and interleaves them, the final response holds each call with its name and
  exactly the arguments that were marshalled. The calls' IDs are not carried over.
\<close>

theorem oai_tool_calls_roundtrip:
  assumes "genai_ok g" "\<forall>tc \<in> set tcs. 0 \<le> sc_index tc" "width tcs = length calls"
    and "\<forall>i < length calls.
      gathered (deltas_for i tcs) =
        \<lparr>acc_id = ids i, acc_name = fst (calls ! i), acc_arguments = marshal (enc_map (snd (calls ! i)))\<rparr> \<and>
      canonical_map (snd (calls ! i))"
  shows "\<exists>accs. add_calls tcs [] = Some accs \<and>
    (calls \<noteq> [] \<longrightarrow> lr_content (oai_final g \<lparr>os_calls = accs, os_usage = u\<rparr> reason) =
      Some \<lparr>content_role = ''model'', content_parts =
        map (\<lambda>(n, a). \<lparr>part_text = [], part_call = Some \<lparr>fc_id = [], fc_name = n, fc_args = a\<rparr>,
                       part_response = None\<rparr>) calls\<rparr>)"
proof -
  have a: "add_calls tcs [] = Some (assembled tcs)" using assms(2) by (rule add_calls_ok)
  have len: "length (assembled tcs) = length calls" using assms(3) by (simp add: assembled_def)
  have "map (\<lambda>a. call_part g (acc_name a) (snd (unmarshal_args (acc_arguments a)))) (assembled tcs) =
    map (\<lambda>(n, a). \<lparr>part_text = [], part_call = Some \<lparr>fc_id = [], fc_name = n, fc_args = a\<rparr>,
                   part_response = None\<rparr>) calls"
    using assms len
    by (intro nth_equalityI)
       (auto simp: assembled_def genai_ok_def unmarshal_args_marshal split: prod.split)
  moreover have "calls \<noteq> [] \<longrightarrow> assembled tcs \<noteq> []" using len by auto
  ultimately show ?thesis using a by (simp add: oai_final_def)
qed

text \<open>A stream as a server sends it: a text, a tool call in two fragments, the finish reason.\<close>

definition frame :: "json \<Rightarrow> sse_item" where
  "frame j = (\<lparr>ev_type = [], ev_data = marshal j\<rparr>, None)"

definition delta_json :: "(string \<times> json) list \<Rightarrow> json \<Rightarrow> json" where
  "delta_json d fin = JObj [(''choices'', JArr [JObj [(''delta'', JObj d), (''finish_reason'', fin)]])]"

definition fragment :: "string \<Rightarrow> string \<Rightarrow> json" where
  "fragment name args = JArr [JObj [(''index'', JNum ''0''),
     (''function'', JObj [(''name'', JStr name), (''arguments'', JStr args)])]]"

definition stream_of :: "stream_call list \<Rightarrow> string \<Rightarrow> string option \<Rightarrow> stream_response" where
  "stream_of calls s fin =
    \<lparr>sr_choices = [\<lparr>so_delta = \<lparr>sd_role = [], sd_content = s, sd_tool_calls = calls\<rparr>, so_finish_reason = fin\<rparr>],
     sr_usage = None\<rparr>"

lemma fold_oai [simp]:
  "fold_name ''choices'' = ''CHOICES''" "fold_name ''usage'' = ''USAGE''" "fold_name ''delta'' = ''DELTA''"
  "fold_name ''finish_reason'' = ''FINISH_REASON''" "fold_name ''role'' = ''ROLE''"
  "fold_name ''content'' = ''CONTENT''" "fold_name ''tool_calls'' = ''TOOL_CALLS''"
  "fold_name ''index'' = ''INDEX''" "fold_name ''id'' = ''ID''" "fold_name ''type'' = ''TYPE''"
  "fold_name ''function'' = ''FUNCTION''" "fold_name ''name'' = ''NAME''" "fold_name ''arguments'' = ''ARGUMENTS''"
  by code_simp+

lemma num_zero: "num_ok ''0''" "parse_int ''0'' = Some 0"
  by code_simp+

lemmas dec_stream = dec_stream_response_def dec_stream_choice_def dec_stream_delta_def dec_stream_call_def
  dec_named_def dec_struct_def dec_list_def dec_ptr_def dec_string_def dec_int_def

lemma carries_text:
  assumes "utf8_valid s"
  shows "carries (frame (delta_json [(''content'', JStr s)] JNull)) (stream_of [] s None)"
proof -
  let ?j = "delta_json [(''content'', JStr s)] JNull"
  have "wf_json ?j" using assms by (simp add: delta_json_def text_simps)
  then have "parse (marshal ?j) = Some ?j" by simp
  then show ?thesis
    by (simp add: carries_def frame_def delta_json_def marshal_def stream_of_def dec_stream field_Cons)
qed

definition call_fragment :: "string \<Rightarrow> string \<Rightarrow> stream_call" where
  "call_fragment n a = \<lparr>sc_index = 0, sc_id = [], sc_type = [], sc_name = n, sc_arguments = a\<rparr>"

lemma carries_fragment:
  assumes "utf8_valid n" "utf8_valid a"
  shows "carries (frame (delta_json [(''tool_calls'', fragment n a)] JNull)) (stream_of [call_fragment n a] [] None)"
proof -
  let ?j = "delta_json [(''tool_calls'', fragment n a)] JNull"
  have "wf_json ?j" using assms by (simp add: delta_json_def fragment_def text_simps num_zero)
  then have "parse (marshal ?j) = Some ?j" by simp
  then show ?thesis
    by (simp add: carries_def frame_def delta_json_def marshal_def stream_of_def dec_stream field_Cons
        fragment_def call_fragment_def num_zero)
qed

lemma carries_finish:
  assumes "utf8_valid r"
  shows "carries (frame (delta_json [] (JStr r))) (stream_of [] [] (Some r))"
proof -
  let ?j = "delta_json [] (JStr r)"
  have "wf_json ?j" using assms by (simp add: delta_json_def text_simps)
  then have "parse (marshal ?j) = Some ?j" by simp
  then show ?thesis
    by (simp add: carries_def frame_def delta_json_def marshal_def stream_of_def dec_stream field_Cons)
qed

definition sample_frames :: "sse_item list" where
  "sample_frames =
    [frame (delta_json [(''content'', JStr ''hi'')] JNull),
     frame (delta_json [(''tool_calls'', fragment ''add'' ''{'')] JNull),
     frame (delta_json [(''tool_calls'', fragment [] ''}'')] JNull)]"

definition sample_chunks :: "stream_response list" where
  "sample_chunks =
    [stream_of [] ''hi'' None, stream_of [call_fragment ''add'' ''{''] [] None,
     stream_of [call_fragment [] ''}''] [] None]"

lemma sample_carries: "list_all2 carries sample_frames sample_chunks"
  by (simp add: sample_frames_def sample_chunks_def carries_text carries_fragment text_simps)

lemma sample_open:
  "\<forall>c \<in> set sample_chunks. chunk_finish c = None"
  "concat (map chunk_calls sample_chunks) = [call_fragment ''add'' ''{'', call_fragment [] ''}'']"
  "text_items g sample_chunks = [(Some (text_response g ''hi''), None)]"
  by (simp_all add: sample_chunks_def stream_of_def chunk_finish_def chunk_calls_def text_items_def chunk_text_def
      text_response_def)

lemma assembled_sample:
  "assembled [call_fragment ''add'' ''{'', call_fragment [] ''}''] =
    [\<lparr>acc_id = [], acc_name = ''add'', acc_arguments = ''{}''\<rparr>]"
  by (simp add: assembled_def width_def call_fragment_def deltas_for_def gathered_def last_set_def)

theorem oai_stream_finish_witness:
  "transduce (oai_step bare_platform genai_lib) oai_stream_start
      (sample_frames @ [frame (delta_json [] (JStr ''tool_calls''))]) =
    [(Some (text_response genai_lib ''hi''), None),
     (Some (oai_final genai_lib \<lparr>os_calls = [\<lparr>acc_id = [], acc_name = ''add'', acc_arguments = ''{}''\<rparr>],
                                 os_usage = None\<rparr> ''tool_calls''), None)]"
proof -
  let ?c = "stream_of [] [] (Some ''tool_calls'')"
  have fin: "carries (frame (delta_json [] (JStr ''tool_calls''))) ?c"
    by (rule carries_finish) (simp add: text_simps)
  have c: "chunk_finish ?c = Some ''tool_calls''" "chunk_calls ?c = []" "chunk_text ?c = []" "sr_usage ?c = None"
    by (simp_all add: stream_of_def chunk_finish_def chunk_calls_def chunk_text_def)
  have u: "last_usage None (sample_chunks @ [?c]) = None"
    by (simp add: last_usage_def sample_chunks_def stream_of_def)
  have t: "text_items g (sample_chunks @ [?c]) = text_items g sample_chunks" for g
    using c by (simp add: text_items_def)
  show ?thesis
    using oai_stream_finish [OF sample_carries sample_open(1) fin c(1), of bare_platform genai_lib "[]"] c u t
    by (simp add: sample_open assembled_sample) (simp add: call_fragment_def)
qed

theorem oai_stream_unfinished_witness:
  "transduce (oai_step bare_platform genai_lib) oai_stream_start
      (sample_frames @ [(\<lparr>ev_type = [], ev_data = ''[DONE]''\<rparr>, None)]) =
    [(Some (text_response genai_lib ''hi''), None)]"
proof -
  have "\<forall>tc \<in> set (concat (map chunk_calls sample_chunks)). 0 \<le> sc_index tc"
    unfolding sample_open by (simp add: call_fragment_def)
  then show ?thesis
    using oai_stream_unfinished [OF sample_carries sample_open(1), of "[(\<lparr>ev_type = [], ev_data = ''[DONE]''\<rparr>, None)]"
        bare_platform genai_lib]
    by (simp add: sample_open)
qed

theorem oai_tool_calls_roundtrip_witness:
  "lr_content (oai_final genai_lib \<lparr>os_calls = the (add_calls [call_fragment ''add'' ''{'', call_fragment [] ''}''] []),
      os_usage = None\<rparr> ''stop'') =
    Some \<lparr>content_role = ''model'', content_parts =
      [\<lparr>part_text = [], part_call = Some \<lparr>fc_id = [], fc_name = ''add'', fc_args = Some []\<rparr>, part_response = None\<rparr>]\<rparr>"
proof -
  let ?tcs = "[call_fragment ''add'' ''{'', call_fragment [] ''}'']"
  have nn: "\<forall>tc \<in> set ?tcs. 0 \<le> sc_index tc" by (simp add: call_fragment_def)
  have w: "width ?tcs = length [(''add'', Some [] :: gomap)]" by (simp add: width_def call_fragment_def)
  have g: "\<forall>i < length [(''add'', Some [] :: gomap)].
      gathered (deltas_for i ?tcs) =
        \<lparr>acc_id = (\<lambda>_. []) i, acc_name = fst ([(''add'', Some [] :: gomap)] ! i),
         acc_arguments = marshal (enc_map (snd ([(''add'', Some [] :: gomap)] ! i)))\<rparr> \<and>
      canonical_map (snd ([(''add'', Some [] :: gomap)] ! i))"
    by (simp add: call_fragment_def deltas_for_def gathered_def last_set_def enc_map_def marshal_def
        canonical_map_def)
  show ?thesis
    using oai_tool_calls_roundtrip [OF genai_lib_ok nn w g, of None "''stop''"] by auto
qed

section \<open>Creation, requests, synchronous calls\<close>

lemma created_client:
  "oai_create p i cc mc = Inr m \<Longrightarrow> opt_max_retries (oai_client m) = 3 \<and> opt_max_body (oai_client m) = 10485760"
  by (auto simp: oai_create_def Let_def with_defaults_def default_max_retries_def default_max_body_def
      split: if_splits)

lemma trim_right_slashes: "h = [] \<or> last h \<noteq> c \<Longrightarrow> trim_right (h @ replicate k c) c = h"
proof -
  have "dropWhile (\<lambda>x. x = c) (replicate k c @ xs) = dropWhile (\<lambda>x. x = c) xs" for xs
    by (induction k) simp_all
  moreover assume "h = [] \<or> last h \<noteq> c"
  ultimately show ?thesis
    by (cases h rule: rev_cases) (simp_all add: trim_right_def drop_while_end_def)
qed

text \<open>
  The host variable wins over the configured base, with any number of trailing slashes;
  a model whose base is not the public endpoint needs no key, and with a key creation never fails.
\<close>

theorem oai_create_host:
  assumes "cc_host_env cc \<noteq> []" "getenv p (cc_host_env cc) = h @ replicate k slash" "h \<noteq> []" "last h \<noteq> slash"
  shows "(case oai_create p i cc mc of
      Inr m \<Rightarrow> oai_base m = h @ ''/v1'' \<and> oai_id m = i \<and> oai_config m = mc
    | Inl e \<Rightarrow> h @ ''/v1'' = oai_default_base \<and>
        getenv p (if cc_auth_env cc = [] then oai_default_key_env else cc_auth_env cc) = [])"
proof -
  have "oai_base_url p cc = h @ ''/v1''"
    using assms trim_right_slashes [of h slash k] by (simp add: oai_base_url_def Let_def)
  then show ?thesis by (auto simp: oai_create_def Let_def)
qed

definition ollama_env :: platform where
  "ollama_env = bare_platform\<lparr>getenv := (\<lambda>v. if v = ''OLLAMA_HOST'' then ''http://gpu:11434//'' else [])\<rparr>"

definition tuned :: model_config where
  "tuned = \<lparr>mc_name = ''m'', mc_model = ''ollama/llama3'', mc_temperature = Some (Finite ''0.7''),
            mc_max_tokens = None, mc_top_p = None\<rparr>"

definition ollama_cc :: connect_config where
  "ollama_cc = \<lparr>cc_api_base = ''http://localhost:11434/v1'', cc_auth_env = [], cc_host_env = ''OLLAMA_HOST''\<rparr>"

theorem oai_create_host_witness:
  "\<exists>m. oai_create ollama_env ''llama3'' ollama_cc tuned = Inr m \<and> oai_base m = ''http://gpu:11434/v1''"
proof -
  have "oai_create ollama_env ''llama3'' ollama_cc tuned \<noteq> Inl e" for e
    by (auto simp: oai_create_def oai_base_url_def ollama_env_def ollama_cc_def bare_platform_def
        oai_default_base_def trim_right_def drop_while_end_def slash_def)
  then show ?thesis
    using oai_create_host [of ollama_cc ollama_env "''http://gpu:11434''" 2 "''llama3''" tuned]
    by (cases "oai_create ollama_env ''llama3'' ollama_cc tuned")
       (auto simp: ollama_cc_def ollama_env_def bare_platform_def slash_def numeral_2_eq_2)
qed

text \<open>
  A synchronous call of a model that \<^verbatim>\<open>CreateModel\<close> made neither panics nor stays silent:
  it yields exactly one item, either a complete response or an error.
\<close>

theorem oai_sync_total:
  assumes "oai_create p i cc mc = Inr m"
  shows "pl_crash (oai_plan p g m c req False) = False \<and>
    (\<exists>item. pl_items (oai_plan p g m c req False) = [item] \<and>
      (case item of (Some r, None) \<Rightarrow> lr_turn_complete r | (None, Some e) \<Rightarrow> True | _ \<Rightarrow> False))"
proof (cases "oai_http_request p m req False")
  case (Inl e)
  then show ?thesis by (simp add: oai_plan_def oai_sync_plan_def fail_plan_def)
next
  case (Inr q)
  have one: "case oai_sync_answer p g m resp of (Some r, None) \<Rightarrow> lr_turn_complete r | (None, Some e) \<Rightarrow> True | _ \<Rightarrow> False" for resp
    by (auto simp: oai_sync_answer_def oai_convert_sync_def Let_def split: sum.split option.split list.split)
  obtain evs r where d: "do_request (oai_client m) (call_net c) q = (evs, r)" by fastforce
  then have "(\<exists>e. r = Failed e) \<or> (\<exists>resp. r = Got (Some resp))"
    using do_request_ends [of "oai_client m" "call_net c" q] created_client [OF assms] by simp
  then show ?thesis
  proof
    assume "\<exists>e. r = Failed e"
    then show ?thesis using Inr d by (auto simp: oai_plan_def oai_sync_plan_def fail_plan_def)
  next
    assume "\<exists>resp. r = Got (Some resp)"
    then obtain resp where "r = Got (Some resp)" ..
    then show ?thesis
      using Inr d one [of resp] by (simp add: oai_plan_def oai_sync_plan_def)
  qed
qed

theorem oai_sync_total_witness:
  "\<exists>m item. oai_create ollama_env ''llama3'' ollama_cc tuned = Inr m \<and>
    pl_items (oai_plan ollama_env genai_lib m live_call \<lparr>req_contents = [], req_config = None\<rparr> False) = [item]"
proof -
  obtain m where "oai_create ollama_env ''llama3'' ollama_cc tuned = Inr m"
    by (cases "oai_create ollama_env ''llama3'' ollama_cc tuned")
       (auto simp: oai_create_def oai_base_url_def ollama_env_def ollama_cc_def bare_platform_def
        oai_default_base_def trim_right_def drop_while_end_def slash_def)
  then show ?thesis using oai_sync_total by blast
qed

text \<open>
  C38. The body of every response a call is handed is closed, once and last, on every way out:
  the log of a call by a consumer that leaves HTTP alone is the traffic of the client, then
  \<open>Closed\<close> exactly when the client handed over a response.
\<close>

theorem oai_closes_body:
  assumes "\<And>x s. http_log (snd (y x s)) = http_log s" "http_log w = []"
  shows "http_log (snd (oai_generate p g m c req streaming y w)) =
    (case oai_http_request p m req streaming of
       Inl e \<Rightarrow> []
     | Inr q \<Rightarrow>
         if streaming then
           (case do_stream (call_net c) q of (evs, Inl e) \<Rightarrow> evs | (evs, Inr resp) \<Rightarrow> evs @ [Closed])
         else
           (case do_request (oai_client m) (call_net c) q of
              (evs, Got (Some resp)) \<Rightarrow> evs @ [Closed] | (evs, _) \<Rightarrow> evs))"
proof -
  have "http_log (snd (oai_generate p g m c req streaming y w)) =
    pl_before (oai_plan p g m c req streaming) @ pl_after (oai_plan p g m c req streaming)"
    using oai.traffic [where y = y and w = w] assms by simp
  then show ?thesis
    by (auto simp: oai_plan_def oai_stream_plan_def oai_sync_plan_def fail_plan_def
        split: sum.split prod.split do_result.split option.split)
qed

definition ok_call :: call where
  "ok_call = live_call\<lparr>call_net := (down (\<lambda>_. None))
     \<lparr>transport := (\<lambda>k q. Inr \<lparr>status = 200, resp_body = \<lparr>bytes = [], fault = None\<rparr>\<rparr>)\<rparr>\<rparr>"

definition local_model :: oai_model where
  "local_model = \<lparr>oai_id = ''llama3'', oai_key = [], oai_base = ''http://gpu:11434/v1'', oai_config = tuned,
                  oai_client = default_client\<rparr>"

theorem oai_closes_body_witness:
  "\<exists>evs. http_log (snd (oai_generate bare_platform genai_lib local_model ok_call
      \<lparr>req_contents = [], req_config = None\<rparr> True (\<lambda>x s. (Stop, s)) \<lparr>http_log = [], llm_log = []\<rparr>)) = evs @ [Closed]"
proof -
  let ?req = "\<lparr>req_contents = [], req_config = None\<rparr> :: llm_request"
  let ?y = "(\<lambda>x s. (Stop, s)) :: (llm_item, world) yield"
  obtain q where q: "oai_http_request bare_platform local_model ?req True = Inr q"
    by (auto simp: oai_http_request_def enc_chat_request_def oai_build_request_def omit_float_def
        local_model_def tuned_def new_post_def bare_platform_def)
  have d: "do_stream (call_net ok_call) q = ([Attempt 0 (sent_body q)], Inr \<lparr>status = 200, resp_body = \<lparr>bytes = [], fault = None\<rparr>\<rparr>)"
    by (simp add: do_stream_def ok_call_def live_call_def)
  show ?thesis
    using oai_closes_body [of ?y "\<lparr>http_log = [], llm_log = []\<rparr>" bare_platform genai_lib local_model ok_call ?req True] q d
    by auto
qed

text \<open>The calls of a content, and the response a content answers with: the one of its first part.\<close>

definition calls_of :: "content \<Rightarrow> function_call list" where
  "calls_of c = List.map_filter part_call (content_parts c)"

definition answer_of :: "content \<Rightarrow> function_response option" where
  "answer_of c = (case content_parts c of [] \<Rightarrow> None | pr # _ \<Rightarrow> part_response pr)"

text \<open>
  C14. In any conversation, the messages are those of the contents, one each and in order. A content of
  the model with calls becomes an assistant's message without text that has every one of its calls, in
  order, as a function of its name with the text of its arguments; a content with role \<^verbatim>\<open>tool\<close> becomes
  a tool's message with the text of its answer; and if that answers the \<open>k\<close>-th call of the other content, by ID and
  name, then its \<^verbatim>\<open>tool_call_id\<close> is the \<^verbatim>\<open>id\<close> that call was sent with, whether the call has
  an ID or only a name. The texts read back as the values they were made from.
\<close>

theorem oai_answers_match:
  assumes "i < length cs" "content_role (cs ! i) = ''model''" "k < length (calls_of (cs ! i))"
    and "fc = calls_of (cs ! i) ! k" "canonical_map (fc_args fc)"
    and "j < length cs" "content_role (cs ! j) = ''tool''" "answer_of (cs ! j) = Some fr"
    and "fr_id fr = fc_id fc" "fr_name fr = fc_name fc" "canonical_map (fr_response fr)"
  shows "let ms = oai_convert_contents cs; tcs = msg_tool_calls (ms ! i); tc = tcs ! k in
    length ms = length cs \<and>
    msg_role (ms ! i) = ''assistant'' \<and> msg_content (ms ! i) = [] \<and> length tcs = length (calls_of (cs ! i)) \<and>
    tc_type tc = ''function'' \<and> tc_name tc = fc_name fc \<and> unmarshal_args (tc_arguments tc) = (True, fc_args fc) \<and>
    tc_id tc = (if fc_id fc = [] then fc_name fc else fc_id fc) \<and>
    msg_role (ms ! j) = ''tool'' \<and> msg_tool_calls (ms ! j) = [] \<and> msg_tool_call_id (ms ! j) = tc_id tc \<and>
    unmarshal_args (msg_content (ms ! j)) = (True, fr_response fr)"
proof -
  have call: "oai_convert_content (cs ! i) =
      \<lparr>msg_role = ''assistant'', msg_content = [], msg_tool_calls = map oai_call_of (calls_of (cs ! i)), msg_tool_call_id = []\<rparr>"
    using assms(2,3) by (auto simp: oai_convert_content_def oai_map_role_def calls_of_def Let_def)
  obtain pr others where parts: "content_parts (cs ! j) = pr # others" "part_response pr = Some fr"
    using assms(8) by (auto simp: answer_of_def split: list.splits)
  then have answer: "oai_convert_content (cs ! j) =
      \<lparr>msg_role = ''tool'', msg_content = marshal (enc_map (fr_response fr)), msg_tool_calls = [],
       msg_tool_call_id = call_ref (fr_id fr) (fr_name fr)\<rparr>"
    using assms(7) by (simp add: oai_convert_content_def oai_map_role_def Let_def)
  show ?thesis
    using assms by (simp add: Let_def oai_convert_contents_def call answer oai_call_of_def call_ref_def unmarshal_args_marshal)
qed

definition sample_call :: function_call where
  "sample_call = \<lparr>fc_id = [], fc_name = ''add'', fc_args = Some [(''x'', JNum ''1'')]\<rparr>"

definition other_call :: function_call where
  "other_call = \<lparr>fc_id = ''c7'', fc_name = ''now'', fc_args = Some []\<rparr>"

definition sample_answer :: function_response where
  "sample_answer = \<lparr>fr_id = [], fr_name = ''add'', fr_response = Some [(''sum'', JBool True)]\<rparr>"

definition sample_talk :: "content list" where
  "sample_talk =
    [\<lparr>content_role = ''user'', content_parts = [\<lparr>part_text = ''add it'', part_call = None, part_response = None\<rparr>]\<rparr>,
     \<lparr>content_role = ''model'', content_parts = [\<lparr>part_text = [], part_call = Some other_call, part_response = None\<rparr>,
        \<lparr>part_text = [], part_call = Some sample_call, part_response = None\<rparr>]\<rparr>,
     \<lparr>content_role = ''tool'', content_parts = [\<lparr>part_text = [], part_call = None, part_response = Some sample_answer\<rparr>]\<rparr>]"

theorem oai_answers_match_witness:
  "let ms = oai_convert_contents sample_talk in
    msg_tool_call_id (ms ! 2) = tc_id (msg_tool_calls (ms ! 1) ! 1) \<and> length (msg_tool_calls (ms ! 1)) = 2"
proof -
  have num: "num_ok ''1''" by code_simp
  have canon: "canonical_map (fc_args sample_call)" "canonical_map (fr_response sample_answer)"
    by (simp_all add: sample_call_def sample_answer_def canonical_map_def enc_map_def text_simps num)
  have calls: "calls_of (sample_talk ! 1) = [other_call, sample_call]" "answer_of (sample_talk ! 2) = Some sample_answer"
    by (simp_all add: sample_talk_def calls_of_def answer_of_def List.map_filter_def)
  have roles: "content_role (sample_talk ! 1) = ''model''" "content_role (sample_talk ! 2) = ''tool''" "length sample_talk = 3"
    by (simp_all add: sample_talk_def)
  have same: "fr_id sample_answer = fc_id sample_call" "fr_name sample_answer = fc_name sample_call"
    by (simp_all add: sample_call_def sample_answer_def)
  show ?thesis
    using oai_answers_match [of 1 sample_talk 1 sample_call 2 sample_answer] canon calls roles same by (simp add: Let_def)
qed

definition without_responses :: "content \<Rightarrow> content" where
  "without_responses c = c\<lparr>content_parts := map (\<lambda>p. p\<lparr>part_response := None\<rparr>) (content_parts c)\<rparr>"

text \<open>
  What the conversion loses: outside the role \<^verbatim>\<open>tool\<close> the function responses of a
  content are dropped altogether, and inside it all but the first.
\<close>

theorem oai_responses_lost:
  "(content_role c \<noteq> ''tool'' \<longrightarrow> oai_convert_content (without_responses c) = oai_convert_content c) \<and>
   (part_response pr \<noteq> None \<longrightarrow>
      oai_convert_content \<lparr>content_role = ''tool'', content_parts = pr # others\<rparr> =
      oai_convert_content \<lparr>content_role = ''tool'', content_parts = [pr]\<rparr>)"
proof -
  have calls: "List.map_filter part_call (map (\<lambda>p. p\<lparr>part_response := None\<rparr>) ps) = List.map_filter part_call ps" for ps
    by (induction ps) (simp_all add: List.map_filter_def)
  have texts: "part_text \<circ> (\<lambda>p. p\<lparr>part_response := None\<rparr>) = part_text" by auto
  have role: "oai_map_role r \<noteq> ''tool''" if "r \<noteq> ''tool''" for r
    using that by (simp add: oai_map_role_def)
  show ?thesis
    using role [of "content_role c"]
    by (auto simp: oai_convert_content_def without_responses_def calls texts oai_extract_text_def
        oai_map_role_def Let_def split: option.split)
qed

theorem oai_responses_lost_witness:
  "oai_convert_content \<lparr>content_role = ''user'',
      content_parts = [\<lparr>part_text = ''so'', part_call = None, part_response = Some sample_answer\<rparr>]\<rparr> =
    \<lparr>msg_role = ''user'', msg_content = ''so'', msg_tool_calls = [], msg_tool_call_id = []\<rparr>"
  using oai_responses_lost [of "\<lparr>content_role = ''user'',
      content_parts = [\<lparr>part_text = ''so'', part_call = None, part_response = Some sample_answer\<rparr>]\<rparr>"]
  by (simp add: without_responses_def oai_convert_content_def oai_map_role_def oai_extract_text_def Let_def)

end
