(* ===== verification/Anthropic.thy ===== *)
theory Anthropic
  imports Middleware Sse RuntimeCfg
begin

text \<open>
  \<^verbatim>\<open>internal/runtime/providers/anthropic/anthropic.go\<close>: the Anthropic provider. Its types and
  their JSON, the conversion of requests and responses, the synchronous and the streaming
  call, and what comes out of a stream of typed events.
\<close>

section \<open>The model\<close>

definition ant_default_base :: string where "ant_default_base = ''https://api.anthropic.com/v1''"
definition ant_default_key_env :: string where "ant_default_key_env = ''ANTHROPIC_API_KEY''"
definition ant_api_version :: string where "ant_api_version = ''2023-06-01''"
definition ant_default_max_tokens :: int where "ant_default_max_tokens = 4096"

record ant_model =
  ant_id :: string
  ant_key :: string
  ant_base :: string
  ant_config :: model_config
  ant_client :: options

definition ant_key_missing :: string where
  "ant_key_missing = ''%s is not set '' @ [CHR 0xE2, CHR 0x80, CHR 0x94] @
     '' required for model %q (set it in your environment or use --env-file)''"

definition ant_create :: "platform \<Rightarrow> string \<Rightarrow> connect_config \<Rightarrow> model_config \<Rightarrow> goerr + ant_model" where
  "ant_create p model_id cc mc =
    (let key_env = (if cc_auth_env cc = [] then ant_default_key_env else cc_auth_env cc);
         key = getenv p key_env;
         base = (if cc_api_base cc = [] then ant_default_base else cc_api_base cc)
     in if key = [] \<and> base = ant_default_base then
          Inl (Errorf ant_key_missing [AStr key_env, AStr model_id])
        else Inr \<lparr>ant_id = model_id, ant_key = key, ant_base = base, ant_config = mc,
                  ant_client = with_defaults \<lparr>opt_timeout = 120 * 10 ^ 9, opt_max_body = 0,
                    opt_max_retries = 0, opt_logger = Some ''anthropic''\<rparr>\<rparr>)"

section \<open>Requests\<close>

text \<open>\<open>cb_input\<close> is an \<^verbatim>\<open>any\<close>; \<open>None\<close> is the empty interface.\<close>

record content_block =
  cb_type :: string
  cb_text :: string
  cb_id :: string
  cb_name :: string
  cb_input :: "json option"
  cb_tool_use_id :: string
  cb_content :: string

definition no_block :: content_block where
  "no_block = \<lparr>cb_type = [], cb_text = [], cb_id = [], cb_name = [], cb_input = None,
               cb_tool_use_id = [], cb_content = []\<rparr>"

record ant_message =
  am_role :: string
  am_content :: "content_block list"

record ant_tool =
  at_name :: string
  at_description :: string
  at_schema :: "json option"

record messages_request =
  mr_model :: string
  mr_messages :: "ant_message list"
  mr_system :: string
  mr_max_tokens :: int
  mr_temperature :: "gofloat option"
  mr_top_p :: "gofloat option"
  mr_tools :: "ant_tool list"
  mr_stream :: bool

definition ant_map_role :: "string \<Rightarrow> string" where
  "ant_map_role role =
    (if role = ''user'' then ''user'' else if role = ''model'' then ''assistant'' else role)"

definition ant_extract_text :: "content \<Rightarrow> string" where
  "ant_extract_text c =
    (case filter (\<lambda>s. s \<noteq> []) (map part_text (content_parts c)) of [] \<Rightarrow> [] | s # _ \<Rightarrow> s)"

definition ant_block_of :: "part \<Rightarrow> content_block option" where
  "ant_block_of part =
    (if part_text part \<noteq> [] then Some (no_block\<lparr>cb_type := ''text'', cb_text := part_text part\<rparr>)
     else case part_call part of
       Some fc \<Rightarrow> Some (no_block\<lparr>cb_type := ''tool_use'', cb_id := fc_id fc, cb_name := fc_name fc,
                                  cb_input := Some (enc_map (fc_args fc))\<rparr>)
     | None \<Rightarrow>
         (case part_response part of
            Some fr \<Rightarrow> Some (no_block\<lparr>cb_type := ''tool_result'',
                cb_tool_use_id := (if fr_id fr = [] then fr_name fr else fr_id fr),
                cb_content := marshal (enc_map (fr_response fr))\<rparr>)
          | None \<Rightarrow> None))"

fun ant_convert :: "content list \<Rightarrow> string \<times> ant_message list \<Rightarrow> string \<times> ant_message list" where
  "ant_convert [] (system, messages) = (system, messages)"
| "ant_convert (c # cs) (system, messages) =
    (let role = ant_map_role (content_role c) in
     if role = ''system'' then ant_convert cs (ant_extract_text c, messages)
     else (case List.map_filter ant_block_of (content_parts c) of
             [] \<Rightarrow> ant_convert cs (system, messages)
           | b # bs \<Rightarrow>
               (let role = (if cb_type b = ''tool_result'' then ''user'' else role)
                in ant_convert cs (system, messages @ [\<lparr>am_role = role, am_content = b # bs\<rparr>]))))"

definition ant_convert_contents :: "content list \<Rightarrow> string \<times> ant_message list" where
  "ant_convert_contents contents = ant_convert contents ([], [])"

definition ant_convert_tools :: "fun_decl list list \<Rightarrow> ant_tool list" where
  "ant_convert_tools tools =
    map (\<lambda>fd. \<lparr>at_name = fd_name fd, at_description = fd_description fd, at_schema = fd_parameters fd\<rparr>)
      (concat tools)"

definition ant_build_request :: "ant_model \<Rightarrow> llm_request \<Rightarrow> bool \<Rightarrow> messages_request" where
  "ant_build_request m req stream =
    (case ant_convert_contents (req_contents req) of (system, messages) \<Rightarrow>
     \<lparr>mr_model = ant_id m, mr_messages = messages, mr_system = system,
      mr_max_tokens = (case mc_max_tokens (ant_config m) of Some n \<Rightarrow> n | None \<Rightarrow> ant_default_max_tokens),
      mr_temperature = mc_temperature (ant_config m), mr_top_p = mc_top_p (ant_config m),
      mr_tools = (case req_config req of None \<Rightarrow> []
                  | Some c \<Rightarrow> if gc_tools c \<noteq> [] then ant_convert_tools (gc_tools c) else []),
      mr_stream = stream\<rparr>)"

definition enc_block :: "content_block \<Rightarrow> json" where
  "enc_block b = JObj
    ([(''type'', JStr (cb_type b))] @ omit_string ''text'' (cb_text b) @ omit_string ''id'' (cb_id b) @
     omit_string ''name'' (cb_name b) @
     (case cb_input b of None \<Rightarrow> [] | Some j \<Rightarrow> [(''input'', j)]) @
     omit_string ''tool_use_id'' (cb_tool_use_id b) @ omit_string ''content'' (cb_content b))"

definition enc_ant_message :: "ant_message \<Rightarrow> json" where
  "enc_ant_message msg = JObj
    [(''role'', JStr (am_role msg)), (''content'', enc_slice (map enc_block (am_content msg)))]"

definition enc_ant_tool :: "ant_tool \<Rightarrow> json" where
  "enc_ant_tool t = JObj
    ([(''name'', JStr (at_name t))] @ omit_string ''description'' (at_description t) @
     [(''input_schema'', enc_ptr (at_schema t))])"

definition enc_messages_request :: "messages_request \<Rightarrow> goerr + json" where
  "enc_messages_request r =
    and_then (omit_float ''temperature'' (mr_temperature r)) (\<lambda>temp.
    and_then (omit_float ''top_p'' (mr_top_p r)) (\<lambda>top_p. Inr (JObj
      ([(''model'', JStr (mr_model r)), (''messages'', enc_slice (map enc_ant_message (mr_messages r)))] @
       omit_string ''system'' (mr_system r) @
       [(''max_tokens'', JNum (itoa (mr_max_tokens r)))] @
       temp @ top_p @
       omit_list ''tools'' (map enc_ant_tool (mr_tools r)) @
       [(''stream'', JBool (mr_stream r))]))))"

definition ant_set_headers :: "ant_model \<Rightarrow> request \<Rightarrow> request" where
  "ant_set_headers m r =
    (let r = set_header ''Content-Type'' ''application/json'' r;
         r = (if ant_key m \<noteq> [] then set_header ''x-api-key'' (ant_key m) r else r)
     in set_header ''anthropic-version'' ant_api_version r)"

section \<open>Responses\<close>

record ant_usage =
  au_input :: int
  au_output :: int

record messages_response =
  ms_content :: "content_block list"
  ms_stop_reason :: string
  ms_usage :: "ant_usage option"

record block_start =
  bs_index :: int
  bs_block :: content_block

record block_delta =
  bd_index :: int
  bd_type :: string
  bd_text :: string
  bd_partial_json :: string

record message_delta =
  md_stop_reason :: string
  md_usage :: "ant_usage option"

definition dec_any :: "json option \<Rightarrow> json option" where
  "dec_any j = (case j of None \<Rightarrow> None | Some JNull \<Rightarrow> None | Some v \<Rightarrow> Some (canon v))"

definition dec_block :: "json option \<Rightarrow> content_block option" where
  "dec_block = dec_struct (\<lambda>ms. do {
     t \<leftarrow> dec_string (field ''type'' ms);
     s \<leftarrow> dec_string (field ''text'' ms);
     i \<leftarrow> dec_string (field ''id'' ms);
     n \<leftarrow> dec_string (field ''name'' ms);
     u \<leftarrow> dec_string (field ''tool_use_id'' ms);
     c \<leftarrow> dec_string (field ''content'' ms);
     Some \<lparr>cb_type = t, cb_text = s, cb_id = i, cb_name = n, cb_input = dec_any (field ''input'' ms),
           cb_tool_use_id = u, cb_content = c\<rparr>
   })"

definition dec_ant_usage :: "json option \<Rightarrow> ant_usage option" where
  "dec_ant_usage = dec_struct (\<lambda>ms. do {
     a \<leftarrow> dec_int (field ''input_tokens'' ms);
     b \<leftarrow> dec_int (field ''output_tokens'' ms);
     Some \<lparr>au_input = a, au_output = b\<rparr>
   })"

definition dec_messages_response :: "json \<Rightarrow> messages_response option" where
  "dec_messages_response j = dec_struct (\<lambda>ms. do {
     cs \<leftarrow> dec_list dec_block (field ''content'' ms);
     r \<leftarrow> dec_string (field ''stop_reason'' ms);
     u \<leftarrow> dec_ptr dec_ant_usage (field ''usage'' ms);
     Some \<lparr>ms_content = cs, ms_stop_reason = r, ms_usage = u\<rparr>
   }) (Some j)"

definition dec_block_start :: "json \<Rightarrow> block_start option" where
  "dec_block_start j = dec_struct (\<lambda>ms. do {
     k \<leftarrow> dec_int (field ''index'' ms);
     b \<leftarrow> dec_block (field ''content_block'' ms);
     Some \<lparr>bs_index = k, bs_block = b\<rparr>
   }) (Some j)"

definition dec_delta :: "json option \<Rightarrow> (string \<times> string \<times> string) option" where
  "dec_delta = dec_struct (\<lambda>ms. do {
     t \<leftarrow> dec_string (field ''type'' ms);
     s \<leftarrow> dec_string (field ''text'' ms);
     q \<leftarrow> dec_string (field ''partial_json'' ms);
     Some (t, s, q)
   })"

definition dec_block_delta :: "json \<Rightarrow> block_delta option" where
  "dec_block_delta j = dec_struct (\<lambda>ms. do {
     k \<leftarrow> dec_int (field ''index'' ms);
     (t, s, q) \<leftarrow> dec_delta (field ''delta'' ms);
     Some \<lparr>bd_index = k, bd_type = t, bd_text = s, bd_partial_json = q\<rparr>
   }) (Some j)"

definition dec_block_stop :: "json \<Rightarrow> int option" where
  "dec_block_stop j = dec_struct (\<lambda>ms. dec_int (field ''index'' ms)) (Some j)"

definition dec_message_delta :: "json \<Rightarrow> message_delta option" where
  "dec_message_delta j = dec_struct (\<lambda>ms. do {
     r \<leftarrow> dec_struct (\<lambda>ds. dec_string (field ''stop_reason'' ds)) (field ''delta'' ms);
     u \<leftarrow> dec_ptr dec_ant_usage (field ''usage'' ms);
     Some \<lparr>md_stop_reason = r, md_usage = u\<rparr>
   }) (Some j)"

definition ant_map_stop :: "string \<Rightarrow> finish_reason" where
  "ant_map_stop reason =
    (if reason = ''end_turn'' then FinishStop else if reason = ''tool_use'' then FinishStop
     else if reason = ''max_tokens'' then FinishMaxTokens else FinishStop)"

definition ant_usage_meta :: "ant_usage \<Rightarrow> usage_metadata" where
  "ant_usage_meta u =
    \<lparr>prompt_count = int32_of (au_input u), candidates_count = int32_of (au_output u),
     total_count = int32_of (wrap64 (au_input u + au_output u))\<rparr>"

definition ant_convert_input :: "json option \<Rightarrow> gomap" where
  "ant_convert_input input =
    (case input of
       Some (JObj ms) \<Rightarrow> Some ms
     | _ \<Rightarrow> snd (unmarshal_args (marshal (enc_ptr input))))"

definition ant_convert_sync :: "genai \<Rightarrow> messages_response \<Rightarrow> llm_response" where
  "ant_convert_sync g resp =
    (let parts = List.map_filter (\<lambda>b.
           if cb_type b = ''text'' then Some (text_part g (cb_text b))
           else if cb_type b = ''tool_use'' then Some (call_part g (cb_name b) (ant_convert_input (cb_input b)))
           else None) (ms_content resp)
     in \<lparr>lr_content = Some \<lparr>content_role = ''model'', content_parts = parts\<rparr>,
         lr_usage = map_option ant_usage_meta (ms_usage resp),
         lr_turn_complete = True, lr_finish = ant_map_stop (ms_stop_reason resp)\<rparr>)"

section \<open>The calls\<close>

definition ant_name :: "ant_model \<Rightarrow> string" where
  "ant_name m = ''anthropic/'' @ ant_id m"

definition ant_sync :: "platform \<Rightarrow> genai \<Rightarrow> ant_model \<Rightarrow> call \<Rightarrow> llm_request \<Rightarrow> (llm_item, 'w world_scheme) seq" where
  "ant_sync p g m c req y w =
    (case enc_messages_request (ant_build_request m req False) of
       Inl e \<Rightarrow> fail_with (Errorf ''marshaling anthropic request: %w'' [AErr e]) y w
     | Inr j \<Rightarrow>
    (case new_post p (ant_base m @ ''/messages'') (marshal j) of
       Inl e \<Rightarrow> fail_with (Errorf ''creating anthropic request: %w'' [AErr e]) y w
     | Inr http_req \<Rightarrow>
    (case do_request (ant_client m) (call_net c) (ant_set_headers m http_req) of
       (evs, Failed e) \<Rightarrow> fail_with (Errorf ''anthropic API call failed: %w'' [AErr e]) y (note_http evs w)
     | (evs, DoPanic) \<Rightarrow> (Panicked, note_http evs w)
     | (evs, Got None) \<Rightarrow> (Panicked, note_http evs w)
     | (evs, Got (Some resp)) \<Rightarrow> deferred (note_http [Closed])
    (case read_body (ant_client m) resp of
       Inl e \<Rightarrow> fail_with (Errorf ''reading anthropic response: %w'' [AErr e]) y (note_http evs w)
     | Inr body \<Rightarrow>
         if status resp \<noteq> 200 then
           fail_with (Errorf ''anthropic API error (HTTP %d): %s'' [AInt (status resp), AStr body]) y (note_http evs w)
         else
    (case Option.bind (parse body) dec_messages_response of
       None \<Rightarrow> fail_with (Errorf ''unmarshaling anthropic response: %w'' [AErr (json_error p body)]) y (note_http evs w)
     | Some r \<Rightarrow> yield_return (Some (ant_convert_sync g r), None) y (note_http evs w))))))"

text \<open>The local variables of the stream's loop.\<close>

record block_acc =
  ba_type :: string
  ba_id :: string
  ba_name :: string
  ba_json :: string

definition no_acc :: block_acc where
  "no_acc = \<lparr>ba_type = [], ba_id = [], ba_name = [], ba_json = []\<rparr>"

record ant_stream =
  as_blocks :: "block_acc list"
  as_usage :: "ant_usage option"
  as_reason :: string

definition ant_stream_start :: ant_stream where
  "ant_stream_start = \<lparr>as_blocks = [], as_usage = None, as_reason = []\<rparr>"

text \<open>Reading or writing a slice at an index below zero panics: \<open>None\<close>.\<close>

definition ant_on_start :: "block_start \<Rightarrow> ant_stream \<Rightarrow> ant_stream option" where
  "ant_on_start ev st =
    (let k = bs_index ev;
         blocks = as_blocks st @ replicate (nat (k + 1) - length (as_blocks st)) no_acc
     in if k < 0 then None
        else Some (st\<lparr>as_blocks := blocks[nat k := \<lparr>ba_type = cb_type (bs_block ev), ba_id = cb_id (bs_block ev),
                                                    ba_name = cb_name (bs_block ev), ba_json = []\<rparr>]\<rparr>))"

definition ant_on_json :: "block_delta \<Rightarrow> ant_stream \<Rightarrow> ant_stream option" where
  "ant_on_json ev st =
    (if bd_index ev < int (length (as_blocks st)) then
       (if bd_index ev < 0 then None
        else (let k = nat (bd_index ev); b = as_blocks st ! k
              in Some (st\<lparr>as_blocks := (as_blocks st)[k := b\<lparr>ba_json := ba_json b @ bd_partial_json ev\<rparr>]\<rparr>)))
     else Some st)"

definition ant_text_response :: "genai \<Rightarrow> string \<Rightarrow> llm_response" where
  "ant_text_response g s =
    \<lparr>lr_content = Some \<lparr>content_role = ''model'', content_parts = [text_part g s]\<rparr>,
     lr_usage = None, lr_turn_complete = False, lr_finish = NoReason\<rparr>"

definition ant_call_response :: "genai \<Rightarrow> block_acc \<Rightarrow> llm_response" where
  "ant_call_response g b =
    \<lparr>lr_content = Some \<lparr>content_role = ''model'',
        content_parts = [call_part g (ba_name b) (snd (unmarshal_args (ba_json b)))]\<rparr>,
     lr_usage = None, lr_turn_complete = False, lr_finish = NoReason\<rparr>"

definition ant_final :: "ant_stream \<Rightarrow> llm_response" where
  "ant_final st =
    \<lparr>lr_content = None, lr_usage = map_option ant_usage_meta (as_usage st),
     lr_turn_complete = True, lr_finish = ant_map_stop (as_reason st)\<rparr>"

definition go_on :: "signal \<times> 's \<Rightarrow> 'l \<Rightarrow> signal \<times> 'l \<times> 's" where
  "go_on r st = (case r of (sg, w) \<Rightarrow> (sg, (st, w)))"

definition ant_bad :: "platform \<Rightarrow> string \<Rightarrow> string \<Rightarrow> llm_item" where
  "ant_bad p what data = (None, Some (Errorf (''parsing '' @ what @ '': %w'') [AErr (json_error p data)]))"

text \<open>The body of the loop: the cases of the switch on the event's type.\<close>

definition ant_block_start_case :: "platform \<Rightarrow> (llm_item, 's) yield \<Rightarrow> string \<Rightarrow> ant_stream \<Rightarrow> 's \<Rightarrow> signal \<times> ant_stream \<times> 's" where
  "ant_block_start_case p y data st w =
    (case Option.bind (parse data) dec_block_start of
       None \<Rightarrow> yield_stop (ant_bad p ''content_block_start'' data) y st w
     | Some ev \<Rightarrow> (case ant_on_start ev st of None \<Rightarrow> (Panic, (st, w)) | Some st \<Rightarrow> (More, (st, w))))"

definition ant_block_delta_case :: "platform \<Rightarrow> genai \<Rightarrow> (llm_item, 's) yield \<Rightarrow> string \<Rightarrow> ant_stream \<Rightarrow> 's \<Rightarrow> signal \<times> ant_stream \<times> 's" where
  "ant_block_delta_case p g y data st w =
    (case Option.bind (parse data) dec_block_delta of
       None \<Rightarrow> yield_stop (ant_bad p ''content_block_delta'' data) y st w
     | Some ev \<Rightarrow>
         if bd_type ev = ''text_delta'' then go_on (y (Some (ant_text_response g (bd_text ev)), None) w) st
         else if bd_type ev = ''input_json_delta'' then
           (case ant_on_json ev st of None \<Rightarrow> (Panic, (st, w)) | Some st \<Rightarrow> (More, (st, w)))
         else (More, (st, w)))"

definition ant_block_stop_case :: "platform \<Rightarrow> genai \<Rightarrow> (llm_item, 's) yield \<Rightarrow> string \<Rightarrow> ant_stream \<Rightarrow> 's \<Rightarrow> signal \<times> ant_stream \<times> 's" where
  "ant_block_stop_case p g y data st w =
    (case Option.bind (parse data) dec_block_stop of
       None \<Rightarrow> yield_stop (ant_bad p ''content_block_stop'' data) y st w
     | Some k \<Rightarrow>
         if k < int (length (as_blocks st)) then
           (if k < 0 then (Panic, (st, w))
            else if ba_type (as_blocks st ! nat k) = ''tool_use'' then
              go_on (y (Some (ant_call_response g (as_blocks st ! nat k)), None) w) st
            else (More, (st, w)))
         else (More, (st, w)))"

definition ant_message_delta_case :: "platform \<Rightarrow> (llm_item, 's) yield \<Rightarrow> string \<Rightarrow> ant_stream \<Rightarrow> 's \<Rightarrow> signal \<times> ant_stream \<times> 's" where
  "ant_message_delta_case p y data st w =
    (case Option.bind (parse data) dec_message_delta of
       None \<Rightarrow> yield_stop (ant_bad p ''message_delta'' data) y st w
     | Some ev \<Rightarrow>
         (let st = st\<lparr>as_reason := md_stop_reason ev\<rparr>
          in (More, (if md_usage ev \<noteq> None then st\<lparr>as_usage := md_usage ev\<rparr> else st, w))))"

definition ant_body :: "platform \<Rightarrow> genai \<Rightarrow> (llm_item, 's) yield \<Rightarrow> (sse_item, ant_stream \<times> 's) yield" where
  "ant_body p g y x s =
    (case x of (event, err) \<Rightarrow>
     case s of (st, w) \<Rightarrow>
     case err of
       Some e \<Rightarrow> yield_stop (None, Some (Errorf ''reading anthropic stream: %w'' [AErr e])) y st w
     | None \<Rightarrow>
         if ev_type event = ''content_block_start'' then ant_block_start_case p y (ev_data event) st w
         else if ev_type event = ''content_block_delta'' then ant_block_delta_case p g y (ev_data event) st w
         else if ev_type event = ''content_block_stop'' then ant_block_stop_case p g y (ev_data event) st w
         else if ev_type event = ''message_delta'' then ant_message_delta_case p y (ev_data event) st w
         else if ev_type event = ''message_stop'' then yield_stop (Some (ant_final st), None) y st w
         else (More, (st, w)))"

definition ant_streaming :: "platform \<Rightarrow> genai \<Rightarrow> ant_model \<Rightarrow> call \<Rightarrow> llm_request \<Rightarrow> (llm_item, 'w world_scheme) seq" where
  "ant_streaming p g m c req y w =
    (case enc_messages_request (ant_build_request m req True) of
       Inl e \<Rightarrow> fail_with (Errorf ''marshaling anthropic request: %w'' [AErr e]) y w
     | Inr j \<Rightarrow>
    (case new_post p (ant_base m @ ''/messages'') (marshal j) of
       Inl e \<Rightarrow> fail_with (Errorf ''creating anthropic request: %w'' [AErr e]) y w
     | Inr http_req \<Rightarrow>
    (case do_stream (call_net c) (ant_set_headers m http_req) of
       (evs, Inl e) \<Rightarrow> fail_with (Errorf ''anthropic stream failed: %w'' [AErr e]) y (note_http evs w)
     | (evs, Inr resp) \<Rightarrow> deferred (note_http [Closed])
         (apsnd snd (sse_read max_line (resp_body resp) (ant_body p g y) (ant_stream_start, note_http evs w))))))"

definition ant_generate :: "platform \<Rightarrow> genai \<Rightarrow> ant_model \<Rightarrow> call \<Rightarrow> llm_request \<Rightarrow> bool \<Rightarrow> (llm_item, 'w world_scheme) seq" where
  "ant_generate p g m c req streaming =
    (if streaming then ant_streaming p g m c req else ant_sync p g m c req)"

definition ant_llm :: "platform \<Rightarrow> genai \<Rightarrow> ant_model \<Rightarrow> 'w world_scheme llm" where
  "ant_llm p g m = \<lparr>llm_name = ant_name m, generate = ant_generate p g m\<rparr>"

section \<open>What a call amounts to\<close>

text \<open>The stream's loop as a transducer of SSE items.\<close>

definition ant_event_step :: "platform \<Rightarrow> genai \<Rightarrow> event \<Rightarrow> ant_stream \<Rightarrow> llm_item list \<times> ant_stream verdict" where
  "ant_event_step p g event st =
    (let data = ev_data event; move = (\<lambda>r. case r of None \<Rightarrow> ([], Crashed) | Some st \<Rightarrow> ([], Continue st)) in
     if ev_type event = ''content_block_start'' then
       (case Option.bind (parse data) dec_block_start of
          None \<Rightarrow> ([ant_bad p ''content_block_start'' data], Halt) | Some ev \<Rightarrow> move (ant_on_start ev st))
     else if ev_type event = ''content_block_delta'' then
       (case Option.bind (parse data) dec_block_delta of
          None \<Rightarrow> ([ant_bad p ''content_block_delta'' data], Halt)
        | Some ev \<Rightarrow>
            if bd_type ev = ''text_delta'' then ([(Some (ant_text_response g (bd_text ev)), None)], Continue st)
            else if bd_type ev = ''input_json_delta'' then move (ant_on_json ev st)
            else ([], Continue st))
     else if ev_type event = ''content_block_stop'' then
       (case Option.bind (parse data) dec_block_stop of
          None \<Rightarrow> ([ant_bad p ''content_block_stop'' data], Halt)
        | Some k \<Rightarrow>
            if k < int (length (as_blocks st)) then
              (if k < 0 then ([], Crashed)
               else if ba_type (as_blocks st ! nat k) = ''tool_use''
               then ([(Some (ant_call_response g (as_blocks st ! nat k)), None)], Continue st)
               else ([], Continue st))
            else ([], Continue st))
     else if ev_type event = ''message_delta'' then
       (case Option.bind (parse data) dec_message_delta of
          None \<Rightarrow> ([ant_bad p ''message_delta'' data], Halt)
        | Some ev \<Rightarrow>
            ([], Continue (st\<lparr>as_reason := md_stop_reason ev,
                              as_usage := (case md_usage ev of None \<Rightarrow> as_usage st | u \<Rightarrow> u)\<rparr>)))
     else if ev_type event = ''message_stop'' then ([(Some (ant_final st), None)], Halt)
     else ([], Continue st))"

definition ant_step :: "platform \<Rightarrow> genai \<Rightarrow> (ant_stream, sse_item, llm_item) transducer" where
  "ant_step p g st x =
    (case snd x of
       Some e \<Rightarrow> ([(None, Some (Errorf ''reading anthropic stream: %w'' [AErr e]))], Halt)
     | None \<Rightarrow> ant_event_step p g (fst x) st)"

lemma yield_stop_emit: "agrees (yield_stop x y st w) (emit_then ([x], Halt) y st0 w)"
  by (cases "y x w"; cases "fst (y x w)") (simp_all add: yield_stop_def emit_then_def agrees_def del: drive.simps(2))

lemma go_on_emit: "agrees (go_on (y x w) st) (emit_then ([x], Continue st) y st w)"
  by (cases "y x w"; cases "fst (y x w)") (simp_all add: go_on_def emit_then_def agrees_def del: drive.simps(2))

lemma quiet_emit [simp]:
  "emit_then ([], Continue st') y st w = (More, (st', w))"
  "emit_then ([], Halt) y st w = (Stop, (st, w))"
  "emit_then ([], Crashed) y st w = (Panic, (st, w))"
  by (simp_all add: emit_then_def)

lemmas ant_cases = ant_block_start_case_def ant_block_delta_case_def ant_block_stop_case_def
  ant_message_delta_case_def

lemma ant_body_via: "agrees (ant_body p g y x s) (via (ant_step p g) y x s)"
proof -
  obtain event err st w where x: "x = (event, err)" and s: "s = (st, w)" by (cases x; cases s)
  show ?thesis
  proof (cases err)
    case (Some e)
    then show ?thesis by (simp add: x s ant_body_def ant_step_def via_def yield_stop_emit)
  next
    case None
    then show ?thesis
      by (auto simp: x s ant_body_def ant_step_def ant_event_step_def via_def ant_cases yield_stop_emit go_on_emit
          Let_def split: option.split)
  qed
qed

text \<open>The plans of the two calls.\<close>

definition ant_sync_answer :: "platform \<Rightarrow> genai \<Rightarrow> ant_model \<Rightarrow> response \<Rightarrow> llm_item" where
  "ant_sync_answer p g m resp =
    (case read_body (ant_client m) resp of
       Inl e \<Rightarrow> (None, Some (Errorf ''reading anthropic response: %w'' [AErr e]))
     | Inr body \<Rightarrow>
         if status resp \<noteq> 200 then
           (None, Some (Errorf ''anthropic API error (HTTP %d): %s'' [AInt (status resp), AStr body]))
         else (case Option.bind (parse body) dec_messages_response of
           None \<Rightarrow> (None, Some (Errorf ''unmarshaling anthropic response: %w'' [AErr (json_error p body)]))
         | Some r \<Rightarrow> (Some (ant_convert_sync g r), None)))"

definition ant_http_request :: "platform \<Rightarrow> ant_model \<Rightarrow> llm_request \<Rightarrow> bool \<Rightarrow> goerr + request" where
  "ant_http_request p m req streaming =
    (case enc_messages_request (ant_build_request m req streaming) of
       Inl e \<Rightarrow> Inl (Errorf ''marshaling anthropic request: %w'' [AErr e])
     | Inr j \<Rightarrow>
         (case new_post p (ant_base m @ ''/messages'') (marshal j) of
            Inl e \<Rightarrow> Inl (Errorf ''creating anthropic request: %w'' [AErr e])
          | Inr q \<Rightarrow> Inr (ant_set_headers m q)))"

definition ant_sync_plan :: "platform \<Rightarrow> genai \<Rightarrow> ant_model \<Rightarrow> call \<Rightarrow> llm_request \<Rightarrow> plan" where
  "ant_sync_plan p g m c req =
    (case ant_http_request p m req False of
       Inl e \<Rightarrow> fail_plan [] e []
     | Inr q \<Rightarrow>
         (case do_request (ant_client m) (call_net c) q of
            (evs, Failed e) \<Rightarrow> fail_plan evs (Errorf ''anthropic API call failed: %w'' [AErr e]) []
          | (evs, Got (Some resp)) \<Rightarrow>
              \<lparr>pl_before = evs, pl_items = [ant_sync_answer p g m resp], pl_crash = False, pl_after = [Closed]\<rparr>
          | (evs, _) \<Rightarrow> \<lparr>pl_before = evs, pl_items = [], pl_crash = True, pl_after = []\<rparr>))"

definition ant_stream_plan :: "platform \<Rightarrow> genai \<Rightarrow> ant_model \<Rightarrow> call \<Rightarrow> llm_request \<Rightarrow> plan" where
  "ant_stream_plan p g m c req =
    (case ant_http_request p m req True of
       Inl e \<Rightarrow> fail_plan [] e []
     | Inr q \<Rightarrow>
         (case do_stream (call_net c) q of
            (evs, Inl e) \<Rightarrow> fail_plan evs (Errorf ''anthropic stream failed: %w'' [AErr e]) []
          | (evs, Inr resp) \<Rightarrow>
              \<lparr>pl_before = evs,
               pl_items = transduce (ant_step p g) ant_stream_start (sse_items max_line (resp_body resp)),
               pl_crash = crashes (ant_step p g) ant_stream_start (sse_items max_line (resp_body resp)),
               pl_after = [Closed]\<rparr>))"

definition ant_plan :: "platform \<Rightarrow> genai \<Rightarrow> ant_model \<Rightarrow> call \<Rightarrow> llm_request \<Rightarrow> bool \<Rightarrow> plan" where
  "ant_plan p g m c req streaming =
    (if streaming then ant_stream_plan p g m c req else ant_sync_plan p g m c req)"

lemma ant_sync_run: "ant_sync p g m c req y w = run_plan (ant_sync_plan p g m c req) y w"
proof (cases "enc_messages_request (ant_build_request m req False)")
  case (Inl e)
  then show ?thesis by (simp add: ant_sync_def ant_sync_plan_def ant_http_request_def run_fail_plan)
next
  case j: (Inr j)
  show ?thesis
  proof (cases "new_post p (ant_base m @ ''/messages'') (marshal j)")
    case (Inl e)
    then show ?thesis using j by (simp add: ant_sync_def ant_sync_plan_def ant_http_request_def run_fail_plan)
  next
    case q: (Inr q)
    obtain evs r where d: "do_request (ant_client m) (call_net c) (ant_set_headers m q) = (evs, r)" by fastforce
    show ?thesis
    proof (cases r)
      case (Got ro)
      then show ?thesis using j q d
        by (cases ro)
           (auto simp: ant_sync_def ant_sync_plan_def ant_http_request_def run_crash run_answer
             ant_sync_answer_def fail_with_def split: sum.split option.split)
    qed (use j q d in \<open>simp_all add: ant_sync_def ant_sync_plan_def ant_http_request_def run_fail_plan run_crash\<close>)
  qed
qed

lemmas ant_loop = loop_via [OF sse.presents_axioms ant_body_via]

lemma ant_streaming_run: "ant_streaming p g m c req y w = run_plan (ant_stream_plan p g m c req) y w"
proof (cases "enc_messages_request (ant_build_request m req True)")
  case (Inl e)
  then show ?thesis by (simp add: ant_streaming_def ant_stream_plan_def ant_http_request_def run_fail_plan)
next
  case j: (Inr j)
  show ?thesis
  proof (cases "new_post p (ant_base m @ ''/messages'') (marshal j)")
    case (Inl e)
    then show ?thesis using j by (simp add: ant_streaming_def ant_stream_plan_def ant_http_request_def run_fail_plan)
  next
    case q: (Inr q)
    obtain evs r where d: "do_stream (call_net c) (ant_set_headers m q) = (evs, r)" by fastforce
    show ?thesis
    proof (cases r)
      case (Inl e)
      then show ?thesis using j q d
        by (simp add: ant_streaming_def ant_stream_plan_def ant_http_request_def run_fail_plan)
    next
      case (Inr resp)
      then show ?thesis using j q d
        by (simp add: ant_loop ant_streaming_def ant_stream_plan_def ant_http_request_def run_plan_def)
    qed
  qed
qed

lemma ant_generate_run: "ant_generate p g m c req streaming y w = run_plan (ant_plan p g m c req streaming) y w"
  by (simp add: ant_generate_def ant_plan_def ant_sync_run ant_streaming_run)

interpretation ant: llm_call "ant_generate p g m c req streaming"
    "pl_items (ant_plan p g m c req streaming)" "pl_crash (ant_plan p g m c req streaming)"
    "pl_before (ant_plan p g m c req streaming)" "pl_after (ant_plan p g m c req streaming)"
  by (rule plan_call) (rule ant_generate_run)

section \<open>What comes out of a stream\<close>

text \<open>
  A message as a server streams it, block by block: a text block with its deltas, or a
  \<^verbatim>\<open>tool_use\<close> block (ID, name, input) with the fragments of the text of its input.
\<close>

datatype block = TextBlock "string list" | ToolBlock string string gomap "string list"

fun block_ok :: "block \<Rightarrow> bool" where
  "block_ok (TextBlock ss) = True"
| "block_ok (ToolBlock i n a qs) = (canonical_map a \<and> concat qs = marshal (enc_map a))"

datatype srv =
    SStart nat string string string
  | SText nat string
  | SJson nat string
  | SStop nat
  | SDelta string "ant_usage option"
  | SEnd

definition speaks :: "sse_item \<Rightarrow> srv \<Rightarrow> bool" where
  "speaks x ev \<longleftrightarrow> snd x = None \<and>
    (let t = ev_type (fst x); j = parse (ev_data (fst x)) in
     case ev of
       SStart k ty i n \<Rightarrow> t = ''content_block_start'' \<and>
         (\<exists>b. Option.bind j dec_block_start = Some \<lparr>bs_index = int k, bs_block = b\<rparr> \<and>
           cb_type b = ty \<and> cb_id b = i \<and> cb_name b = n)
     | SText k s \<Rightarrow> t = ''content_block_delta'' \<and>
         (\<exists>q. Option.bind j dec_block_delta =
           Some \<lparr>bd_index = int k, bd_type = ''text_delta'', bd_text = s, bd_partial_json = q\<rparr>)
     | SJson k q \<Rightarrow> t = ''content_block_delta'' \<and>
         (\<exists>s. Option.bind j dec_block_delta =
           Some \<lparr>bd_index = int k, bd_type = ''input_json_delta'', bd_text = s, bd_partial_json = q\<rparr>)
     | SStop k \<Rightarrow> t = ''content_block_stop'' \<and> Option.bind j dec_block_stop = Some (int k)
     | SDelta r u \<Rightarrow> t = ''message_delta'' \<and>
         Option.bind j dec_message_delta = Some \<lparr>md_stop_reason = r, md_usage = u\<rparr>
     | SEnd \<Rightarrow> t = ''message_stop'')"

fun block_srv :: "nat \<Rightarrow> block \<Rightarrow> srv list" where
  "block_srv k (TextBlock ss) = SStart k ''text'' [] [] # map (SText k) ss @ [SStop k]"
| "block_srv k (ToolBlock i n a qs) = SStart k ''tool_use'' i n # map (SJson k) qs @ [SStop k]"

fun blocks_srv :: "nat \<Rightarrow> block list \<Rightarrow> srv list" where
  "blocks_srv k [] = []"
| "blocks_srv k (b # bs) = block_srv k b @ blocks_srv (Suc k) bs"

fun block_items :: "genai \<Rightarrow> block \<Rightarrow> llm_item list" where
  "block_items g (TextBlock ss) =
    map (\<lambda>s. (Some \<lparr>lr_content = Some \<lparr>content_role = ''model'', content_parts = [text_part g s]\<rparr>,
                   lr_usage = None, lr_turn_complete = False, lr_finish = NoReason\<rparr>, None)) ss"
| "block_items g (ToolBlock i n a qs) =
    [(Some \<lparr>lr_content = Some \<lparr>content_role = ''model'', content_parts = [call_part g n a]\<rparr>,
            lr_usage = None, lr_turn_complete = False, lr_finish = NoReason\<rparr>, None)]"

fun block_done :: "block \<Rightarrow> block_acc" where
  "block_done (TextBlock ss) = \<lparr>ba_type = ''text'', ba_id = [], ba_name = [], ba_json = []\<rparr>"
| "block_done (ToolBlock i n a qs) = \<lparr>ba_type = ''tool_use'', ba_id = i, ba_name = n, ba_json = concat qs\<rparr>"

text \<open>The step on what a server says.\<close>

definition srv_step :: "genai \<Rightarrow> ant_stream \<Rightarrow> srv \<Rightarrow> llm_item list \<times> ant_stream verdict" where
  "srv_step g st ev =
    (case ev of
       SStart k ty i n \<Rightarrow>
         ([], Continue (st\<lparr>as_blocks := (as_blocks st @ replicate (Suc k - length (as_blocks st)) no_acc)
            [k := \<lparr>ba_type = ty, ba_id = i, ba_name = n, ba_json = []\<rparr>]\<rparr>))
     | SText k s \<Rightarrow> ([(Some (ant_text_response g s), None)], Continue st)
     | SJson k q \<Rightarrow>
         ([], Continue (if k < length (as_blocks st)
            then st\<lparr>as_blocks := (as_blocks st)[k := (as_blocks st ! k)\<lparr>ba_json := ba_json (as_blocks st ! k) @ q\<rparr>]\<rparr>
            else st))
     | SStop k \<Rightarrow>
         ((if k < length (as_blocks st) \<and> ba_type (as_blocks st ! k) = ''tool_use''
           then [(Some (ant_call_response g (as_blocks st ! k)), None)] else []), Continue st)
     | SDelta r u \<Rightarrow> ([], Continue (st\<lparr>as_reason := r, as_usage := (case u of None \<Rightarrow> as_usage st | u \<Rightarrow> u)\<rparr>))
     | SEnd \<Rightarrow> ([(Some (ant_final st), None)], Halt))"

lemma ant_step_srv: "speaks x ev \<Longrightarrow> ant_step p g st x = srv_step g st ev"
  by (cases ev)
     (auto simp: speaks_def ant_step_def ant_event_step_def srv_step_def ant_on_start_def ant_on_json_def
       Let_def nat_add_distrib)

lemma transduce_srv_end:
  "list_all2 speaks xs (evs @ [SEnd]) \<Longrightarrow>
   transduce (ant_step p g) st (xs @ behind) = transduce (srv_step g) st (evs @ [SEnd]) \<and>
   crashes (ant_step p g) st (xs @ behind) = crashes (srv_step g) st (evs @ [SEnd])"
proof (induction evs arbitrary: st xs)
  case Nil
  then obtain x where "xs = [x]" "speaks x SEnd" by (auto simp: list_all2_Cons2)
  then show ?case by (simp add: ant_step_srv srv_step_def)
next
  case (Cons ev evs)
  then obtain x xs' where x: "xs = x # xs'" "speaks x ev" "list_all2 speaks xs' (evs @ [SEnd])"
    by (auto simp: list_all2_Cons2)
  obtain out v where "srv_step g st ev = (out, v)" by fastforce
  then show ?case using x Cons.IH [OF x(3)] ant_step_srv [OF x(2), of p g st] by (cases v) simp_all
qed

lemma srv_texts:
  "transduce (srv_step g) st (map (SText k) ss @ evs) =
     map (\<lambda>s. (Some (ant_text_response g s), None)) ss @ transduce (srv_step g) st evs \<and>
   crashes (srv_step g) st (map (SText k) ss @ evs) = crashes (srv_step g) st evs"
  by (induction ss) (simp_all add: srv_step_def)

lemma srv_jsons:
  "k < length (as_blocks st) \<Longrightarrow>
   \<exists>st'. st' = st\<lparr>as_blocks := (as_blocks st)[k := (as_blocks st ! k)\<lparr>ba_json := ba_json (as_blocks st ! k) @ concat qs\<rparr>]\<rparr> \<and>
     transduce (srv_step g) st (map (SJson k) qs @ evs) = transduce (srv_step g) st' evs \<and>
     crashes (srv_step g) st (map (SJson k) qs @ evs) = crashes (srv_step g) st' evs"
proof (induction qs arbitrary: st)
  case Nil
  then show ?case by simp
next
  case (Cons q qs)
  let ?st = "st\<lparr>as_blocks := (as_blocks st)[k := (as_blocks st ! k)\<lparr>ba_json := ba_json (as_blocks st ! k) @ q\<rparr>]\<rparr>"
  have "k < length (as_blocks ?st)" using Cons.prems by simp
  then show ?case using Cons.IH [of ?st] Cons.prems by (simp add: srv_step_def)
qed

text \<open>One block, then the rest.\<close>

lemma srv_block:
  assumes "length (as_blocks st) = k" "block_ok b"
  shows "transduce (srv_step g) st (block_srv k b @ evs) =
      block_items g b @ transduce (srv_step g) (st\<lparr>as_blocks := as_blocks st @ [block_done b]\<rparr>) evs \<and>
    crashes (srv_step g) st (block_srv k b @ evs) =
      crashes (srv_step g) (st\<lparr>as_blocks := as_blocks st @ [block_done b]\<rparr>) evs"
proof (cases b)
  case (TextBlock ss)
  have "(as_blocks st @ [a])[k := z] = as_blocks st @ [z]" for a z
    using assms list_update_length [of "as_blocks st" a "[]" z] by simp
  then show ?thesis using assms TextBlock by (simp add: srv_step_def srv_texts nth_append ant_text_response_def)
next
  case (ToolBlock i n a qs)
  let ?st = "st\<lparr>as_blocks := as_blocks st @ [\<lparr>ba_type = ''tool_use'', ba_id = i, ba_name = n, ba_json = []\<rparr>]\<rparr>"
  have "k < length (as_blocks ?st)" using assms by simp
  note js = srv_jsons [OF this, where g = g and qs = qs and evs = "SStop k # evs"]
  have "(as_blocks st @ [a])[k := z] = as_blocks st @ [z]" for a z
    using assms list_update_length [of "as_blocks st" a "[]" z] by simp
  moreover have "snd (unmarshal_args (concat qs)) = a"
    using assms(2) ToolBlock by (simp add: unmarshal_args_marshal)
  ultimately show ?thesis using js assms ToolBlock
    by (simp add: nth_append) (simp add: srv_step_def nth_append ant_call_response_def)
qed

lemma srv_blocks:
  "length (as_blocks st) = k \<Longrightarrow> \<forall>b \<in> set bs. block_ok b \<Longrightarrow>
   transduce (srv_step g) st (blocks_srv k bs @ evs) =
     concat (map (block_items g) bs) @
     transduce (srv_step g) (st\<lparr>as_blocks := as_blocks st @ map block_done bs\<rparr>) evs \<and>
   crashes (srv_step g) st (blocks_srv k bs @ evs) =
     crashes (srv_step g) (st\<lparr>as_blocks := as_blocks st @ map block_done bs\<rparr>) evs"
proof (induction bs arbitrary: st k)
  case Nil
  then show ?case by simp
next
  case (Cons b bs)
  let ?st = "st\<lparr>as_blocks := as_blocks st @ [block_done b]\<rparr>"
  have "length (as_blocks ?st) = Suc k" using Cons.prems by simp
  then show ?case
    using Cons.IH [of ?st "Suc k"] Cons.prems
      srv_block [OF Cons.prems(1), where g = g and b = b and evs = "blocks_srv (Suc k) bs @ evs"] by simp
qed

text \<open>
  A message streams through: for any list of text and \<^verbatim>\<open>tool_use\<close> blocks a server sends
  one after the other, then the stop reason with the usage and the end, the call yields every
  text delta, each tool call once its block is complete, with exactly the input whose text the
  server cut into fragments, and a final response with the stop reason and that usage; what follows is not
  read.
\<close>

lemma ant_message_streams:
  assumes "list_all2 speaks xs (blocks_srv 0 bs @ [SDelta reason u, SEnd])" "\<forall>b \<in> set bs. block_ok b"
  shows "transduce (ant_step p g) ant_stream_start (xs @ behind) =
      concat (map (block_items g) bs) @
      [(Some \<lparr>lr_content = None, lr_usage = map_option ant_usage_meta u, lr_turn_complete = True,
             lr_finish = ant_map_stop reason\<rparr>, None)] \<and>
    \<not> crashes (ant_step p g) ant_stream_start (xs @ behind)"
proof -
  let ?st = "ant_stream_start\<lparr>as_blocks := map block_done bs\<rparr>"
  let ?fin = "[SDelta reason u, SEnd]"
  have "list_all2 speaks xs ((blocks_srv 0 bs @ [SDelta reason u]) @ [SEnd])" using assms(1) by simp
  note run = transduce_srv_end [OF this, where p = p and g = g and st = ant_stream_start and behind = behind]
  have "length (as_blocks ant_stream_start) = 0" by (simp add: ant_stream_start_def)
  note bs = srv_blocks [OF this assms(2), where g = g and evs = ?fin]
  have "transduce (srv_step g) ?st ?fin =
      [(Some \<lparr>lr_content = None, lr_usage = map_option ant_usage_meta u, lr_turn_complete = True,
             lr_finish = ant_map_stop reason\<rparr>, None)] \<and> \<not> crashes (srv_step g) ?st ?fin"
    by (simp add: srv_step_def ant_final_def ant_stream_start_def split: option.split)
  then show ?thesis using run bs by (simp add: ant_stream_start_def)
qed

text \<open>
  The other events of a stream (\<^verbatim>\<open>message_start\<close>, with which every message begins, \<^verbatim>\<open>ping\<close>, and any type
  the provider does not know) are passed over, wherever they come.
\<close>

definition passed_over :: "sse_item \<Rightarrow> bool" where
  "passed_over x \<longleftrightarrow> snd x = None \<and> ev_type (fst x) \<notin>
    {''content_block_start'', ''content_block_delta'', ''content_block_stop'', ''message_delta'', ''message_stop''}"

lemma ant_step_passed_over: "passed_over x \<Longrightarrow> ant_step p g st x = ([], Continue st)"
  by (simp add: passed_over_def ant_step_def ant_event_step_def)

lemma ant_stream_with_others:
  assumes "list_all2 speaks (filter (\<lambda>x. \<not> passed_over x) xs) (blocks_srv 0 bs @ [SDelta reason u, SEnd])"
    and "\<forall>b \<in> set bs. block_ok b"
  shows "transduce (ant_step p g) ant_stream_start (xs @ behind) =
      concat (map (block_items g) bs) @
      [(Some \<lparr>lr_content = None, lr_usage = map_option ant_usage_meta u, lr_turn_complete = True,
             lr_finish = ant_map_stop reason\<rparr>, None)] \<and>
    \<not> crashes (ant_step p g) ant_stream_start (xs @ behind)"
  using ant_message_streams [OF assms, where p = p and g = g and behind = "filter (\<lambda>x. \<not> passed_over x) behind"]
    transduce_skip [of passed_over "ant_step p g", OF ant_step_passed_over, of ant_stream_start "xs @ behind"]
  by simp

text \<open>A response of a stream has a content or a usage, never both.\<close>

definition content_or_usage :: "llm_item \<Rightarrow> bool" where
  "content_or_usage item \<longleftrightarrow> (case fst item of None \<Rightarrow> True | Some r \<Rightarrow> lr_content r = None \<or> lr_usage r = None)"

lemma ant_step_content_or_usage: "\<forall>item \<in> set (fst (ant_step p g st x)). content_or_usage item"
  by (auto simp: content_or_usage_def ant_step_def ant_event_step_def ant_bad_def ant_text_response_def
    ant_call_response_def ant_final_def Let_def split: option.split)

lemma ant_stream_content_or_usage:
  "\<forall>item \<in> set (pl_items (ant_plan p g m c req True)). content_or_usage item"
  using transduce_all [of "ant_step p g", OF ant_step_content_or_usage]
  by (auto simp: ant_plan_def ant_stream_plan_def fail_plan_def content_or_usage_def split: sum.split prod.split)

text \<open>Frames as a server writes them.\<close>

definition typed_frame :: "string \<Rightarrow> (string \<times> json) list \<Rightarrow> sse_item" where
  "typed_frame t ms = (\<lparr>ev_type = t, ev_data = marshal (JObj ms)\<rparr>, None)"

lemma parse_typed_frame: "wf_json (JObj ms) \<Longrightarrow> parse (ev_data (fst (typed_frame t ms))) = Some (JObj ms)"
  unfolding typed_frame_def fst_conv event.simps by (rule parse_marshal)

lemma fold_ant [simp]:
  "fold_name ''index'' = ''INDEX''" "fold_name ''content_block'' = ''CONTENT_BLOCK''" "fold_name ''delta'' = ''DELTA''"
  "fold_name ''type'' = ''TYPE''" "fold_name ''text'' = ''TEXT''" "fold_name ''id'' = ''ID''"
  "fold_name ''name'' = ''NAME''" "fold_name ''input'' = ''INPUT''" "fold_name ''tool_use_id'' = ''TOOL_USE_ID''"
  "fold_name ''content'' = ''CONTENT''" "fold_name ''partial_json'' = ''PARTIAL_JSON''"
  "fold_name ''stop_reason'' = ''STOP_REASON''" "fold_name ''usage'' = ''USAGE''"
  "fold_name ''input_tokens'' = ''INPUT_TOKENS''" "fold_name ''output_tokens'' = ''OUTPUT_TOKENS''"
  by code_simp+

lemmas dec_ant = dec_block_start_def dec_block_delta_def dec_block_stop_def dec_message_delta_def
  dec_block_def dec_delta_def dec_ant_usage_def dec_any_def dec_struct_def dec_ptr_def dec_string_def dec_int_def

definition sample_message :: "sse_item list" where
  "sample_message =
    [typed_frame ''message_start'' [(''message'', JObj [(''role'', JStr ''assistant'')])],
     typed_frame ''content_block_start'' [(''index'', JNum ''0''),
       (''content_block'', JObj [(''type'', JStr ''tool_use''), (''id'', JStr ''t1''), (''name'', JStr ''add'')])],
     typed_frame ''ping'' [(''type'', JStr ''ping'')],
     typed_frame ''content_block_delta'' [(''index'', JNum ''0''),
       (''delta'', JObj [(''type'', JStr ''input_json_delta''), (''partial_json'', JStr ''{'')])],
     typed_frame ''content_block_delta'' [(''index'', JNum ''0''),
       (''delta'', JObj [(''type'', JStr ''input_json_delta''), (''partial_json'', JStr ''}'')])],
     typed_frame ''content_block_stop'' [(''index'', JNum ''0'')],
     typed_frame ''message_delta'' [(''delta'', JObj [(''stop_reason'', JStr ''tool_use'')]),
       (''usage'', JObj [(''output_tokens'', JNum ''7'')])],
     (\<lparr>ev_type = ''message_stop'', ev_data = ''{}''\<rparr>, None)]"

lemma num_samples: "num_ok ''0''" "num_ok ''7''" "parse_int ''0'' = Some 0" "parse_int ''7'' = Some 7"
  by code_simp+

lemma typed_frame_type [simp]: "ev_type (fst (typed_frame t ms)) = t" "snd (typed_frame t ms) = None"
  by (simp_all add: typed_frame_def)

lemma sample_spoken: "filter (\<lambda>x. \<not> passed_over x) sample_message = tl (filter (\<lambda>x. ev_type (fst x) \<noteq> ''ping'') sample_message)"
  by (simp add: sample_message_def passed_over_def)

lemma sample_speaks:
  "list_all2 speaks (filter (\<lambda>x. \<not> passed_over x) sample_message)
    (blocks_srv 0 [ToolBlock ''t1'' ''add'' (Some []) [''{'', ''}'']] @
     [SDelta ''tool_use'' (Some \<lparr>au_input = 0, au_output = 7\<rparr>), SEnd])"
proof -
  have wf: "wf_json (JObj ms)" if "\<forall>m \<in> set ms. utf8_valid (fst m) \<and> wf_json (snd m)" for ms
    using that by simp
  show ?thesis
    unfolding sample_spoken unfolding sample_message_def
    by (simp add: speaks_def Let_def parse_typed_frame text_simps num_samples)
       (simp add: typed_frame_def dec_ant field_Cons num_samples)
qed

lemma ant_message_streams_sample:
  "\<exists>f. transduce (ant_step bare_platform genai_lib) ant_stream_start sample_message =
    [(Some \<lparr>lr_content = Some \<lparr>content_role = ''model'', content_parts = [call_part genai_lib ''add'' (Some [])]\<rparr>,
            lr_usage = None, lr_turn_complete = False, lr_finish = NoReason\<rparr>, None),
     (Some f, None)] \<and> lr_turn_complete f \<and> lr_content f = None"
proof -
  have "\<forall>b \<in> set [ToolBlock ''t1'' ''add'' (Some []) [''{'', ''}'']]. block_ok b"
    by (simp add: canonical_map_def enc_map_def marshal_def)
  then show ?thesis
    using ant_stream_with_others [OF sample_speaks, of bare_platform genai_lib "[]"] by simp
qed

text \<open>
  The usage a response reports: every count is the server's, cut to 32 bits, and the total is
  the 32-bit sum of the other two, for any counts, wrap-around included.
\<close>

theorem ant_usage_total:
  "total_count (ant_usage_meta u) = prompt_count (ant_usage_meta u) + candidates_count (ant_usage_meta u)"
  by (simp add: ant_usage_meta_def) (simp add: int32_of_def)

text \<open>
  A content block with a negative index panics the call: on its start, on a JSON delta and
  on its stop.
\<close>

theorem ant_negative_index_panics:
  assumes "k < 0"
  shows "ant_on_start \<lparr>bs_index = k, bs_block = b\<rparr> st = None \<and>
    ant_on_json \<lparr>bd_index = k, bd_type = ty, bd_text = s, bd_partial_json = q\<rparr> st = None \<and>
    (ev_type e = ''content_block_stop'' \<and> Option.bind (parse (ev_data e)) dec_block_stop = Some k \<longrightarrow>
       crashes (ant_step p g) st ((e, None) # xs))"
  using assms by (simp add: ant_on_start_def ant_on_json_def ant_step_def ant_event_step_def Let_def)

theorem ant_negative_index_panics_witness:
  "ant_on_start \<lparr>bs_index = - 1, bs_block = no_block\<rparr> ant_stream_start = None"
  using ant_negative_index_panics [of "- 1" no_block ant_stream_start "[]" "[]" "[]" "\<lparr>ev_type = [], ev_data = []\<rparr>"
      bare_platform genai_lib "[]"] by simp

section \<open>Requests\<close>

definition is_system :: "content \<Rightarrow> bool" where
  "is_system c \<longleftrightarrow> content_role c = ''system''"

definition ant_message_of :: "content \<Rightarrow> ant_message option" where
  "ant_message_of c =
    (case List.map_filter ant_block_of (content_parts c) of
       [] \<Rightarrow> None
     | b # bs \<Rightarrow> Some \<lparr>am_role = (if cb_type b = ''tool_result'' then ''user'' else ant_map_role (content_role c)),
                      am_content = b # bs\<rparr>)"

lemma map_role_system: "ant_map_role (content_role c) = ''system'' \<longleftrightarrow> is_system c"
  by (simp add: ant_map_role_def is_system_def)

lemma ant_convert_acc:
  "ant_convert cs (system, messages) =
    (last (system # map ant_extract_text (filter is_system cs)),
     messages @ List.map_filter ant_message_of (filter (\<lambda>c. \<not> is_system c) cs))"
proof (induction cs arbitrary: system messages)
  case Nil
  then show ?case by (simp add: List.map_filter_def)
next
  case (Cons c cs)
  then show ?case
    by (cases "List.map_filter ant_block_of (content_parts c)")
       (auto simp: Let_def map_role_system ant_message_of_def List.map_filter_def)
qed

text \<open>
  C39. What the conversion keeps: the system prompt is the first text of the last content with
  role \<^verbatim>\<open>system\<close> (earlier ones, and further texts, are lost), and the messages are those of
  the other contents, in order, without the contents that have no block.
\<close>

theorem ant_convert_reference:
  "ant_convert_contents cs =
    (last ([] # map ant_extract_text (filter is_system cs)),
     List.map_filter ant_message_of (filter (\<lambda>c. \<not> is_system c) cs))"
  by (simp add: ant_convert_contents_def ant_convert_acc)

text \<open>
  The roles the API knows come from the roles \<^verbatim>\<open>user\<close>, \<^verbatim>\<open>model\<close> and \<^verbatim>\<open>system\<close>, and from any content that
  opens with a tool's result: its first part with a text, a call or a response has a response only.
\<close>

definition opens_with_result :: "content \<Rightarrow> bool" where
  "opens_with_result c \<longleftrightarrow>
    (case filter (\<lambda>q. part_text q \<noteq> [] \<or> part_call q \<noteq> None \<or> part_response q \<noteq> None) (content_parts c) of
       [] \<Rightarrow> False | q # _ \<Rightarrow> part_text q = [] \<and> part_call q = None)"

definition known_role :: "content \<Rightarrow> bool" where
  "known_role c \<longleftrightarrow> content_role c \<in> {''user'', ''model'', ''system''} \<or> opens_with_result c"

lemma block_of_some: "ant_block_of q \<noteq> None \<longleftrightarrow> part_text q \<noteq> [] \<or> part_call q \<noteq> None \<or> part_response q \<noteq> None"
  by (auto simp: ant_block_of_def split: option.split)

lemma first_block:
  "List.map_filter ant_block_of ps = b # bs \<Longrightarrow>
    \<exists>q qs. filter (\<lambda>q. part_text q \<noteq> [] \<or> part_call q \<noteq> None \<or> part_response q \<noteq> None) ps = q # qs \<and> ant_block_of q = Some b"
  unfolding block_of_some [symmetric]
  by (induction ps) (auto simp: List.map_filter_simps split: option.splits)

lemma known_role_sent:
  assumes "\<not> is_system c" "known_role c" "ant_message_of c = Some m"
  shows "am_role m \<in> {''user'', ''assistant''}"
proof -
  obtain b bs where b: "List.map_filter ant_block_of (content_parts c) = b # bs"
    and m: "am_role m = (if cb_type b = ''tool_result'' then ''user'' else ant_map_role (content_role c))"
    using assms(3) by (auto simp: ant_message_of_def split: list.splits)
  obtain q qs where q: "filter (\<lambda>q. part_text q \<noteq> [] \<or> part_call q \<noteq> None \<or> part_response q \<noteq> None) (content_parts c) = q # qs"
    "ant_block_of q = Some b"
    using first_block [OF b] by blast
  have "cb_type b = ''tool_result''" if "opens_with_result c"
    using that q by (auto simp: opens_with_result_def ant_block_of_def no_block_def split: option.splits)
  then show ?thesis using assms(1,2) m by (auto simp: known_role_def is_system_def ant_map_role_def)
qed

text \<open>
  C15. What the API demands of a message holds of every message sent: it has content; every block in it
  is of one of the three types, with text exactly where it is a text; a message that opens with a tool
  result is the user's; none has the role \<^verbatim>\<open>system\<close> or \<^verbatim>\<open>model\<close>; and when every content has a role of
  genai's or opens with a tool's result, every message is the user's or the assistant's. (Any other
  role, such as \<^verbatim>\<open>tool\<close> on a text, is sent as it is.)
\<close>

theorem ant_messages_wellformed:
  assumes "m \<in> set (snd (ant_convert_contents cs))"
  shows "am_content m \<noteq> [] \<and> am_role m \<noteq> ''system'' \<and> am_role m \<noteq> ''model'' \<and>
    ((\<forall>c \<in> set cs. known_role c) \<longrightarrow> am_role m \<in> {''user'', ''assistant''}) \<and>
    (cb_type (hd (am_content m)) = ''tool_result'' \<longrightarrow> am_role m = ''user'') \<and>
    (\<forall>b \<in> set (am_content m). cb_type b \<in> {''text'', ''tool_use'', ''tool_result''} \<and>
       (cb_type b = ''text'' \<longleftrightarrow> cb_text b \<noteq> []))"
proof -
  have "\<exists>c \<in> set cs. \<not> is_system c \<and> ant_message_of c = Some m"
    using assms by (auto simp: ant_convert_contents_def ant_convert_acc List.map_filter_def)
  then obtain c where c: "\<not> is_system c" "ant_message_of c = Some m" and cs: "c \<in> set cs" by blast
  then obtain b bs where bs: "List.map_filter ant_block_of (content_parts c) = b # bs"
    and m: "m = \<lparr>am_role = (if cb_type b = ''tool_result'' then ''user'' else ant_map_role (content_role c)),
                 am_content = b # bs\<rparr>"
    by (auto simp: ant_message_of_def split: list.splits)
  have kinds: "cb_type d \<in> {''text'', ''tool_use'', ''tool_result''} \<and> (cb_type d = ''text'' \<longleftrightarrow> cb_text d \<noteq> [])"
    if "ant_block_of q = Some d" for q d
    using that by (auto simp: ant_block_of_def no_block_def split: if_splits option.splits)
  have "set (b # bs) \<subseteq> {d. \<exists>q. ant_block_of q = Some d}"
    unfolding bs [symmetric] by (auto simp: List.map_filter_def)
  then have "\<forall>d \<in> set (b # bs). cb_type d \<in> {''text'', ''tool_use'', ''tool_result''} \<and> (cb_type d = ''text'' \<longleftrightarrow> cb_text d \<noteq> [])"
    using kinds by blast
  moreover have "ant_map_role (content_role c) \<noteq> ''model''" by (simp add: ant_map_role_def)
  moreover have "am_role m \<in> {''user'', ''assistant''}" if "\<forall>c \<in> set cs. known_role c"
    using known_role_sent [OF c(1) _ c(2)] that cs by blast
  ultimately show ?thesis using c(1) map_role_system [of c] by (auto simp: m)
qed

definition tool_turn :: "content list" where
  "tool_turn =
    [\<lparr>content_role = ''model'', content_parts = [\<lparr>part_text = [],
        part_call = Some \<lparr>fc_id = [], fc_name = ''add'', fc_args = Some []\<rparr>, part_response = None\<rparr>]\<rparr>,
     \<lparr>content_role = ''tool'', content_parts = [\<lparr>part_text = [], part_call = None,
        part_response = Some \<lparr>fr_id = [], fr_name = ''add'', fr_response = Some []\<rparr>\<rparr>]\<rparr>]"

theorem ant_messages_wellformed_witness:
  "let ms = snd (ant_convert_contents tool_turn) in
    am_role (ms ! 1) = ''user'' \<and> (am_role (ms ! 0) = ''user'' \<or> am_role (ms ! 0) = ''assistant'')"
proof -
  have t: "snd (ant_convert_contents tool_turn) =
      [\<lparr>am_role = ''assistant'', am_content = [no_block\<lparr>cb_type := ''tool_use'', cb_name := ''add'', cb_input := Some (JObj [])\<rparr>]\<rparr>,
       \<lparr>am_role = ''user'', am_content = [no_block\<lparr>cb_type := ''tool_result'', cb_tool_use_id := ''add'', cb_content := ''{}''\<rparr>]\<rparr>]"
    by (simp add: tool_turn_def ant_convert_contents_def ant_map_role_def ant_block_of_def no_block_def
        List.map_filter_def enc_map_def marshal_def Let_def)
  have "\<forall>c \<in> set tool_turn. known_role c"
    by (simp add: tool_turn_def known_role_def opens_with_result_def)
  then show ?thesis
    using ant_messages_wellformed [of "snd (ant_convert_contents tool_turn) ! 1" tool_turn]
      ant_messages_wellformed [of "snd (ant_convert_contents tool_turn) ! 0" tool_turn]
    by (simp add: t)
qed

text \<open>
  A call without an ID, and the answer to it: the answer falls back on the name of the
  call, the call itself does not, so the two no longer match and the call is sent without
  an ID at all. With an ID they match.
\<close>

theorem ant_ids:
  assumes "part_text pc = []" "part_call pc = Some fc"
    and "part_text pr = []" "part_call pr = None" "part_response pr = Some fr"
    and "fr_id fr = fc_id fc" "fr_name fr = fc_name fc" "fc_name fc \<noteq> []"
  shows "\<exists>b1 b2. snd (ant_convert_contents
      [\<lparr>content_role = ''model'', content_parts = [pc]\<rparr>, \<lparr>content_role = ''user'', content_parts = [pr]\<rparr>]) =
      [\<lparr>am_role = ''assistant'', am_content = [b1]\<rparr>, \<lparr>am_role = ''user'', am_content = [b2]\<rparr>] \<and>
    cb_type b1 = ''tool_use'' \<and> cb_type b2 = ''tool_result'' \<and>
    (cb_id b1 = cb_tool_use_id b2 \<longleftrightarrow> fc_id fc \<noteq> [])"
  using assms
  by (auto simp: ant_convert_contents_def ant_map_role_def ant_block_of_def no_block_def List.map_filter_def Let_def)

theorem ant_ids_witness:
  "\<exists>b1 b2. snd (ant_convert_contents
      [\<lparr>content_role = ''model'', content_parts = [\<lparr>part_text = [],
         part_call = Some \<lparr>fc_id = [], fc_name = ''add'', fc_args = None\<rparr>, part_response = None\<rparr>]\<rparr>,
       \<lparr>content_role = ''user'', content_parts = [\<lparr>part_text = [], part_call = None,
         part_response = Some \<lparr>fr_id = [], fr_name = ''add'', fr_response = None\<rparr>\<rparr>]\<rparr>]) =
      [\<lparr>am_role = ''assistant'', am_content = [b1]\<rparr>, \<lparr>am_role = ''user'', am_content = [b2]\<rparr>] \<and>
    cb_id b1 \<noteq> cb_tool_use_id b2"
  using ant_ids
    [of "\<lparr>part_text = [], part_call = Some \<lparr>fc_id = [], fc_name = ''add'', fc_args = None\<rparr>, part_response = None\<rparr>"
        "\<lparr>fc_id = [], fc_name = ''add'', fc_args = None\<rparr>"
        "\<lparr>part_text = [], part_call = None, part_response = Some \<lparr>fr_id = [], fr_name = ''add'', fr_response = None\<rparr>\<rparr>"
        "\<lparr>fr_id = [], fr_name = ''add'', fr_response = None\<rparr>"]
  by fastforce

section \<open>Whole calls\<close>

lemma ant_created_client:
  "ant_create p i cc mc = Inr m \<Longrightarrow> opt_max_retries (ant_client m) = 3 \<and> opt_max_body (ant_client m) = 10485760"
  by (auto simp: ant_create_def Let_def with_defaults_def default_max_retries_def default_max_body_def
      split: if_splits)

text \<open>
  A synchronous call of a model that \<^verbatim>\<open>CreateModel\<close> made neither panics nor stays silent:
  it yields exactly one item, either a complete response or an error.
\<close>

theorem ant_sync_total:
  assumes "ant_create p i cc mc = Inr m"
  shows "pl_crash (ant_plan p g m c req False) = False \<and>
    (\<exists>item. pl_items (ant_plan p g m c req False) = [item] \<and>
      (case item of (Some r, None) \<Rightarrow> lr_turn_complete r | (None, Some e) \<Rightarrow> True | _ \<Rightarrow> False))"
proof (cases "ant_http_request p m req False")
  case (Inl e)
  then show ?thesis by (simp add: ant_plan_def ant_sync_plan_def fail_plan_def)
next
  case (Inr q)
  have one: "case ant_sync_answer p g m resp of (Some r, None) \<Rightarrow> lr_turn_complete r | (None, Some e) \<Rightarrow> True | _ \<Rightarrow> False" for resp
    by (auto simp: ant_sync_answer_def ant_convert_sync_def Let_def split: sum.split option.split list.split)
  obtain evs r where d: "do_request (ant_client m) (call_net c) q = (evs, r)" by fastforce
  then have "(\<exists>e. r = Failed e) \<or> (\<exists>resp. r = Got (Some resp))"
    using do_request_ends [of "ant_client m" "call_net c" q] ant_created_client [OF assms] by simp
  then show ?thesis
  proof
    assume "\<exists>e. r = Failed e"
    then show ?thesis using Inr d by (auto simp: ant_plan_def ant_sync_plan_def fail_plan_def)
  next
    assume "\<exists>resp. r = Got (Some resp)"
    then obtain resp where "r = Got (Some resp)" ..
    then show ?thesis
      using Inr d one [of resp] by (simp add: ant_plan_def ant_sync_plan_def)
  qed
qed

text \<open>The body of every response the client hands over is closed, once and last.\<close>

lemma ant_closes_body:
  assumes "\<And>x s. http_log (snd (y x s)) = http_log s" "http_log w = []"
  shows "http_log (snd (ant_generate p g m c req streaming y w)) =
    (case ant_http_request p m req streaming of
       Inl e \<Rightarrow> []
     | Inr q \<Rightarrow>
         if streaming then
           (case do_stream (call_net c) q of (evs, Inl e) \<Rightarrow> evs | (evs, Inr resp) \<Rightarrow> evs @ [Closed])
         else
           (case do_request (ant_client m) (call_net c) q of
              (evs, Got (Some resp)) \<Rightarrow> evs @ [Closed] | (evs, _) \<Rightarrow> evs))"
proof -
  have "http_log (snd (ant_generate p g m c req streaming y w)) =
    pl_before (ant_plan p g m c req streaming) @ pl_after (ant_plan p g m c req streaming)"
    using ant.traffic [where y = y and w = w] assms by simp
  then show ?thesis
    by (auto simp: ant_plan_def ant_stream_plan_def ant_sync_plan_def fail_plan_def
        split: sum.split prod.split do_result.split option.split)
qed

definition keyed_env :: platform where
  "keyed_env = bare_platform\<lparr>getenv := (\<lambda>_. ''sk'')\<rparr>"

definition plain_config :: model_config where
  "plain_config = \<lparr>mc_name = ''m'', mc_model = ''anthropic/claude'', mc_temperature = None,
                   mc_max_tokens = None, mc_top_p = None\<rparr>"

definition empty_cc :: connect_config where
  "empty_cc = \<lparr>cc_api_base = [], cc_auth_env = [], cc_host_env = []\<rparr>"

theorem ant_sync_total_witness:
  "\<exists>m item. ant_create keyed_env ''claude'' empty_cc plain_config = Inr m \<and>
    pl_items (ant_plan keyed_env genai_lib m live_call \<lparr>req_contents = [], req_config = None\<rparr> False) = [item]"
proof -
  obtain m where "ant_create keyed_env ''claude'' empty_cc plain_config = Inr m"
    by (simp add: ant_create_def keyed_env_def Let_def)
  then show ?thesis using ant_sync_total by blast
qed

end
