(* ===== verification/Gemini.thy ===== *)
theory Gemini
  imports Middleware
begin

text \<open>
  \<^verbatim>\<open>internal/runtime/providers/gemini/gemini.go\<close>: the Gemini provider: the chain of API
  key variables and the decorator that merges the tuning of the Agentfile into each
  request. The model itself (\<^verbatim>\<open>gemini.NewModel\<close>) and the narrowing of a float to 32 bits
  are arguments.
\<close>

section \<open>Creation\<close>

definition gem_key :: "platform \<Rightarrow> connect_config \<Rightarrow> string" where
  "gem_key p cc =
    (let key = (if cc_auth_env cc \<noteq> [] then getenv p (cc_auth_env cc) else []);
         key = (if key = [] then getenv p ''GOOGLE_API_KEY'' else key)
     in if key = [] then getenv p ''GEMINI_API_KEY'' else key)"

definition gem_config :: "(gofloat \<Rightarrow> gofloat) \<Rightarrow> model_config \<Rightarrow> gen_config option" where
  "gem_config narrow mc =
    (if mc_temperature mc \<noteq> None \<or> mc_max_tokens mc \<noteq> None \<or> mc_top_p mc \<noteq> None then
       Some \<lparr>gc_tools = [], gc_temperature = map_option narrow (mc_temperature mc),
             gc_max_tokens = (case mc_max_tokens mc of None \<Rightarrow> 0 | Some n \<Rightarrow> int32_of n),
             gc_top_p = map_option narrow (mc_top_p mc)\<rparr>
     else None)"

text \<open>The merge writes into the request the caller passed.\<close>

definition gem_merge :: "gen_config \<Rightarrow> llm_request \<Rightarrow> llm_request" where
  "gem_merge cfg req =
    (case req_config req of
       None \<Rightarrow> req\<lparr>req_config := Some cfg\<rparr>
     | Some rc \<Rightarrow>
         (let rc = (if gc_temperature cfg \<noteq> None \<and> gc_temperature rc = None
                    then rc\<lparr>gc_temperature := gc_temperature cfg\<rparr> else rc);
              rc = (if gc_max_tokens cfg \<noteq> 0 \<and> gc_max_tokens rc = 0
                    then rc\<lparr>gc_max_tokens := gc_max_tokens cfg\<rparr> else rc);
              rc = (if gc_top_p cfg \<noteq> None \<and> gc_top_p rc = None
                    then rc\<lparr>gc_top_p := gc_top_p cfg\<rparr> else rc)
          in req\<lparr>req_config := Some rc\<rparr>))"

definition gem_configured :: "gen_config \<Rightarrow> 's llm \<Rightarrow> 's llm" where
  "gem_configured cfg inner =
    \<lparr>llm_name = llm_name inner,
     generate = (\<lambda>c req streaming. generate inner c (gem_merge cfg req) streaming)\<rparr>"

definition gem_create :: "platform \<Rightarrow> (gofloat \<Rightarrow> gofloat) \<Rightarrow> (string \<Rightarrow> string \<Rightarrow> goerr + 's llm)
    \<Rightarrow> string \<Rightarrow> connect_config \<Rightarrow> model_config \<Rightarrow> goerr + 's llm" where
  "gem_create p narrow new_model model_id cc mc =
    (if gem_key p cc = [] then
       Inl (Errorf ''GOOGLE_API_KEY or GEMINI_API_KEY environment variable required for gemini provider'' [])
     else case new_model model_id (gem_key p cc) of
       Inl e \<Rightarrow> Inl (Errorf ''creating gemini model %q: %w'' [AStr model_id, AErr e])
     | Inr m \<Rightarrow>
         (case gem_config narrow mc of Some cfg \<Rightarrow> Inr (gem_configured cfg m) | None \<Rightarrow> Inr m))"

section \<open>The merge\<close>

definition first_set :: "'a option \<Rightarrow> 'a option \<Rightarrow> 'a option" where
  "first_set a b = (case a of None \<Rightarrow> b | Some x \<Rightarrow> Some x)"

text \<open>
  The merge, field by field: a setting the request has wins over the Agentfile's, which
  fills in for one that is missing (for the token limit, zero is missing); the tools and the
  contents of the request are never touched, and merging twice is merging once.
\<close>

theorem gem_merge_fields:
  "\<exists>rc. req_config (gem_merge cfg req) = Some rc \<and>
    gc_temperature rc = first_set (Option.bind (req_config req) gc_temperature) (gc_temperature cfg) \<and>
    gc_top_p rc = first_set (Option.bind (req_config req) gc_top_p) (gc_top_p cfg) \<and>
    gc_max_tokens rc = (case req_config req of None \<Rightarrow> gc_max_tokens cfg
      | Some r \<Rightarrow> if gc_max_tokens r = 0 then gc_max_tokens cfg else gc_max_tokens r) \<and>
    gc_tools rc = (case req_config req of None \<Rightarrow> gc_tools cfg | Some r \<Rightarrow> gc_tools r) \<and>
    req_contents (gem_merge cfg req) = req_contents req \<and>
    gem_merge cfg (gem_merge cfg req) = gem_merge cfg req"
proof (cases "req_config req")
  case None
  then show ?thesis by (cases req) (simp add: gem_merge_def first_set_def Let_def)
next
  case (Some rc)
  then show ?thesis
    by (cases "gc_temperature rc"; cases "gc_top_p rc"; cases "gc_temperature cfg"; cases "gc_top_p cfg")
       (simp_all add: gem_merge_def first_set_def Let_def)
qed

text \<open>
  The token limit loses everything above 32 bits: the limit that reaches the model for a
  request without one of its own is the Agentfile's number modulo \<open>2\<^sup>3\<^sup>2\<close>, so that a
  multiple of \<open>2\<^sup>3\<^sup>2\<close> sets no limit at all.
\<close>

theorem gem_tokens_wrap:
  assumes "mc_max_tokens mc = Some n" "req_config req = Some rc" "gc_max_tokens rc = 0"
  shows "\<exists>cfg rc'. gem_config narrow mc = Some cfg \<and> req_config (gem_merge cfg req) = Some rc' \<and>
    unat (gc_max_tokens rc') = nat (n mod 2 ^ 32)"
proof -
  have u: "unat (int32_of n) = nat (n mod 2 ^ 32)"
    by (simp add: int32_of_def unsigned_of_int take_bit_eq_mod)
  obtain cfg where cfg: "gem_config narrow mc = Some cfg" "gc_max_tokens cfg = int32_of n"
    using assms(1) by (simp add: gem_config_def)
  obtain rc' where rc': "req_config (gem_merge cfg req) = Some rc'" "gc_max_tokens rc' = gc_max_tokens cfg"
    using assms(2,3) by (simp add: gem_merge_def Let_def)
  show ?thesis using u cfg rc' by simp
qed

theorem gem_tokens_wrap_witness:
  "\<exists>cfg rc'. gem_config id \<lparr>mc_name = ''g'', mc_model = ''gemini/pro'', mc_temperature = None,
      mc_max_tokens = Some (2 ^ 32 + 5), mc_top_p = None\<rparr> = Some cfg \<and>
    req_config (gem_merge cfg \<lparr>req_contents = [], req_config = Some
      \<lparr>gc_tools = [], gc_temperature = None, gc_max_tokens = 0, gc_top_p = None\<rparr>\<rparr>) = Some rc' \<and>
    unat (gc_max_tokens rc') = 5"
  using gem_tokens_wrap
    [of "\<lparr>mc_name = ''g'', mc_model = ''gemini/pro'', mc_temperature = None, mc_max_tokens = Some (2 ^ 32 + 5), mc_top_p = None\<rparr>"
        "2 ^ 32 + 5" "\<lparr>req_contents = [], req_config = Some
      \<lparr>gc_tools = [], gc_temperature = None, gc_max_tokens = 0, gc_top_p = None\<rparr>\<rparr>"
        "\<lparr>gc_tools = [], gc_temperature = None, gc_max_tokens = 0, gc_top_p = None\<rparr>" id] by simp

text \<open>The key comes from the first variable of the chain that is set; none set is an error.\<close>

lemma gem_create_error:
  "(\<exists>e. gem_create p narrow new_model i cc mc = Inl e) \<longleftrightarrow>
    gem_key p cc = [] \<or> (\<exists>e. new_model i (gem_key p cc) = Inl e)"
  by (auto simp: gem_create_def split: sum.split option.split)

lemma gem_key_chain:
  "gem_key p cc = hd (filter (\<lambda>k. k \<noteq> []) [if cc_auth_env cc \<noteq> [] then getenv p (cc_auth_env cc) else [],
      getenv p ''GOOGLE_API_KEY'', getenv p ''GEMINI_API_KEY''] @ [[]])"
  by (simp add: gem_key_def Let_def)

end
