(* ===== verification/Registry.thy ===== *)
theory Registry
  imports Prelude
begin

text \<open>
  The interface the two registries of the program share (model providers, frontends):
  registration under a name, which a second registration of the name does not replace, lookup,
  and the list of names. The lemmas about lists of registrations, which is what the
  \<^verbatim>\<open>init\<close> functions of the program amount to, are proved here once.
\<close>

locale registry =
  fixes register :: "'a \<Rightarrow> 'm \<Rightarrow> goerr option \<times> 'm"
    and get :: "string \<Rightarrow> 'm \<Rightarrow> 'a option"
    and names :: "'m \<Rightarrow> string list"
    and name_of :: "'a \<Rightarrow> string"
    and empty :: "'m"
  assumes get_empty: "get n empty = None"
    and register_new: "get (name_of p) m = None \<Longrightarrow>
      \<exists>m'. register p m = (None, m') \<and> (\<forall>n. get n m' = (if n = name_of p then Some p else get n m))"
    and register_dup: "get (name_of p) m = Some q \<Longrightarrow> \<exists>e. register p m = (Some e, m)"
    and names_get: "n \<in> set (names m) \<longleftrightarrow> get n m \<noteq> None"
begin

definition register_all :: "'a list \<Rightarrow> 'm \<Rightarrow> 'm" where
  "register_all ps m = foldl (\<lambda>m p. snd (register p m)) m ps"

lemma register_get:
  "get n (snd (register p m)) =
    (case get n m of Some q \<Rightarrow> Some q | None \<Rightarrow> if n = name_of p then Some p else None)"
proof (cases "get (name_of p) m")
  case None
  then obtain m' where "register p m = (None, m')" "\<forall>n. get n m' = (if n = name_of p then Some p else get n m)"
    using register_new by blast
  with None show ?thesis by (simp split: option.split)
next
  case (Some q)
  then obtain e where "register p m = (Some e, m)" using register_dup by blast
  with Some show ?thesis by (auto split: option.split)
qed

text \<open>The first registration of a name stays.\<close>

lemma register_all_get:
  "get n (register_all ps m) =
    (case get n m of Some q \<Rightarrow> Some q | None \<Rightarrow> find (\<lambda>p. name_of p = n) ps)"
proof (induction ps arbitrary: m)
  case Nil
  then show ?case by (simp add: register_all_def split: option.split)
next
  case (Cons p ps)
  have "register_all (p # ps) m = register_all ps (snd (register p m))" by (simp add: register_all_def)
  then show ?case using Cons.IH [of "snd (register p m)"] register_get [of n p m]
    by (auto split: option.split)
qed

lemma registered_once: "fst (register p m) = None \<longleftrightarrow> get (name_of p) m = None"
  using register_new [of p m] register_dup [of p m] by (cases "get (name_of p) m") fastforce+

lemma register_idem: "register p (snd (register p m)) = (fst (register p (snd (register p m))), snd (register p m))
    \<and> fst (register p (snd (register p m))) \<noteq> None"
proof -
  have "get (name_of p) (snd (register p m)) \<noteq> None" by (simp add: register_get split: option.split)
  then obtain q where "get (name_of p) (snd (register p m)) = Some q" by blast
  then obtain e where "register p (snd (register p m)) = (Some e, snd (register p m))"
    using register_dup by blast
  then show ?thesis by simp
qed

lemma names_register_all:
  "set (names (register_all ps empty)) = name_of ` set ps"
proof -
  have "find (\<lambda>p. name_of p = n) ps \<noteq> None \<longleftrightarrow> n \<in> name_of ` set ps" for n
    by (auto simp: find_None_iff image_iff)
  then show ?thesis by (auto simp: names_get register_all_get get_empty)
qed

end

end
