(* ===== verification/Models.thy ===== *)
theory Models
  imports Registry OpenAI Anthropic Gemini
begin

text \<open>
  \<^verbatim>\<open>internal/runtime/models.go\<close>: the registry of providers and its initial content, the
  creation of a model (provider, connection, logging, rate limit), and the registry of an
  agent's models.
\<close>

section \<open>Providers\<close>

record 's provider =
  pv_name :: string
  pv_create :: "string \<Rightarrow> connect_config \<Rightarrow> model_config \<Rightarrow> goerr + 's llm"

type_synonym 's providers = "(string \<times> 's provider) list"

definition register_provider :: "'s provider \<Rightarrow> 's providers \<Rightarrow> goerr option \<times> 's providers" where
  "register_provider p m =
    (if map_of m (pv_name p) \<noteq> None
     then (Some (Errorf ''model provider %q already registered'' [AStr (pv_name p)]), m)
     else (None, (pv_name p, p) # m))"

definition get_provider :: "string \<Rightarrow> 's providers \<Rightarrow> 's provider option" where
  "get_provider name m = map_of m name"

text \<open>\<open>order\<close> is the order in which Go ranges over a map, which it leaves open.\<close>

definition registered_providers :: "(string list \<Rightarrow> string list) \<Rightarrow> 's providers \<Rightarrow> string list" where
  "registered_providers order m = order (map fst m)"

interpretation prov: registry register_provider get_provider "map fst" pv_name "[]"
proof
  fix n :: string and p q :: "'a provider" and m :: "'a providers"
  show "get_provider n [] = None" by (simp add: get_provider_def)
  show "get_provider (pv_name p) m = None \<Longrightarrow>
      \<exists>m'. register_provider p m = (None, m') \<and>
        (\<forall>n. get_provider n m' = (if n = pv_name p then Some p else get_provider n m))"
    by (simp add: register_provider_def get_provider_def)
  show "get_provider (pv_name p) m = Some q \<Longrightarrow> \<exists>e. register_provider p m = (Some e, m)"
    by (simp add: register_provider_def get_provider_def)
  show "n \<in> set (map fst m) \<longleftrightarrow> get_provider n m \<noteq> None"
    by (metis get_provider_def map_of_eq_None_iff list.set_map)
qed

text \<open>The providers' \<^verbatim>\<open>init\<close> functions, in the order Go runs them; Gemini registers an alias.\<close>

definition oai_provider :: "platform \<Rightarrow> genai \<Rightarrow> 'w world_scheme provider" where
  "oai_provider p g =
    \<lparr>pv_name = ''openai'',
     pv_create = (\<lambda>i cc mc. case oai_create p i cc mc of Inl e \<Rightarrow> Inl e | Inr m \<Rightarrow> Inr (oai_llm p g m))\<rparr>"

definition ant_provider :: "platform \<Rightarrow> genai \<Rightarrow> 'w world_scheme provider" where
  "ant_provider p g =
    \<lparr>pv_name = ''anthropic'',
     pv_create = (\<lambda>i cc mc. case ant_create p i cc mc of Inl e \<Rightarrow> Inl e | Inr m \<Rightarrow> Inr (ant_llm p g m))\<rparr>"

definition gem_provider :: "platform \<Rightarrow> (gofloat \<Rightarrow> gofloat) \<Rightarrow> (string \<Rightarrow> string \<Rightarrow> goerr + 's llm) \<Rightarrow> 's provider" where
  "gem_provider p narrow new_model = \<lparr>pv_name = ''gemini'', pv_create = gem_create p narrow new_model\<rparr>"

definition gem_alias :: "'s provider \<Rightarrow> string \<Rightarrow> 's provider" where
  "gem_alias p name = p\<lparr>pv_name := name\<rparr>"

definition builtin :: "platform \<Rightarrow> genai \<Rightarrow> (gofloat \<Rightarrow> gofloat) \<Rightarrow>
    (string \<Rightarrow> string \<Rightarrow> goerr + 'w world_scheme llm) \<Rightarrow> 'w world_scheme provider list" where
  "builtin p g narrow new_model =
    [ant_provider p g, gem_provider p narrow new_model,
     gem_alias (gem_provider p narrow new_model) ''google'', oai_provider p g]"

definition builtin_providers :: "platform \<Rightarrow> genai \<Rightarrow> (gofloat \<Rightarrow> gofloat) \<Rightarrow>
    (string \<Rightarrow> string \<Rightarrow> goerr + 'w world_scheme llm) \<Rightarrow> 'w world_scheme providers" where
  "builtin_providers p g narrow new_model =
    foldl (\<lambda>m q. snd (register_provider q m)) [] (builtin p g narrow new_model)"

section \<open>Creating a model\<close>

definition split_provider_model :: "string \<Rightarrow> string \<times> string" where
  "split_provider_model qualified =
    (case split2 qualified slash of [p, i] \<Rightarrow> (p, i) | _ \<Rightarrow> ([], qualified))"

text \<open>What a model needs: the call, and the limiter its calls start from.\<close>

type_synonym 's model_entry = "'s limited_scheme llm \<times> limiter"

definition create_model :: "(string list \<Rightarrow> string list) \<Rightarrow> (log_state \<times> 's limited_ext) world_scheme providers
    \<Rightarrow> config \<Rightarrow> model_config \<Rightarrow> goerr + 's model_entry" where
  "create_model order ps rc mc =
    (let model_id = snd (split_provider_model (mc_model mc));
         (cc, provider_name, max_conc) =
           (case lookup rc (mc_model mc) of
              Some conn \<Rightarrow> (\<lparr>cc_api_base = api_base conn, cc_auth_env = auth_env_var conn,
                             cc_host_env = host_env_var conn\<rparr>, api_type conn, max_concurrency conn)
            | None \<Rightarrow> (\<lparr>cc_api_base = [], cc_auth_env = [], cc_host_env = []\<rparr>, [], 0));
         provider_name = (if provider_name = [] then fst (split_provider_model (mc_model mc)) else provider_name)
     in if provider_name = [] then
          Inl (Errorf ''model %q: cannot determine provider; ensure .crate/runtime.json exists or use provider/model-id format; registered providers: %v''
                [AStr (mc_model mc), AStrs (registered_providers order ps)])
        else case get_provider provider_name ps of
          None \<Rightarrow> Inl (Errorf ''unknown model provider %q for model %q; registered providers: %v''
                [AStr provider_name, AStr (mc_model mc), AStrs (registered_providers order ps)])
        | Some provider \<Rightarrow>
            (case pv_create provider model_id cc mc of
               Inl e \<Rightarrow> Inl e
             | Inr m \<Rightarrow> Inr (with_rate_limit (with_logging m), new_limiter max_conc)))"

section \<open>The models of an agent\<close>

record brain =
  br_default :: string
  br_models :: "model_config list"

record 's model_registry =
  reg_models :: "string \<Rightarrow> 's model_entry option"
  reg_default :: string

definition skipped :: "string \<Rightarrow> goerr \<Rightarrow> goerr" where
  "skipped name e = Errorf ''model %q skipped: %v'' [AStr name, AErr e]"

fun registry_loop :: "(model_config \<Rightarrow> goerr + 's model_entry) \<Rightarrow> string \<Rightarrow> model_config list
    \<Rightarrow> (string \<Rightarrow> 's model_entry option) \<Rightarrow> goerr list
    \<Rightarrow> goerr + (string \<Rightarrow> 's model_entry option) \<times> goerr list" where
  "registry_loop create dflt [] models warnings = Inr (models, warnings)"
| "registry_loop create dflt (mc # mcs) models warnings =
    (case create mc of
       Inl e \<Rightarrow>
         if mc_name mc = dflt then Inl (Errorf ''creating default model %q: %w'' [AStr (mc_name mc), AErr e])
         else registry_loop create dflt mcs models (warnings @ [skipped (mc_name mc) e])
     | Inr m \<Rightarrow> registry_loop create dflt mcs (models(mc_name mc \<mapsto> m)) warnings)"

definition new_model_registry :: "(string list \<Rightarrow> string list) \<Rightarrow> (log_state \<times> 's limited_ext) world_scheme providers
    \<Rightarrow> brain \<Rightarrow> config \<Rightarrow> goerr + 's model_registry \<times> goerr list" where
  "new_model_registry order ps br rc =
    (case registry_loop (create_model order ps rc) (br_default br) (br_models br) (\<lambda>_. None) [] of
       Inl e \<Rightarrow> Inl e
     | Inr (models, warnings) \<Rightarrow> Inr (\<lparr>reg_models = models, reg_default = br_default br\<rparr>, warnings))"

definition default_model :: "'s model_registry \<Rightarrow> goerr + 's model_entry" where
  "default_model r =
    (case reg_models r (reg_default r) of
       None \<Rightarrow> Inl (Errorf ''default model %q not found in registry'' [AStr (reg_default r)])
     | Some m \<Rightarrow> Inr m)"

definition get_model :: "'s model_registry \<Rightarrow> string \<Rightarrow> 's model_entry option" where
  "get_model r name = reg_models r name"

section \<open>Properties\<close>

lemma split_provider_model_at: "slash \<notin> set p \<Longrightarrow> split_provider_model (p @ slash # i) = (p, i)"
  by (simp add: split_provider_model_def split2_at)

lemma split_provider_model_no: "slash \<notin> set s \<Longrightarrow> split_provider_model s = ([], s)"
  by (simp add: split_provider_model_def split2_no)

text \<open>The registry after start: the four names, each with its provider.\<close>

lemma builtin_get:
  "get_provider n (builtin_providers p g narrow new_model) =
    find (\<lambda>q. pv_name q = n) (builtin p g narrow new_model)"
  using prov.register_all_get [of n "builtin p g narrow new_model" "[]"]
  by (simp add: prov.register_all_def builtin_providers_def get_provider_def)

abbreviation fails :: "('a \<Rightarrow> goerr + 'b) \<Rightarrow> 'a \<Rightarrow> bool" where
  "fails f x \<equiv> isl (f x)"

definition created :: "(model_config \<Rightarrow> goerr + 's model_entry) \<Rightarrow> model_config list \<Rightarrow> string \<Rightarrow> 's model_entry option" where
  "created create mcs n =
    (case filter (\<lambda>mc. mc_name mc = n \<and> \<not> fails create mc) mcs of
       [] \<Rightarrow> None | ms \<Rightarrow> Some (projr (create (last ms))))"

lemma registry_loop_result:
  "registry_loop create d mcs models ws =
    (case find (\<lambda>mc. mc_name mc = d \<and> fails create mc) mcs of
       Some mc \<Rightarrow> Inl (Errorf ''creating default model %q: %w'' [AStr (mc_name mc), AErr (projl (create mc))])
     | None \<Rightarrow> Inr (\<lambda>n. case created create mcs n of None \<Rightarrow> models n | e \<Rightarrow> e,
         ws @ map (\<lambda>mc. skipped (mc_name mc) (projl (create mc))) (filter (fails create) mcs)))"
proof (induction mcs arbitrary: models ws)
  case Nil
  then show ?case by (simp add: created_def)
next
  case (Cons mc mcs)
  show ?case
  proof (cases "create mc")
    case (Inl e)
    then have "created create (mc # mcs) = created create mcs" by (simp add: created_def fun_eq_iff)
    with Inl show ?thesis by (simp add: Cons.IH split: option.split)
  next
    case (Inr m)
    have "(case created create (mc # mcs) n of None \<Rightarrow> models n | e \<Rightarrow> e) =
      (case created create mcs n of None \<Rightarrow> (models(mc_name mc \<mapsto> m)) n | e \<Rightarrow> e)" for n
      using Inr by (cases "filter (\<lambda>mc. mc_name mc = n \<and> \<not> fails create mc) mcs") (auto simp: created_def)
    with Inr show ?thesis by (simp add: Cons.IH split: option.split)
  qed
qed

text \<open>
  C16. Graceful degradation: creating the models of an agent fails exactly when a model under
  the default's name fails; otherwise there is one warning for each model that failed, in
  order, every other name is bound to the last model created under it, and the default
  resolves exactly when some model bears its name.
\<close>

theorem graceful_degradation:
  "let create = create_model order ps rc; mcs = br_models br in
   case new_model_registry order ps br rc of
     Inl e \<Rightarrow> \<exists>mc e'. mc \<in> set mcs \<and> mc_name mc = br_default br \<and> create mc = Inl e' \<and> errors_is e e'
   | Inr (reg, ws) \<Rightarrow>
       (\<nexists>mc. mc \<in> set mcs \<and> mc_name mc = br_default br \<and> fails create mc) \<and>
       ws = map (\<lambda>mc. skipped (mc_name mc) (projl (create mc))) (filter (fails create) mcs) \<and>
       (\<forall>n. get_model reg n = created create mcs n) \<and>
       ((\<exists>m. default_model reg = Inr m) \<longleftrightarrow> (\<exists>mc. mc \<in> set mcs \<and> mc_name mc = br_default br))"
proof -
  let ?c = "create_model order ps rc" and ?mcs = "br_models br" and ?d = "br_default br"
  have refl: "errors_is e e" for e by (cases e) auto
  show ?thesis
  proof (cases "find (\<lambda>mc. mc_name mc = ?d \<and> fails ?c mc) ?mcs")
    case (Some mc)
    then have "mc \<in> set ?mcs" "mc_name mc = ?d" "fails ?c mc" by (auto simp: find_Some_iff)
    then show ?thesis using Some refl
      by (auto simp: new_model_registry_def registry_loop_result Let_def isl_def)
  next
    case None
    then have none: "\<forall>mc \<in> set ?mcs. mc_name mc = ?d \<longrightarrow> \<not> fails ?c mc" by (auto simp: find_None_iff)
    then have "filter (\<lambda>mc. mc_name mc = ?d \<and> \<not> fails ?c mc) ?mcs = filter (\<lambda>mc. mc_name mc = ?d) ?mcs"
      by (auto intro: filter_cong)
    then have "(\<exists>m. created ?c ?mcs ?d = Some m) \<longleftrightarrow> (\<exists>mc. mc \<in> set ?mcs \<and> mc_name mc = ?d)"
      by (cases "filter (\<lambda>mc. mc_name mc = ?d) ?mcs")
         (auto simp: created_def filter_empty_conv dest!: filter_eq_ConsD)
    then show ?thesis using None none
      by (auto simp: new_model_registry_def registry_loop_result Let_def get_model_def default_model_def
          split: option.splits)
  qed
qed

text \<open>The provider a model goes to: the runtime config's, else the prefix of the model's name.\<close>

definition resolved_provider :: "config \<Rightarrow> string \<Rightarrow> string" where
  "resolved_provider rc model =
    (case lookup rc model of
       Some conn \<Rightarrow> if api_type conn \<noteq> [] then api_type conn else fst (split_provider_model model)
     | None \<Rightarrow> fst (split_provider_model model))"

definition resolved_connection :: "config \<Rightarrow> string \<Rightarrow> connect_config" where
  "resolved_connection rc model =
    (case lookup rc model of
       Some conn \<Rightarrow> \<lparr>cc_api_base = api_base conn, cc_auth_env = auth_env_var conn, cc_host_env = host_env_var conn\<rparr>
     | None \<Rightarrow> \<lparr>cc_api_base = [], cc_auth_env = [], cc_host_env = []\<rparr>)"

definition resolved_limit :: "config \<Rightarrow> string \<Rightarrow> int" where
  "resolved_limit rc model = (case lookup rc model of Some conn \<Rightarrow> max_concurrency conn | None \<Rightarrow> 0)"

lemma create_model_cases:
  "create_model order ps rc mc =
    (let name = resolved_provider rc (mc_model mc) in
     if name = [] then
       Inl (Errorf ''model %q: cannot determine provider; ensure .crate/runtime.json exists or use provider/model-id format; registered providers: %v''
             [AStr (mc_model mc), AStrs (registered_providers order ps)])
     else case get_provider name ps of
       None \<Rightarrow> Inl (Errorf ''unknown model provider %q for model %q; registered providers: %v''
             [AStr name, AStr (mc_model mc), AStrs (registered_providers order ps)])
     | Some provider \<Rightarrow>
         (case pv_create provider (snd (split_provider_model (mc_model mc)))
                (resolved_connection rc (mc_model mc)) mc of
            Inl e \<Rightarrow> Inl e
          | Inr m \<Rightarrow> Inr (with_rate_limit (with_logging m), new_limiter (resolved_limit rc (mc_model mc)))))"
  by (cases "lookup rc (mc_model mc)")
     (auto simp: create_model_def resolved_provider_def resolved_connection_def resolved_limit_def Let_def
       split: option.split sum.split)

text \<open>
  C17. Provider and connection of a model named \<open>prefix/id\<close>: a type in the runtime config
  beats the prefix (so a model named after Ollama is served by the OpenAI provider), the
  provider gets the part behind the first slash and the configured connection, and a created
  model starts with no slot taken and the configured limit, 10 when none is set.
\<close>

theorem create_model_resolution:
  assumes "slash \<notin> set pre" "mc_model mc = pre @ slash # ident"
    and "create_model order ps rc mc = Inr (m, l)"
  shows "\<exists>pv inner.
    get_provider (case lookup rc (mc_model mc) of
        Some conn \<Rightarrow> if api_type conn \<noteq> [] then api_type conn else pre | None \<Rightarrow> pre) ps = Some pv \<and>
    pv_create pv ident (case lookup rc (mc_model mc) of
        Some conn \<Rightarrow> \<lparr>cc_api_base = api_base conn, cc_auth_env = auth_env_var conn, cc_host_env = host_env_var conn\<rparr>
      | None \<Rightarrow> \<lparr>cc_api_base = [], cc_auth_env = [], cc_host_env = []\<rparr>) mc = Inr inner \<and>
    llm_name m = llm_name inner \<and> sem l = 0 \<and>
    capacity l = (case lookup rc (mc_model mc) of
        Some conn \<Rightarrow> if max_concurrency conn \<le> 0 then 10 else max_concurrency conn | None \<Rightarrow> 10)"
proof -
  have "fst (split_provider_model (mc_model mc)) = pre" "snd (split_provider_model (mc_model mc)) = ident"
    using split_provider_model_at [OF assms(1), of ident] assms(2) by simp_all
  then show ?thesis using assms(3)
    by (cases "lookup rc (mc_model mc)")
       (auto simp: create_model_cases resolved_provider_def resolved_connection_def resolved_limit_def
         with_rate_limit_def with_logging_def Let_def split: if_splits option.splits sum.splits)
qed

definition ollama_rc :: config where
  "ollama_rc = \<lparr>cfg_models = Some [(''ollama/llama3'', ollama)]\<rparr>"

lemma builtin_openai: "get_provider ''openai'' (builtin_providers p g narrow new_model) = Some (oai_provider p g)"
  by (simp add: builtin_get builtin_def oai_provider_def ant_provider_def gem_provider_def gem_alias_def)

lemma builtin_anthropic: "get_provider ''anthropic'' (builtin_providers p g narrow new_model) = Some (ant_provider p g)"
  by (simp add: builtin_get builtin_def oai_provider_def ant_provider_def gem_provider_def gem_alias_def)

definition no_gemini :: "string \<Rightarrow> string \<Rightarrow> goerr + 's llm" where
  "no_gemini i k = Inl (Ext ''no gemini'')"

lemma ollama_created:
  "\<exists>m l. create_model id (builtin_providers ollama_env genai_lib id no_gemini) ollama_rc tuned = Inr (m, l)"
proof -
  have "lookup ollama_rc (mc_model tuned) = Some ollama"
    by (simp add: lookup_def ollama_rc_def tuned_def)
  then show ?thesis
    by (auto simp: create_model_cases resolved_provider_def resolved_connection_def ollama_def Let_def
        builtin_openai oai_provider_def oai_create_def oai_base_url_def ollama_env_def bare_platform_def
        oai_default_base_def trim_right_def drop_while_end_def slash_def)
qed

theorem create_model_resolution_witness:
  "\<exists>m l. create_model id (builtin_providers ollama_env genai_lib id no_gemini) ollama_rc tuned = Inr (m :: limited llm, l) \<and>
    capacity l = 1 \<and> llm_name m = ''openai/llama3''"
proof -
  obtain m l where m: "create_model id (builtin_providers ollama_env genai_lib id no_gemini) ollama_rc tuned = Inr (m :: limited llm, l)"
    using ollama_created by blast
  have lk: "lookup ollama_rc (mc_model tuned) = Some ollama"
    by (simp add: lookup_def ollama_rc_def tuned_def)
  have pre: "slash \<notin> set ''ollama''" "mc_model tuned = ''ollama'' @ slash # ''llama3''"
    by (simp_all add: slash_def tuned_def)
  have names: "pv_create (oai_provider ollama_env genai_lib) ''llama3'' cc mc = Inr inner \<Longrightarrow> llm_name inner = ''openai/llama3''"
    for cc mc and inner :: "'w world_scheme llm"
    by (auto simp: oai_provider_def oai_create_def oai_llm_def oai_name_def Let_def split: sum.splits if_splits)
  show ?thesis
    using create_model_resolution [OF pre m] m lk names by (auto simp: ollama_def builtin_openai)
qed

section \<open>Every call gives its slot back\<close>

interpretation oai_logged: slot_user "logged_call (oai_generate p g m c req streaming) req streaming"
  by (rule logged_slot_user [OF oai.llm_call_axioms])

interpretation ant_logged: slot_user "logged_call (ant_generate p g m c req streaming) req streaming"
  by (rule logged_slot_user [OF ant.llm_call_axioms])

lemma limited_generate:
  "generate (with_rate_limit (with_logging inner)) c req streaming =
    limited_call (llm_name inner) c (logged_call (generate inner c req streaming) req streaming)"
  by (simp add: with_rate_limit_def with_logging_def)

text \<open>
  Whatever an agent's model does (answers, fails, panics, is stopped by its consumer half
  way through a stream), a call of a model served by the OpenAI or the Anthropic provider that
  got a slot ends, and leaves the limiter with as many slots taken as it found, for any consumer
  that does so itself.
\<close>

theorem created_model_bracket:
  assumes "create_model order (builtin_providers p g narrow new_model) rc mc = Inr (m, l0)"
    and "resolved_provider rc (mc_model mc) = ''openai'' \<or> resolved_provider rc (mc_model mc) = ''anthropic''"
    and "acquire (call_pick c) (call_done c) (lim_of w) = Acquired l"
    and "\<And>x s. 0 < sem (lim_of s) \<Longrightarrow> sem (lim_of (snd (y x s))) = sem (lim_of s)"
  shows "fst (generate m c req streaming y w) \<noteq> Blocked \<and>
    sem (lim_of (snd (generate m c req streaming y w))) = sem (lim_of w)"
  using assms(2)
proof
  assume "resolved_provider rc (mc_model mc) = ''openai''"
  then obtain om where m: "m = with_rate_limit (with_logging (oai_llm p g om))"
    using assms(1) by (auto simp: create_model_cases builtin_openai oai_provider_def Let_def split: sum.splits)
  show ?thesis
    using oai_logged.slot_returned [OF assms(3), where y = y and p = p and g = g and m = om and req = req
        and streaming = streaming and name = "oai_name om" and ca = c] assms(4)
    by (auto simp: m limited_generate oai_llm_def)
next
  assume "resolved_provider rc (mc_model mc) = ''anthropic''"
  then obtain am where m: "m = with_rate_limit (with_logging (ant_llm p g am))"
    using assms(1) by (auto simp: create_model_cases builtin_anthropic ant_provider_def Let_def split: sum.splits)
  show ?thesis
    using ant_logged.slot_returned [OF assms(3), where y = y and p = p and g = g and m = am and req = req
        and streaming = streaming and name = "ant_name am" and ca = c] assms(4)
    by (auto simp: m limited_generate ant_llm_def)
qed

theorem created_model_bracket_witness:
  "\<exists>m l. create_model id (builtin_providers ollama_env genai_lib id no_gemini) ollama_rc tuned = Inr (m, l) \<and>
    sem (lim_of (snd (generate m live_call \<lparr>req_contents = [], req_config = None\<rparr> True
      (\<lambda>x s. (Panic, s)) idle))) = 0"
proof -
  obtain m l where m: "create_model id (builtin_providers ollama_env genai_lib id no_gemini) ollama_rc tuned
      = Inr (m :: limited llm, l)"
    using ollama_created by blast
  have "resolved_provider ollama_rc (mc_model tuned) = ''openai''"
    by (simp add: resolved_provider_def lookup_def ollama_rc_def tuned_def ollama_def)
  moreover obtain l' where "acquire (call_pick live_call) (call_done live_call) (lim_of idle) = Acquired l'"
    by (auto simp: live_call_def idle_def acquire_def has_room_def)
  ultimately show ?thesis
    using created_model_bracket [OF m, of live_call idle l' "\<lambda>x s. (Panic, s)" "\<lparr>req_contents = [], req_config = None\<rparr>" True] m
    by (auto simp: idle_def)
qed

end
