(* ===== verification/Runtime.thy ===== *)
theory Runtime
  imports Models
begin

text \<open>
  \<^verbatim>\<open>internal/runtime/runtime.go\<close>: the runtime of an agent: \<^verbatim>\<open>New\<close>, \<^verbatim>\<open>Init\<close>,
  \<^verbatim>\<open>Reload\<close>, \<^verbatim>\<open>Close\<close>, the connection of a skill and the check of its environment; then
  the lock that makes a reload atomic for readers. The MCP toolsets and the ADK agent are third-party:
  their constructors are arguments.
\<close>

section \<open>Agentfiles and skills\<close>

record skill =
  sk_name :: string
  sk_type :: string
  sk_command :: string
  sk_args :: "string list"
  sk_source :: string
  sk_env :: "string list"

record agentfile =
  af_name :: string
  af_description :: string
  af_prompt :: string
  af_brain :: brain
  af_skills :: "skill list"

datatype mcp_transport =
    CommandTransport string "string list"
  | StreamableTransport string
  | SseTransport string

record ('t, 'm) agent_config =
  ac_name :: string
  ac_description :: string
  ac_model :: 'm
  ac_instruction :: string
  ac_toolsets :: "'t list"

text \<open>
  The third-party constructors: \<^verbatim>\<open>mcptoolset.New\<close>, \<^verbatim>\<open>Toolset.Tools\<close> (its error), and
  \<^verbatim>\<open>llmagent.New\<close>.
\<close>

record ('t, 'm, 'a) externals =
  new_toolset :: "mcp_transport \<Rightarrow> goerr + 't"
  tools_error :: "'t \<Rightarrow> goerr option"
  new_agent :: "('t, 'm) agent_config \<Rightarrow> goerr + 'a"

section \<open>Skills\<close>

text \<open>A closer ends the subprocess of the skill it was made for.\<close>

datatype closer = StopProcess string

datatype process = NotStarted | Exits | Hangs

datatype process_event = Terminated string | Killed string

definition run_closer :: "(string \<Rightarrow> process) \<Rightarrow> closer \<Rightarrow> process_event list" where
  "run_closer procs c =
    (case c of StopProcess n \<Rightarrow>
      (case procs n of NotStarted \<Rightarrow> [] | Exits \<Rightarrow> [Terminated n] | Hangs \<Rightarrow> [Terminated n, Killed n]))"

definition connect_skill :: "('t, 'm, 'a) externals \<Rightarrow> skill \<Rightarrow> goerr + 't \<times> closer option" where
  "connect_skill x s =
    (let connect = (\<lambda>t c. case new_toolset x t of Inl e \<Rightarrow> Inl e | Inr ts \<Rightarrow> Inr (ts, c)) in
     if sk_type s = ''stdio'' then
       connect (CommandTransport (sk_command s) (sk_args s)) (Some (StopProcess (sk_name s)))
     else if sk_type s = ''http'' then connect (StreamableTransport (sk_source s)) None
     else if sk_type s = ''sse'' then connect (SseTransport (sk_source s)) None
     else if sk_type s = ''mcp'' then
       Inl (Errorf ''mcp registry skills must be resolved at build time, not runtime (skill %q source: %s)''
             [AStr (sk_name s), AStr (sk_source s)])
     else Inl (Errorf ''unknown skill type %q'' [AStr (sk_type s)]))"

definition missing_env :: "platform \<Rightarrow> skill \<Rightarrow> string list" where
  "missing_env p s = filter (\<lambda>v. getenv p v = []) (sk_env s)"

definition check_skill_env :: "platform \<Rightarrow> skill \<Rightarrow> goerr option" where
  "check_skill_env p s =
    (if missing_env p s \<noteq> []
     then Some (Errorf ''missing required environment variables: %s'' [AStr (join (missing_env p s) '', '')])
     else None)"

section \<open>The runtime\<close>

text \<open>\<open>rt_ran\<close> logs the closers that were run, \<open>rt_closed\<close> is the \<^verbatim>\<open>sync.Once\<close>.\<close>

record ('t, 's, 'a) runtime =
  rt_af :: agentfile
  rt_rc :: config
  rt_agent :: "'a option"
  rt_models :: "'s model_registry option"
  rt_toolsets :: "'t list"
  rt_closers :: "closer list"
  rt_closed :: bool
  rt_ran :: "closer list"

definition new_runtime :: "agentfile \<Rightarrow> config option \<Rightarrow> ('t, 's, 'a) runtime" where
  "new_runtime af rc =
    \<lparr>rt_af = af, rt_rc = (case rc of None \<Rightarrow> \<lparr>cfg_models = Some []\<rparr> | Some c \<Rightarrow> c),
     rt_agent = None, rt_models = None, rt_toolsets = [], rt_closers = [], rt_closed = False, rt_ran = []\<rparr>"

definition close_runtime :: "('t, 's, 'a) runtime \<Rightarrow> ('t, 's, 'a) runtime" where
  "close_runtime r =
    (if rt_closed r then r
     else r\<lparr>rt_ran := rt_ran r @ rt_closers r, rt_closers := [], rt_closed := True\<rparr>)"

fun connect_skills :: "platform \<Rightarrow> ('t, 's model_entry, 'a) externals \<Rightarrow> skill list
    \<Rightarrow> ('t, 's, 'a) runtime \<Rightarrow> goerr option \<times> ('t, 's, 'a) runtime" where
  "connect_skills p x [] r = (None, r)"
| "connect_skills p x (s # ss) r =
    (case check_skill_env p s of
       Some e \<Rightarrow> (Some (Errorf ''skill %q: %w'' [AStr (sk_name s), AErr e]), r)
     | None \<Rightarrow>
    (case connect_skill x s of
       Inl e \<Rightarrow> (Some (Errorf ''connecting skill %q: %w'' [AStr (sk_name s), AErr e]), close_runtime r)
     | Inr (ts, c) \<Rightarrow>
         (let r = r\<lparr>rt_toolsets := rt_toolsets r @ [ts],
                    rt_closers := rt_closers r @ (case c of None \<Rightarrow> [] | Some c \<Rightarrow> [c])\<rparr> in
          case tools_error x ts of
            Some e \<Rightarrow> (Some (Errorf ''preloading skill %q tools: %w'' [AStr (sk_name s), AErr e]), close_runtime r)
          | None \<Rightarrow> connect_skills p x ss r)))"

definition init_runtime :: "(string list \<Rightarrow> string list) \<Rightarrow> platform
    \<Rightarrow> (log_state \<times> 's limited_ext) world_scheme providers \<Rightarrow> ('t, 's model_entry, 'a) externals
    \<Rightarrow> ('t, 's, 'a) runtime \<Rightarrow> goerr option \<times> ('t, 's, 'a) runtime" where
  "init_runtime order p ps x r =
    (case new_model_registry order ps (af_brain (rt_af r)) (rt_rc r) of
       Inl e \<Rightarrow> (Some (Errorf ''initializing models: %w'' [AErr e]), r)
     | Inr (reg, _) \<Rightarrow>
    (case connect_skills p x (af_skills (rt_af r)) (r\<lparr>rt_models := Some reg\<rparr>) of
       (Some e, r) \<Rightarrow> (Some e, r)
     | (None, r) \<Rightarrow>
    (case default_model reg of
       Inl e \<Rightarrow> (Some (Errorf ''resolving default model: %w'' [AErr e]), close_runtime r)
     | Inr m \<Rightarrow>
    (case new_agent x \<lparr>ac_name = af_name (rt_af r), ac_description = af_description (rt_af r), ac_model = m,
                       ac_instruction = af_prompt (rt_af r), ac_toolsets = rt_toolsets r\<rparr> of
       Inl e \<Rightarrow> (Some (Errorf ''creating agent: %w'' [AErr e]), close_runtime r)
     | Inr a \<Rightarrow> (None, r\<lparr>rt_agent := Some a\<rparr>)))))"

text \<open>\<^verbatim>\<open>Reload\<close>; before \<^verbatim>\<open>Init\<close> there is no registry and it panics.\<close>

datatype 'r reload_result = ReloadPanic | ReloadFailed goerr 'r | Reloaded 'r

definition reload_runtime :: "('t, 's model_entry, 'a) externals \<Rightarrow> agentfile \<Rightarrow> ('t, 's, 'a) runtime
    \<Rightarrow> ('t, 's, 'a) runtime reload_result" where
  "reload_runtime x af r =
    (case rt_models r of
       None \<Rightarrow> ReloadPanic
     | Some reg \<Rightarrow>
    (case default_model reg of
       Inl e \<Rightarrow> ReloadFailed (Errorf ''resolving default model: %w'' [AErr e]) r
     | Inr m \<Rightarrow>
    (case new_agent x \<lparr>ac_name = af_name af, ac_description = af_description af, ac_model = m,
                       ac_instruction = af_prompt af, ac_toolsets = rt_toolsets r\<rparr> of
       Inl e \<Rightarrow> ReloadFailed (Errorf ''creating reloaded agent: %w'' [AErr e]) r
     | Inr a \<Rightarrow> Reloaded (r\<lparr>rt_agent := Some a, rt_af := af\<rparr>))))"

section \<open>Starting and stopping\<close>

lemma new_runtime_simps [simp]:
  "rt_af (new_runtime af rc) = af"
  "rt_rc (new_runtime af rc) = (case rc of None \<Rightarrow> \<lparr>cfg_models = Some []\<rparr> | Some c \<Rightarrow> c)"
  "rt_toolsets (new_runtime af rc) = []" "rt_closers (new_runtime af rc) = []"
  "rt_ran (new_runtime af rc) = []" "\<not> rt_closed (new_runtime af rc)"
  by (simp_all add: new_runtime_def)

lemma close_idem [simp]: "close_runtime (close_runtime r) = close_runtime r"
  by (simp add: close_runtime_def)

lemma close_closed [simp]: "rt_closed (close_runtime r)"
  by (simp add: close_runtime_def)

lemma close_models [simp]: "rt_models (close_runtime r) = rt_models r" "rt_af (close_runtime r) = rt_af r"
  by (simp_all add: close_runtime_def)

text \<open>A skill that goes through: its variables are set, it connects, its tools load.\<close>

definition skill_closer :: "skill \<Rightarrow> closer list" where
  "skill_closer s = (if sk_type s = ''stdio'' then [StopProcess (sk_name s)] else [])"

definition skill_ok :: "platform \<Rightarrow> ('t, 'm, 'a) externals \<Rightarrow> skill \<Rightarrow> bool" where
  "skill_ok p x s \<longleftrightarrow> check_skill_env p s = None \<and>
    (case connect_skill x s of Inl e \<Rightarrow> False | Inr (ts, c) \<Rightarrow> tools_error x ts = None)"

definition skill_connects :: "platform \<Rightarrow> ('t, 'm, 'a) externals \<Rightarrow> skill \<Rightarrow> bool" where
  "skill_connects p x s \<longleftrightarrow> check_skill_env p s = None \<and> \<not> isl (connect_skill x s)"

text \<open>The skills \<^verbatim>\<open>Init\<close> opens: those that go through, and the next one if it connects.\<close>

definition opened :: "platform \<Rightarrow> ('t, 'm, 'a) externals \<Rightarrow> skill list \<Rightarrow> skill list" where
  "opened p x ss =
    takeWhile (skill_ok p x) ss @ takeWhile (skill_connects p x) (take 1 (dropWhile (skill_ok p x) ss))"

lemma connect_closer: "connect_skill x s = Inr (ts, c) \<Longrightarrow> (case c of None \<Rightarrow> [] | Some c \<Rightarrow> [c]) = skill_closer s"
  by (auto simp: connect_skill_def skill_closer_def Let_def split: if_splits sum.splits)

lemma connect_skills_ok:
  "fst (connect_skills p x ss r) = None \<longleftrightarrow> list_all (skill_ok p x) ss"
  by (induction ss arbitrary: r)
     (auto simp: skill_ok_def Let_def split: option.split sum.split)

lemma connect_skills_closers:
  "\<not> rt_closed r \<Longrightarrow>
   rt_ran (close_runtime (snd (connect_skills p x ss r))) =
     rt_ran r @ rt_closers r @ concat (map skill_closer (opened p x ss)) \<and>
   rt_closers (close_runtime (snd (connect_skills p x ss r))) = []"
proof (induction ss arbitrary: r)
  case Nil
  then show ?case by (simp add: opened_def close_runtime_def)
next
  case (Cons s ss)
  show ?case
  proof (cases "check_skill_env p s")
    case (Some e)
    then show ?thesis using Cons.prems
      by (simp add: opened_def skill_ok_def skill_connects_def close_runtime_def)
  next
    case env: None
    show ?thesis
    proof (cases "connect_skill x s")
      case (Inl e)
      then show ?thesis using env Cons.prems
        by (simp add: opened_def skill_ok_def skill_connects_def close_runtime_def)
    next
      case (Inr tc)
      obtain ts c where tc: "tc = (ts, c)" by (cases tc)
      let ?r = "r\<lparr>rt_toolsets := rt_toolsets r @ [ts], rt_closers := rt_closers r @ skill_closer s\<rparr>"
      have c: "(case c of None \<Rightarrow> [] | Some c \<Rightarrow> [c]) = skill_closer s"
        using connect_closer [of x s ts c] Inr tc by simp
      show ?thesis
      proof (cases "tools_error x ts")
        case None
        then have "connect_skills p x (s # ss) r = connect_skills p x ss ?r"
          using env Inr tc c by (simp add: Let_def)
        moreover have "skill_ok p x s" using None env Inr tc by (simp add: skill_ok_def)
        ultimately show ?thesis using Cons.IH [of ?r] Cons.prems by (simp add: opened_def)
      next
        case (Some e)
        then have "connect_skills p x (s # ss) r =
            (Some (Errorf ''preloading skill %q tools: %w'' [AStr (sk_name s), AErr e]), close_runtime ?r)"
          using env Inr tc c by (simp add: Let_def)
        moreover have "\<not> skill_ok p x s" "skill_connects p x s"
          using Some env Inr tc by (simp_all add: skill_ok_def skill_connects_def)
        ultimately show ?thesis using Cons.prems by (simp add: opened_def close_runtime_def)
      qed
    qed
  qed
qed

text \<open>
  C10. No subprocess is left behind and none is stopped twice: however \<^verbatim>\<open>Init\<close> of a fresh runtime
  ends, after the \<^verbatim>\<open>Close\<close> its caller defers exactly the closers of the stdio skills it opened
  have run, each once and in the order of the skills; further calls of \<^verbatim>\<open>Close\<close> change
  nothing.
\<close>

theorem init_close_balanced:
  "let res = init_runtime order p ps x (new_runtime af rc); r = close_runtime (snd res) in
   rt_ran r = (if isl (new_model_registry order ps (af_brain af) (case rc of None \<Rightarrow> \<lparr>cfg_models = Some []\<rparr> | Some c \<Rightarrow> c))
               then [] else concat (map skill_closer (opened p x (af_skills af)))) \<and>
   rt_closers r = [] \<and> rt_closed r \<and> close_runtime r = r"
proof -
  let ?rc = "case rc of None \<Rightarrow> \<lparr>cfg_models = Some []\<rparr> | Some c \<Rightarrow> c"
  show ?thesis
  proof (cases "new_model_registry order ps (af_brain af) ?rc")
    case (Inl e)
    then show ?thesis by (simp add: init_runtime_def close_runtime_def Let_def)
  next
    case (Inr rw)
    obtain m ws where rw: "rw = (m, ws)" by (cases rw)
    let ?r1 = "(new_runtime af rc)\<lparr>rt_models := Some m\<rparr>"
    obtain res r2 where c: "connect_skills p x (af_skills af) ?r1 = (res, r2)" by fastforce
    have closed: "rt_ran (close_runtime r2) = concat (map skill_closer (opened p x (af_skills af)))"
      "rt_closers (close_runtime r2) = []"
      using connect_skills_closers [of ?r1 p x "af_skills af"] c by simp_all
    have agent: "rt_ran (close_runtime (r2\<lparr>rt_agent := a\<rparr>)) = rt_ran (close_runtime r2)"
      "rt_closers (close_runtime (r2\<lparr>rt_agent := a\<rparr>)) = rt_closers (close_runtime r2)" for a
      by (simp_all add: close_runtime_def)
    have final: "\<exists>a. snd (init_runtime order p ps x (new_runtime af rc)) \<in> {r2, close_runtime r2, r2\<lparr>rt_agent := a\<rparr>}"
      using Inr rw c by (auto simp: init_runtime_def split: option.split sum.split)
    have ok: "\<not> isl (new_model_registry order ps (af_brain af) ?rc)" using Inr by simp
    then show ?thesis using final closed agent by (auto simp: Let_def)
  qed
qed

definition skill_toolset :: "('t, 'm, 'a) externals \<Rightarrow> skill \<Rightarrow> 't" where
  "skill_toolset x s = fst (projr (connect_skill x s))"

lemma connect_skills_toolsets:
  "list_all (skill_ok p x) ss \<Longrightarrow>
   \<exists>r'. connect_skills p x ss r = (None, r') \<and>
     rt_toolsets r' = rt_toolsets r @ map (skill_toolset x) ss \<and>
     rt_models r' = rt_models r \<and> rt_af r' = rt_af r"
proof (induction ss arbitrary: r)
  case Nil
  then show ?case by simp
next
  case (Cons s ss)
  then obtain ts c where s: "check_skill_env p s = None" "connect_skill x s = Inr (ts, c)" "tools_error x ts = None"
    by (auto simp: skill_ok_def split: sum.splits)
  let ?r = "r\<lparr>rt_toolsets := rt_toolsets r @ [ts],
              rt_closers := rt_closers r @ (case c of None \<Rightarrow> [] | Some c \<Rightarrow> [c])\<rparr>"
  have "connect_skills p x (s # ss) r = connect_skills p x ss ?r" using s by (simp add: Let_def)
  moreover have "skill_toolset x s = ts" using s by (simp add: skill_toolset_def)
  ultimately show ?case using Cons.IH [of ?r] Cons.prems by auto
qed

text \<open>
  C19. \<^verbatim>\<open>Init\<close> succeeds exactly when the model registry could be made and knows its default,
  every skill has its environment, connects and lists its tools, and the agent can be built;
  the runtime's agent is then the very one built from the Agentfile's name and prompt, the default model and
  the toolsets of all skills, in order, and its registry and toolsets are those.
\<close>

theorem init_succeeds:
  "(\<exists>r. init_runtime order p ps x (new_runtime af (Some rc)) = (None, r) \<and>
      rt_agent r = Some a \<and> rt_models r = Some reg \<and> rt_toolsets r = tools \<and> rt_af r = af') \<longleftrightarrow>
   (\<exists>ws m. new_model_registry order ps (af_brain af) rc = Inr (reg, ws) \<and> default_model reg = Inr m \<and>
     list_all (skill_ok p x) (af_skills af) \<and> tools = map (skill_toolset x) (af_skills af) \<and> af' = af \<and>
     new_agent x \<lparr>ac_name = af_name af, ac_description = af_description af, ac_model = m,
                  ac_instruction = af_prompt af, ac_toolsets = tools\<rparr> = Inr a)"
proof (cases "new_model_registry order ps (af_brain af) rc")
  case (Inl e)
  then show ?thesis by (simp add: init_runtime_def)
next
  case (Inr rw)
  obtain reg0 ws where rw: "rw = (reg0, ws)" by (cases rw)
  let ?r1 = "(new_runtime af (Some rc))\<lparr>rt_models := Some reg0\<rparr>"
  show ?thesis
  proof (cases "list_all (skill_ok p x) (af_skills af)")
    case True
    obtain r' where "connect_skills p x (af_skills af) ?r1 = (None, r')"
      "rt_toolsets r' = map (skill_toolset x) (af_skills af)" "rt_af r' = af" "rt_models r' = Some reg0"
      using connect_skills_toolsets [OF True, of ?r1] by auto
    then show ?thesis using Inr rw True
      by (auto simp: init_runtime_def split: sum.split)
  next
    case False
    then have "fst (connect_skills p x (af_skills af) ?r1) \<noteq> None" using connect_skills_ok by blast
    then obtain e r' where "connect_skills p x (af_skills af) ?r1 = (Some e, r')"
      by (cases "connect_skills p x (af_skills af) ?r1") auto
    then show ?thesis using Inr rw False by (simp add: init_runtime_def)
  qed
qed

text \<open>
  \<^verbatim>\<open>Reload\<close> after a successful \<^verbatim>\<open>Init\<close> never panics; a failure leaves the runtime as it
  was; a success swaps in the new Agentfile and an agent with its prompt, on the same toolsets,
  closers and models. The model is the old registry's default: a new Agentfile that differs
  only in its brain gives the same agent.
\<close>

theorem reload_effect:
  assumes "rt_models r = Some reg"
  shows "case reload_runtime x af r of
      ReloadPanic \<Rightarrow> False
    | ReloadFailed e r' \<Rightarrow> r' = r
    | Reloaded r' \<Rightarrow> rt_af r' = af \<and> rt_toolsets r' = rt_toolsets r \<and> rt_closers r' = rt_closers r \<and>
        rt_models r' = rt_models r \<and> rt_closed r' = rt_closed r \<and>
        (\<exists>a m. rt_agent r' = Some a \<and> default_model reg = Inr m \<and>
          new_agent x \<lparr>ac_name = af_name af, ac_description = af_description af, ac_model = m,
                       ac_instruction = af_prompt af, ac_toolsets = rt_toolsets r\<rparr> = Inr a \<and>
          (\<forall>br. \<exists>r''. reload_runtime x (af\<lparr>af_brain := br\<rparr>) r = Reloaded r'' \<and> rt_agent r'' = Some a))"
  using assms by (auto simp: reload_runtime_def split: sum.split)

text \<open>A skill whose variables are missing is refused with all of them listed, and nothing else is.\<close>

lemma check_env_iff:
  "check_skill_env p s = None \<longleftrightarrow> (\<forall>v \<in> set (sk_env s). getenv p v \<noteq> [])"
  by (auto simp: check_skill_env_def missing_env_def filter_empty_conv)

lemma connect_skill_types:
  "\<not> isl (connect_skill x s) \<Longrightarrow> sk_type s \<in> {''stdio'', ''http'', ''sse''}"
  by (auto simp: connect_skill_def Let_def split: if_splits)

definition easy_externals :: "(string, 'm, string) externals" where
  "easy_externals =
    \<lparr>new_toolset = (\<lambda>t. case t of CommandTransport c as \<Rightarrow> Inr c | StreamableTransport u \<Rightarrow> Inr u | SseTransport u \<Rightarrow> Inr u),
     tools_error = (\<lambda>_. None), new_agent = (\<lambda>c. Inr (ac_instruction c))\<rparr>"

definition sample_af :: "string \<Rightarrow> agentfile" where
  "sample_af prompt = \<lparr>af_name = ''bot'', af_description = [], af_prompt = prompt,
     af_brain = \<lparr>br_default = ''m'', br_models = [tuned]\<rparr>,
     af_skills = [\<lparr>sk_name = ''fs'', sk_type = ''stdio'', sk_command = ''mcp-fs'', sk_args = [], sk_source = [], sk_env = []\<rparr>]\<rparr>"

definition loaded :: "(string, unit, string) runtime" where
  "loaded = (new_runtime (sample_af ''old'') None)
     \<lparr>rt_models := Some \<lparr>reg_models = (\<lambda>_. Some (\<lparr>llm_name = ''x'', generate = (\<lambda>c q s. feed [])\<rparr>, new_limiter 0)),
                        reg_default = ''m''\<rparr>\<rparr>"

theorem reload_effect_witness:
  "\<exists>r'. reload_runtime easy_externals (sample_af ''new'') loaded = Reloaded r' \<and> rt_af r' = sample_af ''new''"
proof -
  obtain reg where "rt_models loaded = Some reg" by (simp add: loaded_def)
  moreover have "reload_runtime easy_externals (sample_af ''new'') loaded \<noteq> ReloadFailed e r" for e r
    by (simp add: reload_runtime_def loaded_def default_model_def easy_externals_def)
  ultimately show ?thesis
    using reload_effect [of loaded reg "sample_af ''new''" easy_externals]
    by (cases "reload_runtime easy_externals (sample_af ''new'') loaded") auto
qed

section \<open>Readers during a reload\<close>

text \<open>
  The lock of the runtime: any number of readers (\<^verbatim>\<open>Agent\<close>, \<^verbatim>\<open>Agentfile\<close>), or the writer of
  \<^verbatim>\<open>Reload\<close> between its two assignments. \<open>build\<close> is the part of \<^verbatim>\<open>Reload\<close> before the lock:
  the agent made for an Agentfile, if it can be made.
\<close>

datatype ('a, 'f) lock = Free | Readers nat | Locked 'a 'f | AgentSet 'a 'f | BothSet

record ('a, 'f) shared =
  sh_agent :: 'a
  sh_af :: 'f
  sh_lock :: "('a, 'f) lock"

inductive shared_step :: "('f \<Rightarrow> 'a option) \<Rightarrow> ('a, 'f) shared \<Rightarrow> ('a, 'f) shared \<Rightarrow> bool"
  for build :: "'f \<Rightarrow> 'a option" where
  r_lock: "sh_lock s = Free \<Longrightarrow> shared_step build s (s\<lparr>sh_lock := Readers 1\<rparr>)"
| r_more: "sh_lock s = Readers n \<Longrightarrow> shared_step build s (s\<lparr>sh_lock := Readers (Suc n)\<rparr>)"
| r_unlock: "sh_lock s = Readers n \<Longrightarrow>
    shared_step build s (s\<lparr>sh_lock := (if n \<le> 1 then Free else Readers (n - 1))\<rparr>)"
| w_lock: "sh_lock s = Free \<Longrightarrow> build f = Some a \<Longrightarrow> shared_step build s (s\<lparr>sh_lock := Locked a f\<rparr>)"
| w_agent: "sh_lock s = Locked a f \<Longrightarrow> shared_step build s (s\<lparr>sh_agent := a, sh_lock := AgentSet a f\<rparr>)"
| w_af: "sh_lock s = AgentSet a f \<Longrightarrow> shared_step build s (s\<lparr>sh_af := f, sh_lock := BothSet\<rparr>)"
| w_unlock: "sh_lock s = BothSet \<Longrightarrow> shared_step build s (s\<lparr>sh_lock := Free\<rparr>)"

inductive_cases shared_stepE: "shared_step build s t"

inductive shared_reach :: "('f \<Rightarrow> 'a option) \<Rightarrow> ('a, 'f) shared \<Rightarrow> ('a, 'f) shared \<Rightarrow> bool"
  for build :: "'f \<Rightarrow> 'a option" and s :: "('a, 'f) shared" where
  here: "shared_reach build s s"
| there: "shared_reach build s t \<Longrightarrow> shared_step build t u \<Longrightarrow> shared_reach build s u"

definition paired :: "('f \<Rightarrow> 'a option) \<Rightarrow> ('a, 'f) shared \<Rightarrow> bool" where
  "paired build s =
    (case sh_lock s of
       Locked a f \<Rightarrow> build f = Some a \<and> build (sh_af s) = Some (sh_agent s)
     | AgentSet a f \<Rightarrow> build f = Some a \<and> sh_agent s = a
     | _ \<Rightarrow> build (sh_af s) = Some (sh_agent s))"

lemma paired_step: "shared_step build s t \<Longrightarrow> paired build s \<Longrightarrow> paired build t"
  by (erule shared_stepE) (auto simp: paired_def)

lemma paired_reach: "shared_reach build s t \<Longrightarrow> paired build s \<Longrightarrow> paired build t"
  by (induction rule: shared_reach.induct) (auto intro: paired_step)

text \<open>
  C18. A reload is atomic: whatever readers and reloads do and however their steps interleave,
  a reader that holds the lock sees an agent that was built for the Agentfile it would read;
  the two disagree only while a reload holds the lock.
\<close>

theorem reload_atomic:
  assumes "shared_reach build s t" "sh_lock s = Free" "build (sh_af s) = Some (sh_agent s)"
  shows "case sh_lock t of
      Readers n \<Rightarrow> build (sh_af t) = Some (sh_agent t)
    | Free \<Rightarrow> build (sh_af t) = Some (sh_agent t)
    | Locked a f \<Rightarrow> build (sh_af t) = Some (sh_agent t) \<and> build f = Some a
    | AgentSet a f \<Rightarrow> sh_agent t = a \<and> build f = Some a
    | BothSet \<Rightarrow> build (sh_af t) = Some (sh_agent t)"
proof -
  have "paired build s" using assms(2,3) by (simp add: paired_def)
  then have "paired build t" using paired_reach assms(1) by blast
  then show ?thesis by (auto simp: paired_def split: lock.splits)
qed

definition mid_reload :: "(string, string) shared" where
  "mid_reload = \<lparr>sh_agent = ''new'', sh_af = ''old'', sh_lock = AgentSet ''new'' ''new''\<rparr>"

theorem reload_atomic_witness:
  "shared_reach Some \<lparr>sh_agent = ''old'', sh_af = ''old'', sh_lock = Free\<rparr> mid_reload \<and>
    sh_agent mid_reload = ''new''"
proof -
  let ?s = "\<lparr>sh_agent = ''old'', sh_af = ''old'', sh_lock = Free\<rparr> :: (string, string) shared"
  have "shared_step Some ?s (?s\<lparr>sh_lock := Locked ''new'' ''new''\<rparr>)" by (rule shared_step.w_lock) simp_all
  moreover have "shared_step Some (?s\<lparr>sh_lock := Locked ''new'' ''new''\<rparr>) mid_reload"
    using shared_step.w_agent [of "?s\<lparr>sh_lock := Locked ''new'' ''new''\<rparr>" "''new''" "''new''" Some]
    by (simp add: mid_reload_def)
  ultimately have r: "shared_reach Some ?s mid_reload" by (blast intro: shared_reach.intros)
  then show ?thesis using reload_atomic [OF r] by (simp add: mid_reload_def)
qed

end
