(* ===== verification/Frontend.thy ===== *)
theory Frontend
  imports Registry Llm
begin

text \<open>
  \<^verbatim>\<open>internal/frontend/frontend.go\<close>: the bridge between the frontends and the ADK runner, its
  \<^verbatim>\<open>Chat\<close> loop, and the registry of frontends. The runner and the session service are
  third-party: what they do is an argument.
\<close>

section \<open>Events\<close>

record usage =
  u_prompt :: int32
  u_completion :: int32
  u_total :: int32

definition no_usage :: usage where
  "no_usage = \<lparr>u_prompt = 0, u_completion = 0, u_total = 0\<rparr>"

text \<open>
  \<^verbatim>\<open>Usage\<close> is the pointer to the accumulator of the turn; here it is its value when the
  event is delivered.
\<close>

record agent_event =
  av_text :: string
  av_final :: bool
  av_calls :: "string list"
  av_usage :: "usage option"
  av_author :: string

definition no_agent_event :: agent_event where
  "no_agent_event = \<lparr>av_text = [], av_final = False, av_calls = [], av_usage = None, av_author = []\<rparr>"

type_synonym agent_item = "agent_event \<times> goerr option"

text \<open>What the program reads of an ADK event.\<close>

record adk_event =
  ae_content :: "content option"
  ae_usage :: "usage_metadata option"
  ae_final :: bool
  ae_author :: string

type_synonym adk_item = "adk_event \<times> goerr option"

section \<open>The bridge\<close>

text \<open>
  \<open>br_run\<close> is the runner: the events of a user's message in a session. \<open>br_create\<close> is the
  session service: the ID of a new session.
\<close>

record 's bridge =
  br_run :: "string \<Rightarrow> string \<Rightarrow> content \<Rightarrow> (adk_item, usage \<times> 's) seq"
  br_create :: "string \<Rightarrow> string \<Rightarrow> goerr + string"
  br_app :: string

definition new_agent_bridge :: "('a \<Rightarrow> goerr + (string \<Rightarrow> string \<Rightarrow> content \<Rightarrow> (adk_item, usage \<times> 's) seq))
    \<Rightarrow> (string \<Rightarrow> string \<Rightarrow> goerr + string) \<Rightarrow> 'a \<Rightarrow> goerr + 's bridge" where
  "new_agent_bridge new_runner sessions agent =
    (case new_runner agent of
       Inl e \<Rightarrow> Inl (Errorf ''creating runner: %w'' [AErr e])
     | Inr r \<Rightarrow> Inr \<lparr>br_run = r, br_create = sessions, br_app = ''crated''\<rparr>)"

definition create_session :: "'s bridge \<Rightarrow> string \<Rightarrow> goerr + string" where
  "create_session b user =
    (case br_create b (br_app b) user of
       Inl e \<Rightarrow> Inl (Errorf ''creating session: %w'' [AErr e]) | Inr i \<Rightarrow> Inr i)"

definition add_usage :: "usage \<Rightarrow> usage_metadata option \<Rightarrow> usage" where
  "add_usage u um =
    (case um of None \<Rightarrow> u | Some m \<Rightarrow>
      \<lparr>u_prompt = u_prompt u + prompt_count m, u_completion = u_completion u + candidates_count m,
       u_total = u_total u + total_count m\<rparr>)"

definition event_of :: "adk_event \<Rightarrow> content \<Rightarrow> usage \<Rightarrow> agent_event" where
  "event_of e c tot =
    \<lparr>av_text = concat (map part_text (content_parts c)),
     av_final = ae_final e,
     av_calls = map fc_name (List.map_filter part_call (content_parts c)),
     av_usage = (if ae_final e \<and> 0 < sint (u_total tot) then Some tot else None),
     av_author = ae_author e\<rparr>"

definition chat_body :: "(agent_item, 's) yield \<Rightarrow> (adk_item, usage \<times> 's) yield" where
  "chat_body y x s =
    (case x of (e, err) \<Rightarrow>
     case s of (tot, w) \<Rightarrow>
     case err of
       Some er \<Rightarrow> yield_stop (no_agent_event, Some er) y tot w
     | None \<Rightarrow>
    (case ae_content e of
       None \<Rightarrow> (More, (tot, w))
     | Some c \<Rightarrow>
         (let tot = add_usage tot (ae_usage e) in
          case y (event_of e c tot, None) w of (sg, w) \<Rightarrow> (sg, (tot, w)))))"

text \<open>\<open>user_content\<close> is \<^verbatim>\<open>genai.NewContentFromText\<close> for the user's role.\<close>

definition chat :: "(string \<Rightarrow> content) \<Rightarrow> 's bridge \<Rightarrow> string \<Rightarrow> string \<Rightarrow> string \<Rightarrow> (agent_item, 's) seq" where
  "chat user_content b user session message y w =
    apsnd snd (br_run b user session (user_content message) (chat_body y) (no_usage, w))"

section \<open>What a chat delivers\<close>

definition chat_step :: "(usage, adk_item, agent_item) transducer" where
  "chat_step tot x =
    (case snd x of
       Some er \<Rightarrow> ([(no_agent_event, Some er)], Halt)
     | None \<Rightarrow>
         (case ae_content (fst x) of
            None \<Rightarrow> ([], Continue tot)
          | Some c \<Rightarrow>
              (let tot = add_usage tot (ae_usage (fst x))
               in ([(event_of (fst x) c tot, None)], Continue tot))))"

lemma chat_body_via: "agrees (chat_body y x s) (via chat_step y x s)"
proof -
  obtain e err tot w where x: "x = (e, err)" and s: "s = (tot, w)" by (cases x; cases s)
  show ?thesis
  proof (cases err)
    case (Some er)
    then show ?thesis
      by (cases "y (no_agent_event, Some er) w"; cases "fst (y (no_agent_event, Some er) w)")
         (simp_all add: x s chat_body_def chat_step_def via_def yield_stop_def emit_then_def agrees_def
           del: drive.simps(2))
  next
    case None
    show ?thesis
    proof (cases "ae_content e")
      case c: (Some c)
      let ?i = "(event_of e c (add_usage tot (ae_usage e)), None)"
      show ?thesis
        by (cases "y ?i w"; cases "fst (y ?i w)")
           (simp_all add: x s None c chat_body_def chat_step_def via_def emit_then_def agrees_def Let_def
             del: drive.simps(2))
    qed (simp add: x s None chat_body_def chat_step_def via_def emit_then_def)
  qed
qed

lemma chat_never_crashes: "\<not> crashes chat_step tot xs"
  by (induction xs arbitrary: tot) (auto simp: chat_step_def Let_def split: option.split)

text \<open>A chat over a runner that presents its events presents what they transduce to.\<close>

lemma chat_presents:
  assumes "presents (br_run b user session (user_content message)) xs"
  shows "presents (chat user_content b user session message) (transduce chat_step no_usage xs)"
  by unfold_locales (simp add: chat_def loop_via [OF assms chat_body_via] chat_never_crashes)

text \<open>A bridge over a fixed list of events, which is what a runner amounts to for one message.\<close>

definition replay_bridge :: "adk_item list \<Rightarrow> 's bridge" where
  "replay_bridge xs = \<lparr>br_run = (\<lambda>u s m. feed xs), br_create = (\<lambda>a u. Inr ''s1''), br_app = ''crated''\<rparr>"

interpretation replay: presents "br_run (replay_bridge xs) user session m" xs
  by unfold_locales (simp add: replay_bridge_def)

interpretation chat: presents "chat user_content (replay_bridge xs) user session message" "transduce chat_step no_usage xs"
  by (rule chat_presents) (rule replay.presents_axioms)

definition has_content :: "adk_event \<Rightarrow> bool" where
  "has_content e \<longleftrightarrow> ae_content e \<noteq> None"

definition spent :: "usage \<Rightarrow> adk_event list \<Rightarrow> usage" where
  "spent u es = foldl (\<lambda>u e. add_usage u (ae_usage e)) u (filter has_content es)"

definition ok_items :: "adk_event list \<Rightarrow> adk_item list" where
  "ok_items es = map (\<lambda>e. (e, None)) es"

lemma transduce_ok:
  "transduce chat_step u (ok_items es @ xs) = transduce chat_step u (ok_items es) @ transduce chat_step (spent u es) xs"
proof (induction es arbitrary: u)
  case Nil
  then show ?case by (simp add: ok_items_def spent_def)
next
  case (Cons e es)
  show ?case
  proof (cases "ae_content e")
    case None
    then have "spent u (e # es) = spent u es" by (simp add: spent_def has_content_def)
    then show ?thesis using None Cons.IH [of u] by (simp add: ok_items_def chat_step_def)
  next
    case (Some c)
    then have "spent u (e # es) = spent (add_usage u (ae_usage e)) es" by (simp add: spent_def has_content_def)
    then show ?thesis using Some Cons.IH [of "add_usage u (ae_usage e)"]
      by (simp add: ok_items_def chat_step_def Let_def)
  qed
qed

text \<open>
  What a turn delivers, for any consumer: after any prefix of the runner's events, the next
  event is delivered if it has content, with its texts joined and its tool calls named, and a
  final one carries the usage of all events with content so far, in 32 bits, if its total is
  positive; the usage of an event without content is not counted. An error is delivered and ends
  the turn.
\<close>

theorem chat_delivers:
  "chat user_content (replay_bridge (ok_items es @ x # xs)) user session message y w =
    feed (transduce chat_step no_usage (ok_items es) @
      (case snd x of
         Some er \<Rightarrow> [(no_agent_event, Some er)]
       | None \<Rightarrow>
           (case ae_content (fst x) of
              None \<Rightarrow> transduce chat_step (spent no_usage es) xs
            | Some c \<Rightarrow>
                (event_of (fst x) c (spent no_usage (es @ [fst x])), None) #
                transduce chat_step (spent no_usage (es @ [fst x])) xs))) y w"
  by (auto simp: chat.run transduce_ok chat_step_def Let_def spent_def has_content_def split: option.split)

section \<open>The registry of frontends\<close>

text \<open>A frontend: its name, and \<^verbatim>\<open>Run\<close>, which is what the frontend's own theory models.\<close>

record 'r frontend =
  fe_name :: string
  fe_run :: "'r"

type_synonym 'r frontends = "(string \<times> 'r frontend) list"

definition register_frontend :: "'r frontend \<Rightarrow> 'r frontends \<Rightarrow> goerr option \<times> 'r frontends" where
  "register_frontend f m =
    (if map_of m (fe_name f) \<noteq> None
     then (Some (Errorf ''frontend %q already registered'' [AStr (fe_name f)]), m)
     else (None, (fe_name f, f) # m))"

definition get_frontend :: "string \<Rightarrow> 'r frontends \<Rightarrow> 'r frontend option" where
  "get_frontend name m = map_of m name"

definition registered_frontends :: "(string list \<Rightarrow> string list) \<Rightarrow> 'r frontends \<Rightarrow> string list" where
  "registered_frontends order m = order (map fst m)"

interpretation front: registry register_frontend get_frontend "map fst" fe_name "[]"
proof
  fix n :: string and p q :: "'a frontend" and m :: "'a frontends"
  show "get_frontend n [] = None" by (simp add: get_frontend_def)
  show "get_frontend (fe_name p) m = None \<Longrightarrow>
      \<exists>m'. register_frontend p m = (None, m') \<and>
        (\<forall>n. get_frontend n m' = (if n = fe_name p then Some p else get_frontend n m))"
    by (simp add: register_frontend_def get_frontend_def)
  show "get_frontend (fe_name p) m = Some q \<Longrightarrow> \<exists>e. register_frontend p m = (Some e, m)"
    by (simp add: register_frontend_def get_frontend_def)
  show "n \<in> set (map fst m) \<longleftrightarrow> get_frontend n m \<noteq> None"
    by (metis get_frontend_def map_of_eq_None_iff list.set_map)
qed

text \<open>
  Registration, for frontends as for model providers: it fails exactly for a name that is
  taken, and then changes nothing; otherwise the name is bound and no other binding moves.
\<close>

theorem register_frontend_effect:
  "case register_frontend f m of
     (Some e, m') \<Rightarrow> m' = m \<and> get_frontend (fe_name f) m \<noteq> None
   | (None, m') \<Rightarrow> get_frontend (fe_name f) m = None \<and>
       (\<forall>n. get_frontend n m' = (if n = fe_name f then Some f else get_frontend n m)) \<and>
       set (map fst m') = insert (fe_name f) (set (map fst m))"
proof (cases "get_frontend (fe_name f) m")
  case None
  then obtain m' where m': "register_frontend f m = (None, m')"
    "\<forall>n. get_frontend n m' = (if n = fe_name f then Some f else get_frontend n m)"
    using front.register_new by blast
  have "set (map fst m') = insert (fe_name f) (set (map fst m))"
  proof (rule set_eqI)
    fix n
    show "n \<in> set (map fst m') \<longleftrightarrow> n \<in> insert (fe_name f) (set (map fst m))"
      unfolding front.names_get insert_iff using m'(2) by simp
  qed
  then show ?thesis using None m' by simp
next
  case (Some q)
  then show ?thesis using front.register_dup [OF Some] by auto
qed

end
