(* ===== verification/Repl.thy ===== *)
theory Repl
  imports Frontend
begin

text \<open>
  \<^verbatim>\<open>internal/frontend/repl/repl.go\<close>: the console frontend: its loop over the lines of standard
  input and the printing of a turn.
\<close>

section \<open>Input\<close>

definition newline :: char where "newline = CHR 0x0A"

text \<open>
  \<^verbatim>\<open>ReadString('\n')\<close>: a line with its line feed and the rest of the input; \<open>None\<close> when the
  input ends first, whatever it still held.
\<close>

definition read_line :: "string \<Rightarrow> (string \<times> string) option" where
  "read_line s =
    (case dropWhile (\<lambda>c. c \<noteq> newline) s of
       [] \<Rightarrow> None
     | c # rest \<Rightarrow> Some (takeWhile (\<lambda>c. c \<noteq> newline) s @ [c], rest))"

lemma read_line_shorter: "read_line s = Some (l, rest) \<Longrightarrow> length rest < length s"
proof -
  assume "read_line s = Some (l, rest)"
  then obtain c where "dropWhile (\<lambda>c. c \<noteq> newline) s = c # rest"
    by (auto simp: read_line_def split: list.splits)
  then show ?thesis using length_dropWhile_le [of "\<lambda>c. c \<noteq> newline" s] by simp
qed

text \<open>\<^verbatim>\<open>strings.ToLower\<close>; \<open>low\<close> is the lower case of a rune outside ASCII.\<close>

definition lower_rune :: "(string \<Rightarrow> string) \<Rightarrow> string \<Rightarrow> string" where
  "lower_rune low r =
    (case r of
       [c] \<Rightarrow> if 65 \<le> code c \<and> code c \<le> 90 then [char_of (code c + 32)] else if code c < 128 then r else low r
     | _ \<Rightarrow> low r)"

definition to_lower :: "(string \<Rightarrow> string) \<Rightarrow> string \<Rightarrow> string" where
  "to_lower low s = concat (map (lower_rune low) (runes s))"

definition exit_command :: "string \<Rightarrow> bool" where
  "exit_command s \<longleftrightarrow> s = ''exit'' \<or> s = ''quit''"

section \<open>A turn\<close>

text \<open>The output and the state of the agent, with the local variables of a turn.\<close>

record 's console =
  out :: string
  agent_state :: 's

record turn =
  prev_text :: string
  prompted :: bool

definition print_to :: "string \<Rightarrow> 's console \<Rightarrow> 's console" where
  "print_to s c = c\<lparr>out := out c @ s\<rparr>"

definition agent_prompt :: string where
  "agent_prompt = newline # ''Agent -> ''"

text \<open>\<open>show_error\<close> renders an error.\<close>

definition turn_body :: "(goerr \<Rightarrow> string) \<Rightarrow> (agent_item, turn \<times> 's console) yield" where
  "turn_body show_error x s =
    (case x of (ev, err) \<Rightarrow>
     case s of (v, c) \<Rightarrow>
     case err of
       Some e \<Rightarrow> (Stop, (v, print_to (newline # ''ERROR: '' @ show_error e @ [newline]) c))
     | None \<Rightarrow>
         (let (v, c) = (if av_text ev \<noteq> [] \<and> \<not> prompted v
                        then (v\<lparr>prompted := True\<rparr>, print_to agent_prompt c) else (v, c))
          in if \<not> av_final ev then
               (More, (v\<lparr>prev_text := prev_text v @ av_text ev\<rparr>, print_to (av_text ev) c))
             else
               (let c = (if av_text ev \<noteq> prev_text v then print_to (av_text ev) c else c)
                in (More, (v\<lparr>prev_text := []\<rparr>, c)))))"

definition turn_start :: turn where
  "turn_start = \<lparr>prev_text = [], prompted = False\<rparr>"

section \<open>Run\<close>

text \<open>
  The result of the frontend: it returns an error or nil, or the agent panics or blocks.
  \<open>stopped k\<close> and \<open>stopped_read k\<close> say whether the context is done when the loop looks at
  it in its \<open>k\<close>-th round, before the read and after a failed one; \<open>fault\<close> is the error of
  the input behind its bytes, \<open>None\<close> for its end.
\<close>

datatype run_result = Finished "goerr option" | RunPanicked | RunBlocked

type_synonym 's chatter = "string \<Rightarrow> (agent_item, turn \<times> 's console) seq"

record repl_env =
  stopped :: "nat \<Rightarrow> bool"
  stopped_read :: "nat \<Rightarrow> bool"
  low :: "string \<Rightarrow> string"
  show_error :: "goerr \<Rightarrow> string"

definition user_prompt :: string where
  "user_prompt = newline # ''User -> ''"

function repl_loop :: "repl_env \<Rightarrow> 's chatter \<Rightarrow> goerr option \<Rightarrow> nat \<Rightarrow> string \<Rightarrow> 's console \<Rightarrow> run_result \<times> 's console" where
  "repl_loop env ch err k input c =
    (if stopped env k then (Finished None, c)
     else (let c = print_to user_prompt c in
       case read_line input of
         None \<Rightarrow>
           (case err of
              None \<Rightarrow> (Finished None, print_to [newline] c)
            | Some e \<Rightarrow> if stopped_read env k then (Finished None, c)
                        else (Finished (Some (Errorf ''reading stdin: %w'' [AErr e])), c))
       | Some (line, rest) \<Rightarrow>
           if exit_command (trim_space (to_lower (low env) line)) then (Finished None, c)
           else if trim_space line = [] then repl_loop env ch err (Suc k) rest c
           else (case ch (trim_space line) (turn_body (show_error env)) (turn_start, c) of
               (Returned, (_, c)) \<Rightarrow> repl_loop env ch err (Suc k) rest c
             | (Panicked, (_, c)) \<Rightarrow> (RunPanicked, c)
             | (Blocked, (_, c)) \<Rightarrow> (RunBlocked, c))))"
  by pat_completeness auto
termination
  by (relation "measure (\<lambda>(_, _, _, _, s, _). length s)") (auto dest: read_line_shorter)

declare repl_loop.simps [simp del]

definition repl_run :: "repl_env \<Rightarrow> ('s bridge) \<Rightarrow> (string \<Rightarrow> 's chatter) \<Rightarrow> reader \<Rightarrow> 's console \<Rightarrow> run_result \<times> 's console" where
  "repl_run env b ch input c =
    (case create_session b ''console_user'' of
       Inl e \<Rightarrow> (Finished (Some (Errorf ''creating session: %w'' [AErr e])), c)
     | Inr session \<Rightarrow> repl_loop env (ch session) (fault input) 0 (bytes input) c)"

section \<open>What a turn prints\<close>

abbreviation partial_item :: "string list \<Rightarrow> usage option \<Rightarrow> string \<Rightarrow> string \<Rightarrow> agent_item" where
  "partial_item calls u a t \<equiv>
    (\<lparr>av_text = t, av_final = False, av_calls = calls, av_usage = u, av_author = a\<rparr>, None)"

definition printed :: "string \<Rightarrow> turn \<times> 's console \<Rightarrow> turn \<times> 's console" where
  "printed t s =
    ((fst s)\<lparr>prev_text := prev_text (fst s) @ t, prompted := True\<rparr>,
     print_to ((if prompted (fst s) then [] else agent_prompt) @ t) (snd s))"

lemma turn_partial:
  "turn_body sh (partial_item calls u a t) s = (More, if t = [] then s else printed t s)"
  by (cases s; cases "fst s"; cases "snd s") (simp add: printed_def turn_body_def print_to_def)

lemma printed_printed: "printed s (printed t x) = printed (t @ s) x"
  by (cases x; cases "snd x") (simp add: printed_def print_to_def)

lemma drive_partials:
  "concat ts = s \<Longrightarrow>
   drive (map (partial_item calls u a) ts @ xs) (turn_body sh) x =
    drive xs (turn_body sh) (if s = [] then x else printed s x)"
proof (induction ts arbitrary: s x)
  case Nil
  then show ?case by simp
next
  case (Cons t ts)
  obtain r where r: "concat ts = r" by simp
  then have s: "s = t @ r" using Cons.prems by simp
  show ?case
    using Cons.IH [OF r] by (simp add: s turn_partial printed_printed)
qed

text \<open>
  A turn is rounds of partial texts and a final event (one for each answer of the model: between
  the rounds the agent runs its tools). What a round adds to the console is its partial texts
  and, if the final text is not just these, the final text.
\<close>

record turn_round =
  rd_parts :: "string list"
  rd_final :: string

definition round_items :: "string list \<Rightarrow> usage option \<Rightarrow> string \<Rightarrow> turn_round \<Rightarrow> agent_item list" where
  "round_items calls u a rd =
    map (partial_item calls u a) (rd_parts rd) @
    [(\<lparr>av_text = rd_final rd, av_final = True, av_calls = calls, av_usage = u, av_author = a\<rparr>, None)]"

definition round_text :: "turn_round \<Rightarrow> string" where
  "round_text rd = concat (rd_parts rd) @ (if rd_final rd = concat (rd_parts rd) then [] else rd_final rd)"

lemma drive_round:
  "drive (round_items calls u a rd @ xs) (turn_body sh) (\<lparr>prev_text = [], prompted = b\<rparr>, c) =
    drive xs (turn_body sh)
      (\<lparr>prev_text = [], prompted = (b \<or> round_text rd \<noteq> [])\<rparr>,
       print_to ((if b \<or> round_text rd = [] then [] else agent_prompt) @ round_text rd) c)"
proof -
  obtain s where s: "concat (rd_parts rd) = s" by simp
  show ?thesis
    by (cases c; cases "s = []"; cases "rd_final rd = s"; cases "rd_final rd = []"; cases b)
       (simp_all add: round_items_def round_text_def drive_partials [OF s] s printed_def turn_body_def print_to_def)
qed

lemma drive_rounds:
  "drive (concat (map (round_items calls u a) rds) @ xs) (turn_body sh) (\<lparr>prev_text = [], prompted = b\<rparr>, c) =
    (let t = concat (map round_text rds) in
     drive xs (turn_body sh)
      (\<lparr>prev_text = [], prompted = (b \<or> t \<noteq> [])\<rparr>,
       print_to ((if b \<or> t = [] then [] else agent_prompt) @ t) c))"
proof (induction rds arbitrary: b c)
  case Nil
  then show ?case by (cases c) (simp add: print_to_def)
next
  case (Cons rd rds)
  let ?p = "b \<or> round_text rd \<noteq> []"
  let ?c = "print_to ((if b \<or> round_text rd = [] then [] else agent_prompt) @ round_text rd) c"
  show ?case
    using Cons.IH [of ?p ?c] drive_round [of calls u a rd "concat (map (round_items calls u a) rds) @ xs" sh b c]
    by (cases c; cases b; cases "round_text rd = []") (simp_all add: print_to_def Let_def)
qed

text \<open>
  C23. What a turn prints, for any rounds: nothing when no event has a text, else the prompt, once, and then in
  order each text that was streamed, and each final text that is not just what was streamed before it in its
  round; so a final event that repeats its stream prints nothing, and one that was not streamed prints its text.
  An error is printed after that, and what follows it is not.
\<close>

theorem turn_prints_once:
  "out (snd (snd (drive
      (concat (map (round_items calls u a) rds) @ (case err of None \<Rightarrow> [] | Some e \<Rightarrow> (ev, Some e) # behind))
      (turn_body sh) (turn_start, c)))) =
    out c @
    (let t = concat (map (\<lambda>rd. concat (rd_parts rd) @
        (if rd_final rd = concat (rd_parts rd) then [] else rd_final rd)) rds)
     in if t = [] then [] else newline # ''Agent -> '' @ t) @
    (case err of None \<Rightarrow> [] | Some e \<Rightarrow> newline # ''ERROR: '' @ sh e @ [newline])"
  unfolding turn_start_def drive_rounds
  by (auto simp: Let_def round_text_def [symmetric] print_to_def agent_prompt_def turn_body_def split: option.split)

section \<open>What the agent hears\<close>

text \<open>An agent that notes the messages it is given.\<close>

definition recorder :: "string list chatter" where
  "recorder msg y s = (Returned, (fst s, (snd s)\<lparr>agent_state := agent_state (snd s) @ [msg]\<rparr>))"

lemma recorder_apply [simp]:
  "recorder msg y (v, c) = (Returned, (v, c\<lparr>agent_state := agent_state c @ [msg]\<rparr>))"
  by (simp add: recorder_def)

definition heard :: "repl_env \<Rightarrow> string list \<Rightarrow> string list" where
  "heard env ls =
    filter (\<lambda>m. m \<noteq> []) (map trim_space (takeWhile (\<lambda>l. \<not> exit_command (trim_space (to_lower (low env) l))) ls))"

lemma read_line_line: "newline \<notin> set l \<Longrightarrow> read_line (l @ newline # s) = Some (l @ [newline], s)"
proof -
  assume "newline \<notin> set l"
  then have "\<forall>c \<in> set l. c \<noteq> newline" by auto
  then show ?thesis by (simp add: read_line_def dropWhile_append2 takeWhile_append2)
qed

lemma read_line_none: "newline \<notin> set s \<Longrightarrow> read_line s = None"
proof -
  assume "newline \<notin> set s"
  then have "\<forall>c \<in> set s. c \<noteq> newline" by auto
  then have "dropWhile (\<lambda>c. c \<noteq> newline) s = []" by simp
  then show ?thesis unfolding read_line_def by (simp only: list.case)
qed

text \<open>
  C24. The console hands the agent every line, trimmed, in order, leaving out blank ones, up to
  the first exit command in any case, and then ends without an error; text behind the last line
  feed is never handed over, though the input ended there.
\<close>

theorem repl_hears:
  assumes "\<forall>l \<in> set ls. newline \<notin> set l" "newline \<notin> set tail" "\<forall>k. \<not> stopped env k"
  shows "\<exists>o'. repl_loop env recorder None k (concat (map (\<lambda>l. l @ [newline]) ls) @ tail) c =
    (Finished None, \<lparr>out = o', agent_state = agent_state c @ heard env (map (\<lambda>l. l @ [newline]) ls)\<rparr>)"
  using assms(1)
proof (induction ls arbitrary: k c)
  case Nil
  then show ?case using assms(2,3)
    by (cases c) (simp add: repl_loop.simps read_line_none heard_def print_to_def Let_def)
next
  case (Cons l ls)
  let ?line = "l @ [newline]" and ?rest = "concat (map (\<lambda>l. l @ [newline]) ls) @ tail"
  have rd: "read_line (concat (map (\<lambda>l. l @ [newline]) (l # ls)) @ tail) = Some (?line, ?rest)"
    using read_line_line [of l ?rest] Cons.prems by simp
  note step = repl_loop.simps [of env recorder None k "concat (map (\<lambda>l. l @ [newline]) (l # ls)) @ tail" c]
  show ?case
  proof (cases "exit_command (trim_space (to_lower (low env) ?line))")
    case True
    then show ?thesis using assms(3)
      unfolding step rd by (cases c) (simp add: heard_def print_to_def Let_def)
  next
    case go: False
    show ?thesis
    proof (cases "trim_space ?line = []")
      case True
      then show ?thesis using assms(3) go Cons.IH [of "Suc k" "print_to user_prompt c"] Cons.prems
        unfolding step rd by (simp add: heard_def print_to_def Let_def)
    next
      case False
      let ?c = "(print_to user_prompt c)\<lparr>agent_state := agent_state c @ [trim_space ?line]\<rparr>"
      show ?thesis using assms(3) go False Cons.IH [of "Suc k" ?c] Cons.prems
        unfolding step rd by (simp add: heard_def print_to_def Let_def)
    qed
  qed
qed

lemma to_lower_id:
  "list_all (\<lambda>c. code c < 128 \<and> \<not> (65 \<le> code c \<and> code c \<le> 90)) s \<Longrightarrow> to_lower lw s = s"
  by (induction s) (auto simp: to_lower_def runes_ascii lower_rune_def)

definition quiet_env :: repl_env where
  "quiet_env = \<lparr>stopped = (\<lambda>_. False), stopped_read = (\<lambda>_. False), low = id, show_error = (\<lambda>_. [])\<rparr>"

theorem repl_hears_witness:
  "\<exists>o'. repl_loop quiet_env recorder None 0
      (concat (map (\<lambda>l. l @ [newline]) ['' hi '', [], ''quit'', ''more'']) @ ''lost'') \<lparr>out = [], agent_state = []\<rparr> =
    (Finished None, \<lparr>out = o', agent_state = [''hi'']\<rparr>)"
proof -
  have h: "heard quiet_env (map (\<lambda>l. l @ [newline]) ['' hi '', [], ''quit'', ''more'']) = [''hi'']"
    by (simp add: heard_def to_lower_id newline_def exit_command_def trim_space_def runes_ascii is_space_def
        drop_while_end_def)
  have p: "\<forall>l \<in> set ['' hi '', [], ''quit'', ''more'']. newline \<notin> set l" "newline \<notin> set ''lost''"
    "\<forall>k. \<not> stopped quiet_env k"
    by (simp_all add: newline_def quiet_env_def)
  show ?thesis
    using repl_hears [OF p, of 0 "\<lparr>out = [], agent_state = []\<rparr>"] unfolding h by simp
qed

end
