(* ===== verification/Serving.thy ===== *)
theory Serving
  imports RuntimeCfg
begin

text \<open>
  What the two HTTP servers of the program (\<^verbatim>\<open>internal/health/health.go\<close> and
  \<^verbatim>\<open>internal/frontend/playground/playground.go\<close>) share: replies, the request multiplexer of
  \<^verbatim>\<open>net/http\<close> as the program uses it, and the life of a server from \<^verbatim>\<open>Serve\<close> to its shutdown when
  the context is cancelled.
\<close>

section \<open>Replies\<close>

record http_reply =
  rp_code :: int
  rp_type :: string
  rp_body :: string

text \<open>\<^verbatim>\<open>http.Error\<close> and \<^verbatim>\<open>http.NotFound\<close>.\<close>

definition plain_error :: "string \<Rightarrow> int \<Rightarrow> http_reply" where
  "plain_error m n = \<lparr>rp_code = n, rp_type = ''text/plain; charset=utf-8'', rp_body = m @ [CHR 0x0A]\<rparr>"

definition not_found :: http_reply where
  "not_found = plain_error ''404 page not found'' 404"

section \<open>Paths\<close>

text \<open>
  A request's path comes escaped, as \<^verbatim>\<open>URL.EscapedPath\<close> gives it; a handler sees it decoded, as
  \<^verbatim>\<open>URL.Path\<close>. The server answers 400 to a path with a bad escape, and to one that is not empty and does not
  start with a slash. (The target \<^verbatim>\<open>*\<close> of an \<^verbatim>\<open>OPTIONS\<close> request is not a path; the server answers it without the multiplexer.)
\<close>

definition hex_val :: "char \<Rightarrow> nat option" where
  "hex_val c =
    (let n = code c in
     if 48 \<le> n \<and> n \<le> 57 then Some (n - 48)
     else if 65 \<le> n \<and> n \<le> 70 then Some (n - 55)
     else if 97 \<le> n \<and> n \<le> 102 then Some (n - 87) else None)"

fun unescape :: "string \<Rightarrow> string option" where
  "unescape [] = Some []"
| "unescape (c # s) =
    (if c \<noteq> CHR ''%'' then map_option (Cons c) (unescape s)
     else case s of
       a # b # r \<Rightarrow>
         (case (hex_val a, hex_val b) of
            (Some x, Some y) \<Rightarrow> map_option (Cons (char_of (16 * x + y))) (unescape r)
          | _ \<Rightarrow> None)
     | _ \<Rightarrow> None)"

definition url_path :: "string \<Rightarrow> string option" where
  "url_path path = (if path \<noteq> [] \<and> hd path \<noteq> slash then None else unescape path)"

text \<open>
  The segments of an escaped path, each decoded for itself: an escaped slash does not separate, and
  an escaped dot is only a dot once the path has been cut. Everything after the last slash is a segment, too.
\<close>

definition segments :: "string \<Rightarrow> string list" where
  "segments path =
    (if path = [] then []
     else map (\<lambda>e. case unescape e of None \<Rightarrow> e | Some s \<Rightarrow> s) (path_elems (tl path)))"

text \<open>\<^verbatim>\<open>cleanPath\<close>: the canonical path, which starts with a slash and keeps one at its end.\<close>

definition clean_path :: "string \<Rightarrow> string" where
  "clean_path path =
    (if path = [] then [slash]
     else (let p = (if hd path = slash then path else slash # path); np = clean p in
       if last p = slash \<and> np \<noteq> [slash] then np @ [slash] else np))"

section \<open>The multiplexer\<close>

text \<open>
  A pattern is a method, or none for any, and a path; a path that ends with a slash matches all paths
  below it. The program registers no pattern with a host, a wildcard or an escape. A pattern is matched with
  the decoded segments of a path.
\<close>

record 'h pattern =
  pt_method :: "string option"
  pt_path :: string
  pt_handler :: 'h

definition path_matches :: "string \<Rightarrow> string \<Rightarrow> bool" where
  "path_matches pat path \<longleftrightarrow>
    (let ps = path_elems (tl pat); ss = segments path in
     if last ps = [] then length ps \<le> length ss \<and> take (length ps - 1) ss = butlast ps else ps = ss)"

definition method_matches :: "string option \<Rightarrow> string \<Rightarrow> bool" where
  "method_matches m verb \<longleftrightarrow> (case m of None \<Rightarrow> True | Some v \<Rightarrow> v = verb \<or> (v = ''GET'' \<and> verb = ''HEAD''))"

text \<open>The most specific pattern wins: the one that fixes the most segments.\<close>

definition fixed :: "'h pattern \<Rightarrow> nat" where
  "fixed p = length (filter (\<lambda>s. s \<noteq> []) (path_elems (tl (pt_path p))))"

fun most_specific :: "'h pattern list \<Rightarrow> 'h pattern option" where
  "most_specific [] = None"
| "most_specific (p # ps) =
    (case most_specific ps of
       None \<Rightarrow> Some p
     | Some q \<Rightarrow> if fixed q \<le> fixed p then Some p else Some q)"

definition best_match :: "'h pattern list \<Rightarrow> string \<Rightarrow> string \<Rightarrow> 'h pattern option" where
  "best_match ps verb path =
    most_specific (filter (\<lambda>p. method_matches (pt_method p) verb \<and> path_matches (pt_path p) path) ps)"

text \<open>\<^verbatim>\<open>exactMatch\<close>: the pattern is the path, not only a part of it.\<close>

definition ends_slash :: "string \<Rightarrow> bool" where
  "ends_slash path \<longleftrightarrow> path \<noteq> [] \<and> last path = slash"

definition exact :: "'h pattern option \<Rightarrow> string \<Rightarrow> bool" where
  "exact m path \<longleftrightarrow>
    (case m of
       None \<Rightarrow> False
     | Some p \<Rightarrow> last (path_elems (tl (pt_path p))) \<noteq> [] \<or>
         ends_slash path \<and> length (path_elems (tl (pt_path p))) = length (filter (\<lambda>c. c = slash) path))"

text \<open>
  What becomes of a request: a handler gets it, it is sent to the URL with another path, or the server answers
  itself. A path without a pattern of its own goes to its decoded form with a slash when the path with a
  slash has one, and a path that is not canonical to the canonical one. \<^verbatim>\<open>CONNECT\<close> requests are not made
  canonical.
\<close>

datatype 'h routed = Handle 'h | Redirect string | NoRoute | WrongMethod | Malformed

definition route :: "'h pattern list \<Rightarrow> string \<Rightarrow> string \<Rightarrow> 'h routed" where
  "route ps verb path =
    (case url_path path of
       None \<Rightarrow> Malformed
     | Some d \<Rightarrow>
    (let q = (if verb = ''CONNECT'' then path else clean_path path); m = best_match ps verb q in
     if \<not> exact m q \<and> q \<noteq> [] \<and> \<not> ends_slash q \<and> exact (best_match ps verb (q @ [slash])) (q @ [slash])
     then Redirect (clean_path d @ [slash])
     else if q \<noteq> path then Redirect q
     else case m of
       Some p \<Rightarrow> Handle (pt_handler p)
     | None \<Rightarrow>
         if filter (\<lambda>p. pt_method p \<noteq> None \<and>
             (path_matches (pt_path p) q \<or> \<not> ends_slash q \<and> path_matches (pt_path p) (q @ [slash]))) ps = []
         then NoRoute else WrongMethod))"

lemma path_elems_some: "path_elems s \<noteq> []"
  by (cases s) (auto split: list.split)

lemma path_elems_no_slash: "e \<in> set (path_elems s) \<Longrightarrow> slash \<notin> set e"
  by (induction s arbitrary: e) (auto split: list.splits if_splits)

lemma path_elems_plain: "slash \<notin> set x \<Longrightarrow> path_elems x = [x]"
  by (induction x) auto

lemma path_elems_more: "slash \<notin> set x \<Longrightarrow> path_elems (x @ slash # t) = x # path_elems t"
  by (induction x) auto

lemma path_elems_end: "path_elems (s @ [slash]) = path_elems s @ [[]]"
proof (induction s)
  case Nil
  then show ?case by simp
next
  case (Cons a s)
  then show ?case using path_elems_some [of s] by (auto split: list.split)
qed

lemma path_elems_length: "length (path_elems s) = Suc (length (filter (\<lambda>c. c = slash) s))"
proof (induction s)
  case Nil
  then show ?case by simp
next
  case (Cons a s)
  then show ?case using path_elems_some [of s] by (cases "path_elems s") simp_all
qed

lemma path_elems_join: "\<forall>e \<in> set es. slash \<notin> set e \<Longrightarrow> path_elems (join es [slash]) = (if es = [] then [[]] else es)"
proof (induction es)
  case Nil
  then show ?case by simp
next
  case (Cons x xs)
  then show ?case by (cases xs) (simp_all add: path_elems_plain path_elems_more)
qed

lemma segments_end: "q \<noteq> [] \<Longrightarrow> segments (q @ [slash]) = segments q @ [[]]"
  by (simp add: segments_def path_elems_end)

lemma segments_some: "segments q = [] \<longleftrightarrow> q = []"
  by (simp add: segments_def path_elems_some)

lemma segments_length: "q \<noteq> [] \<Longrightarrow> hd q = slash \<Longrightarrow> length (segments q) = length (filter (\<lambda>c. c = slash) q)"
  by (cases q) (simp_all add: segments_def path_elems_length)

lemma clean_path_rooted: "clean_path path \<noteq> [] \<and> hd (clean_path path) = slash"
proof -
  have "clean (slash # q) \<noteq> [] \<and> hd (clean (slash # q)) = slash" for q
  proof -
    have "has_prefix (slash # q) [slash]" by (cases q) simp_all
    then show ?thesis by (simp add: clean_def Let_def)
  qed
  then show ?thesis by (cases path) (auto simp: clean_path_def Let_def)
qed

text \<open>A cleaned rooted path has no element \<^verbatim>\<open>..\<close>.\<close>

lemma resolve_rooted:
  "''..'' \<notin> set acc \<Longrightarrow> ''..'' \<notin> set (resolve True acc es) \<and> set (resolve True acc es) \<subseteq> set acc \<union> set es"
  by (induction True acc es rule: resolve.induct) (auto split: list.splits)

lemma clean_no_parent: "''..'' \<notin> set (path_elems (clean (slash # s)))"
proof -
  let ?r = "resolve True [] (path_elems (slash # s))"
  have r: "''..'' \<notin> set ?r" "set ?r \<subseteq> set (path_elems (slash # s))" using resolve_rooted [of "[]"] by auto
  have rooted: "has_prefix (slash # s) [slash]" by (cases s) simp_all
  have "path_elems (clean (slash # s)) = [] # path_elems (join ?r [slash])"
    unfolding clean_def Let_def rooted by simp
  also have "\<dots> = [] # (if ?r = [] then [[]] else ?r)"
    using r(2) path_elems_no_slash by (subst path_elems_join) blast+
  finally show ?thesis using r(1) by simp
qed

section \<open>The life of a server\<close>

text \<open>
  \<^verbatim>\<open>Serve\<close> accepts connections until it fails or \<^verbatim>\<open>Shutdown\<close> was called; then it returns
  \<^verbatim>\<open>http.ErrServerClosed\<close>. It never returns without an error. A goroutine waits for the context to be done
  and then calls \<^verbatim>\<open>Shutdown\<close>.
\<close>

definition server_closed :: goerr where
  "server_closed = Ext ''http: Server closed''"

record serving_state =
  sv_cancelled :: bool
  sv_shutdown :: bool
  sv_returned :: "goerr option"

definition serving_start :: serving_state where
  "serving_start = \<lparr>sv_cancelled = False, sv_shutdown = False, sv_returned = None\<rparr>"

datatype serving_event = ContextDone | ShutdownCalled | AcceptFailed goerr | ServeEnds

fun serving_step :: "serving_event \<Rightarrow> serving_state \<Rightarrow> serving_state option" where
  "serving_step ContextDone s = Some (s\<lparr>sv_cancelled := True\<rparr>)"
| "serving_step ShutdownCalled s =
    (if sv_cancelled s \<and> \<not> sv_shutdown s then Some (s\<lparr>sv_shutdown := True\<rparr>) else None)"
| "serving_step (AcceptFailed e) s =
    (if \<not> sv_shutdown s \<and> sv_returned s = None \<and> e \<noteq> server_closed then Some (s\<lparr>sv_returned := Some e\<rparr>) else None)"
| "serving_step ServeEnds s =
    (if sv_shutdown s \<and> sv_returned s = None then Some (s\<lparr>sv_returned := Some server_closed\<rparr>) else None)"

text \<open>
  The server is shut down only after the context is done, and so it is closed without a
  failure only then.
\<close>

definition serving_ok :: "serving_event list \<Rightarrow> serving_state \<Rightarrow> bool" where
  "serving_ok es s \<longleftrightarrow>
    (sv_shutdown s \<longrightarrow> sv_cancelled s) \<and> (sv_cancelled s \<longleftrightarrow> ContextDone \<in> set es) \<and>
    (sv_returned s = Some server_closed \<longrightarrow> sv_shutdown s)"

interpretation serving: machine_invariant serving_step serving_start serving_ok
proof unfold_locales
  show "serving_ok [] serving_start" by (simp add: serving_ok_def serving_start_def)
next
  fix es s e t
  assume "serving_ok es s" "serving_step e s = Some t"
  then show "serving_ok (es @ [e]) t"
    by (cases e) (auto simp: serving_ok_def split: if_splits)
qed

text \<open>Once the context is done, the server ends in at most two steps of its own.\<close>

lemma serving_drains:
  assumes "run_steps serving_step es serving_start = Some s" "sv_cancelled s"
  shows "\<exists>fs t. length fs \<le> 2 \<and> set fs \<subseteq> {ShutdownCalled, ServeEnds} \<and>
    run_steps serving_step fs s = Some t \<and> sv_returned t \<noteq> None"
proof (cases "sv_returned s")
  case None
  show ?thesis
  proof (cases "sv_shutdown s")
    case True
    then show ?thesis using None by (intro exI [of _ "[ServeEnds]"]) simp
  next
    case False
    then show ?thesis using None assms(2) by (intro exI [of _ "[ShutdownCalled, ServeEnds]"]) simp
  qed
next
  case (Some e)
  then show ?thesis by (intro exI [of _ "[]"]) simp
qed

end
