(* ===== verification/Playground.thy ===== *)
theory Playground
  imports Frontend Serving "HOL-Library.Sublist"
begin

text \<open>
  \<^verbatim>\<open>internal/frontend/playground/playground.go\<close>: the web frontend: the origins a WebSocket may come
  from, the port, the messages to the browser, the streaming of a turn and the read loop of a
  connection, the pages of the HTTP server and the errors of \<^verbatim>\<open>Run\<close>. The server's life until its
  shutdown is in \<open>Serving\<close>; the embedded files are arguments.
\<close>

section \<open>Origins\<close>

text \<open>\<^verbatim>\<open>splitComma\<close> with its loop over indices, and \<^verbatim>\<open>trimSpace\<close>.\<close>

fun split_comma_loop :: "string \<Rightarrow> string \<Rightarrow> string list \<Rightarrow> string list" where
  "split_comma_loop [] part parts = parts @ [part]"
| "split_comma_loop (c # s) part parts =
    (if c = CHR '','' then split_comma_loop s [] (parts @ [part]) else split_comma_loop s (part @ [c]) parts)"

definition split_comma :: "string \<Rightarrow> string list" where
  "split_comma s = split_comma_loop s [] []"

definition blank :: "char \<Rightarrow> bool" where
  "blank c \<longleftrightarrow> c = CHR '' '' \<or> c = CHR 0x09"

fun trim_left :: "string \<Rightarrow> string" where
  "trim_left [] = []"
| "trim_left (c # s) = (if blank c then trim_left s else c # s)"

function trim_end :: "string \<Rightarrow> string" where
  "trim_end s = (if s \<noteq> [] \<and> blank (last s) then trim_end (butlast s) else s)"
  by pat_completeness auto
termination
  by (relation "measure length") auto

declare trim_end.simps [simp del]

definition trim_blanks :: "string \<Rightarrow> string" where
  "trim_blanks s = trim_end (trim_left s)"

definition split_origins :: "string \<Rightarrow> string list" where
  "split_origins s = filter (\<lambda>p. p \<noteq> []) (map trim_blanks (split_comma s))"

definition allowed_origins :: "platform \<Rightarrow> string \<Rightarrow> string list" where
  "allowed_origins p port =
    (if getenv p ''ALLOWED_ORIGINS'' \<noteq> [] then split_origins (getenv p ''ALLOWED_ORIGINS'')
     else [''http://localhost:'' @ port, ''http://127.0.0.1:'' @ port])"

text \<open>\<^verbatim>\<open>CheckOrigin\<close> of the upgrader, on the request's \<^verbatim>\<open>Origin\<close> header.\<close>

definition check_origin :: "platform \<Rightarrow> string \<Rightarrow> string \<Rightarrow> bool" where
  "check_origin p port origin \<longleftrightarrow> origin = [] \<or> origin \<in> set (allowed_origins p port)"

text \<open>The port, as the string it is used as.\<close>

definition playground_port :: "platform \<Rightarrow> goerr + string" where
  "playground_port p =
    (let port = (if getenv p ''PLAYGROUND_PORT'' = [] then ''3000'' else getenv p ''PLAYGROUND_PORT'') in
     case parse_int port of
       None \<Rightarrow> Inl (Errorf ''invalid PLAYGROUND_PORT %q: must be an integer between 1 and 65535'' [AStr port])
     | Some n \<Rightarrow> if n < 1 \<or> n > 65535
                 then Inl (Errorf ''invalid PLAYGROUND_PORT %q: must be an integer between 1 and 65535'' [AStr port])
                 else Inr port)"

section \<open>Messages\<close>

record ws_incoming =
  wi_type :: string
  wi_text :: string

record ws_outgoing =
  wo_type :: string
  wo_text :: string
  wo_tools :: "string list"
  wo_prompt :: int32
  wo_completion :: int32
  wo_total :: int32

definition ws_message :: "string \<Rightarrow> ws_outgoing" where
  "ws_message t = \<lparr>wo_type = t, wo_text = [], wo_tools = [], wo_prompt = 0, wo_completion = 0, wo_total = 0\<rparr>"

definition dec_incoming :: "json \<Rightarrow> ws_incoming option" where
  "dec_incoming j = dec_struct (\<lambda>ms. do {
     t \<leftarrow> dec_string (field ''type'' ms);
     s \<leftarrow> dec_string (field ''text'' ms);
     Some \<lparr>wi_type = t, wi_text = s\<rparr>
   }) (Some j)"

definition enc_outgoing :: "ws_outgoing \<Rightarrow> json" where
  "enc_outgoing m = JObj
    ([(''type'', JStr (wo_type m))] @ omit_string ''text'' (wo_text m) @
     omit_list ''tools'' (map JStr (wo_tools m)) @
     omit_int ''promptTokens'' (sint (wo_prompt m)) @
     omit_int ''completionTokens'' (sint (wo_completion m)) @
     omit_int ''totalTokens'' (sint (wo_total m)))"

section \<open>A connection\<close>

text \<open>
  A WebSocket: the texts written to it so far, the number of writes tried, and the error each of
  them fails with, if any; \<open>cn_agent\<close> is the state of the agent behind the bridge.
\<close>

record 's conn =
  cn_sent :: "string list"
  cn_tries :: nat
  cn_fault :: "nat \<Rightarrow> goerr option"
  cn_agent :: 's

definition write_json :: "ws_outgoing \<Rightarrow> 's conn \<Rightarrow> goerr option \<times> 's conn" where
  "write_json m c =
    (let c' = c\<lparr>cn_tries := Suc (cn_tries c)\<rparr> in
     case cn_fault c (cn_tries c) of
       Some e \<Rightarrow> (Some e, c')
     | None \<Rightarrow> (None, c'\<lparr>cn_sent := cn_sent c @ [marshal (enc_outgoing m)]\<rparr>))"

definition done_message :: "agent_event \<Rightarrow> ws_outgoing" where
  "done_message ev =
    (case av_usage ev of
       None \<Rightarrow> ws_message ''done''
     | Some u \<Rightarrow> (ws_message ''done'')\<lparr>wo_prompt := u_prompt u, wo_completion := u_completion u, wo_total := u_total u\<rparr>)"

text \<open>The body of the loop of \<^verbatim>\<open>streamChat\<close>; \<open>show_error\<close> renders an error.\<close>

definition stream_body :: "(goerr \<Rightarrow> string) \<Rightarrow> (agent_item, 's conn) yield" where
  "stream_body show_error x c =
    (case x of (ev, err) \<Rightarrow>
     case err of
       Some e \<Rightarrow> (Stop, snd (write_json ((ws_message ''error'')\<lparr>wo_text := show_error e\<rparr>) c))
     | None \<Rightarrow>
    (case (if av_calls ev \<noteq> [] then write_json ((ws_message ''tool_call'')\<lparr>wo_tools := av_calls ev\<rparr>) c else (None, c)) of
       (Some e, c) \<Rightarrow> (Stop, c)
     | (None, c) \<Rightarrow>
    (case (if av_text ev \<noteq> [] then write_json ((ws_message ''text'')\<lparr>wo_text := av_text ev\<rparr>) c else (None, c)) of
       (Some e, c) \<Rightarrow> (Stop, c)
     | (None, c) \<Rightarrow> (More, if av_final ev then snd (write_json (done_message ev) c) else c))))"

text \<open>
  What \<^verbatim>\<open>ReadJSON\<close> reads off the connection: the first JSON value of the next message, to be decoded
  into a \<^verbatim>\<open>wsIncoming\<close>, or the error that ends it.
\<close>

datatype ws_read = Received json | Bad goerr

definition stream_chat :: "(goerr \<Rightarrow> string) \<Rightarrow> (string \<Rightarrow> (agent_item, 's conn) seq) \<Rightarrow> string \<Rightarrow> 's conn \<Rightarrow> outcome \<times> 's conn" where
  "stream_chat show_error ch text c = ch text (stream_body show_error) c"

text \<open>
  The read loop of \<^verbatim>\<open>handleWebSocket\<close>: a read error, also of a value that does not decode, ends
  it; a value that is no message with text is passed over.
\<close>

fun read_loop :: "(goerr \<Rightarrow> string) \<Rightarrow> (string \<Rightarrow> (agent_item, 's conn) seq) \<Rightarrow> ws_read list \<Rightarrow> 's conn \<Rightarrow> outcome \<times> 's conn" where
  "read_loop show_error ch [] c = (Blocked, c)"
| "read_loop show_error ch (Bad e # rs) c = (Returned, c)"
| "read_loop show_error ch (Received s # rs) c =
    (case dec_incoming s of
       None \<Rightarrow> (Returned, c)
     | Some msg \<Rightarrow>
         if wi_type msg \<noteq> ''message'' \<or> wi_text msg = [] then read_loop show_error ch rs c
         else (case stream_chat show_error ch (wi_text msg) c of
                 (Returned, c) \<Rightarrow> read_loop show_error ch rs c
               | r \<Rightarrow> r))"

text \<open>The whole connection: the upgrade, which refuses a bad origin, the session, the loop.\<close>

definition handle_websocket :: "platform \<Rightarrow> (goerr \<Rightarrow> string) \<Rightarrow> (string \<Rightarrow> content) \<Rightarrow> string \<Rightarrow> 's conn bridge
    \<Rightarrow> string \<Rightarrow> string \<Rightarrow> ws_read list \<Rightarrow> 's conn \<Rightarrow> outcome \<times> 's conn" where
  "handle_websocket p show_error user_content port b origin user rs c =
    (if \<not> check_origin p port origin then (Returned, c)
     else (let user = (if user = [] then ''playground-user'' else user) in
       case create_session b user of
         Inl e \<Rightarrow> (Returned, snd (write_json ((ws_message ''error'')\<lparr>wo_text := ''Failed to create session''\<rparr>) c))
       | Inr session \<Rightarrow> read_loop show_error (chat user_content b user session) rs c))"

section \<open>The server\<close>

datatype page = StaticFiles | IndexPage | HealthPage | SocketPage

definition playground_routes :: "page pattern list" where
  "playground_routes =
    [\<lparr>pt_method = None, pt_path = ''/static/'', pt_handler = StaticFiles\<rparr>,
     \<lparr>pt_method = None, pt_path = ''/'', pt_handler = IndexPage\<rparr>,
     \<lparr>pt_method = None, pt_path = ''/api/health'', pt_handler = HealthPage\<rparr>,
     \<lparr>pt_method = None, pt_path = ''/ws'', pt_handler = SocketPage\<rparr>]"

text \<open>
  The handler of the embedded files: \<^verbatim>\<open>StripPrefix\<close> takes \<^verbatim>\<open>/static/\<close> off the decoded path and off the
  escaped one, and answers 404 when one of them does not start with it. The file server then opens the cleaned rest:
  \<open>file_server rest name\<close> is its reply to the path \<open>rest\<close> from the file called \<open>name\<close>.
\<close>

definition serve_static :: "(string \<Rightarrow> string \<Rightarrow> http_reply) \<Rightarrow> string \<Rightarrow> string \<Rightarrow> http_reply" where
  "serve_static file_server path d =
    (let rest = trim_prefix d ''/static/'' in
     if length rest < length d \<and> length (trim_prefix path ''/static/'') < length path
     then file_server rest (clean (slash # rest)) else not_found)"

text \<open>The index, on the decoded path; \<open>index\<close> is what reading the embedded \<^verbatim>\<open>static/index.html\<close> gives.\<close>

definition serve_index :: "goerr + string \<Rightarrow> string \<Rightarrow> http_reply" where
  "serve_index index d =
    (if d \<noteq> ''/'' then not_found
     else case index of
       Inl e \<Rightarrow> plain_error ''index.html not found'' 500
     | Inr body \<Rightarrow> \<lparr>rp_code = 200, rp_type = ''text/html; charset=utf-8'', rp_body = body\<rparr>)"

definition serve_api_health :: http_reply where
  "serve_api_health = \<lparr>rp_code = 200, rp_type = ''application/json'',
     rp_body = ''{'' @ [DQ] @ ''status'' @ [DQ] @ '':'' @ [DQ] @ ''ok'' @ [DQ] @ ''}''\<rparr>"

text \<open>
  What a request for an escaped path gets: a reply, a redirect, the WebSocket handler, which is
  \<open>handle_websocket\<close>, or a 400 of the server for a path that is none.
\<close>

datatype served = Answer http_reply | Moved string | ToSocket | Refused

definition playground_handler :: "(string \<Rightarrow> string \<Rightarrow> http_reply) \<Rightarrow> goerr + string \<Rightarrow> string \<Rightarrow> string \<Rightarrow> served" where
  "playground_handler file_server index verb path =
    (case url_path path of
       None \<Rightarrow> Refused
     | Some d \<Rightarrow>
    (case route playground_routes verb path of
       Handle StaticFiles \<Rightarrow> Answer (serve_static file_server path d)
     | Handle IndexPage \<Rightarrow> Answer (serve_index index d)
     | Handle HealthPage \<Rightarrow> Answer serve_api_health
     | Handle SocketPage \<Rightarrow> ToSocket
     | Redirect q \<Rightarrow> Moved q
     | NoRoute \<Rightarrow> Answer not_found
     | WrongMethod \<Rightarrow> Answer (plain_error ''Method Not Allowed'' 405)
     | Malformed \<Rightarrow> Refused))"

text \<open>
  \<^verbatim>\<open>Run\<close>: \<open>sub\<close> is the error of \<^verbatim>\<open>fs.Sub\<close>, \<open>listen\<close> the error of \<^verbatim>\<open>net.Listen\<close> on an address, \<open>returned\<close>
  what \<^verbatim>\<open>Serve\<close> returns. As a frontend it also gives whether the context is done when it returns.
\<close>

definition playground_run :: "platform \<Rightarrow> goerr option \<Rightarrow> (string \<Rightarrow> goerr option) \<Rightarrow> goerr \<Rightarrow> goerr option" where
  "playground_run p sub listen returned =
    (case sub of
       Some e \<Rightarrow> Some (Errorf ''loading static files: %w'' [AErr e])
     | None \<Rightarrow>
    (case playground_port p of
       Inl e \<Rightarrow> Some e
     | Inr port \<Rightarrow>
    (case listen (CHR '':'' # port) of
       Some e \<Rightarrow> Some (Errorf ''listening on :%s: %w'' [AStr port, AErr e])
     | None \<Rightarrow>
         if returned \<noteq> server_closed then Some (Errorf ''http server: %w'' [AErr returned]) else None)))"

definition playground_frontend :: "platform \<Rightarrow> goerr option \<Rightarrow> (string \<Rightarrow> goerr option) \<Rightarrow> goerr \<Rightarrow> bool
    \<Rightarrow> ('b bridge \<Rightarrow> goerr option \<times> bool) frontend" where
  "playground_frontend p sub listen returned cancelled =
    \<lparr>fe_name = ''playground'', fe_run = (\<lambda>b. (playground_run p sub listen returned, cancelled))\<rparr>"

section \<open>Origins: properties\<close>

lemma split_comma_loop_acc:
  "split_comma_loop s part parts =
    parts @ (part @ takeWhile (\<lambda>c. c \<noteq> CHR '','') s) #
      (case dropWhile (\<lambda>c. c \<noteq> CHR '','') s of [] \<Rightarrow> [] | c # t \<Rightarrow> split_comma t)"
proof (induction s arbitrary: part parts)
  case Nil
  then show ?case by simp
next
  case (Cons c s)
  show ?case
  proof (cases "c = CHR '',''")
    case True
    have "split_comma_loop s [] (parts @ [part]) = (parts @ [part]) @ split_comma s"
      using Cons [of "[]" "parts @ [part]"] Cons [of "[]" "[]"] by (simp add: split_comma_def)
    then show ?thesis using True by simp
  next
    case False
    then show ?thesis using Cons [of "part @ [c]" parts] by simp
  qed
qed

lemma cut_none:
  "c \<notin> set x \<Longrightarrow> takeWhile (\<lambda>d. d \<noteq> c) x = x" "c \<notin> set x \<Longrightarrow> dropWhile (\<lambda>d. d \<noteq> c) x = []"
  by (induction x) auto

lemma cut_at:
  "c \<notin> set x \<Longrightarrow> takeWhile (\<lambda>d. d \<noteq> c) (x @ c # t) = x"
  "c \<notin> set x \<Longrightarrow> dropWhile (\<lambda>d. d \<noteq> c) (x @ c # t) = c # t"
  by (induction x) auto

lemma split_comma_loop_def: "split_comma s =
    takeWhile (\<lambda>c. c \<noteq> CHR '','') s #
      (case dropWhile (\<lambda>c. c \<noteq> CHR '','') s of [] \<Rightarrow> [] | c # t \<Rightarrow> split_comma t)"
  using split_comma_loop_acc [of s "[]" "[]"] by (simp only: split_comma_def append.left_neutral append_Nil)

lemma split_comma_last:
  assumes "CHR '','' \<notin> set x"
  shows "split_comma x = [x]"
  by (subst split_comma_loop_def) (simp only: cut_none [OF assms] list.case)

lemma split_comma_more:
  assumes "CHR '','' \<notin> set x"
  shows "split_comma (x @ CHR '','' # t) = x # split_comma t"
  by (subst split_comma_loop_def) (simp only: cut_at [OF assms] list.case)

lemma split_comma_join:
  "parts \<noteq> [] \<Longrightarrow> \<forall>q \<in> set parts. CHR '','' \<notin> set q \<Longrightarrow> split_comma (join parts '','') = parts"
proof (induction parts)
  case Nil
  then show ?case by simp
next
  case (Cons x xs)
  then show ?case by (cases xs) (simp_all add: split_comma_last split_comma_more)
qed

lemma not_blank_comma: "\<not> blank (CHR '','')"
  by (simp add: blank_def)

lemma trim_end_id: "s = [] \<or> \<not> blank (last s) \<Longrightarrow> trim_end s = s"
  by (subst trim_end.simps) auto

lemma trim_end_blanks: "\<forall>c \<in> set w. blank c \<Longrightarrow> s = [] \<or> \<not> blank (last s) \<Longrightarrow> trim_end (s @ w) = s"
proof (induction w rule: rev_induct)
  case Nil
  then show ?case by (simp add: trim_end_id)
next
  case (snoc c w)
  then have "trim_end (s @ w @ [c]) = trim_end (s @ w)"
    by (subst trim_end.simps) (simp add: butlast_append)
  with snoc show ?case by simp
qed

lemma trim_left_blanks: "\<forall>c \<in> set w. blank c \<Longrightarrow> trim_left (w @ s) = trim_left s"
  by (induction w) simp_all

text \<open>An origin as a person writes it: not empty, no comma, no blanks at its ends.\<close>

definition plain_origin :: "string \<Rightarrow> bool" where
  "plain_origin s \<longleftrightarrow> s \<noteq> [] \<and> CHR '','' \<notin> set s \<and> \<not> blank (hd s) \<and> \<not> blank (last s)"

lemma trim_blanks_padded:
  assumes "plain_origin s" "\<forall>c \<in> set u. blank c" "\<forall>c \<in> set v. blank c"
  shows "trim_blanks (u @ s @ v) = s"
proof -
  have "trim_left (u @ s @ v) = s @ v"
    using assms by (cases s) (simp_all add: trim_left_blanks plain_origin_def)
  then show ?thesis using assms by (simp add: trim_blanks_def trim_end_blanks plain_origin_def)
qed

lemma padded_no_comma:
  assumes "\<forall>(u, s, v) \<in> set os. plain_origin s \<and> (\<forall>c \<in> set (u @ v). blank c)"
  shows "\<forall>q \<in> set (map (\<lambda>(u, s, v). u @ s @ v) os). CHR '','' \<notin> set q"
proof (intro ballI notI)
  fix q assume q: "q \<in> set (map (\<lambda>(u, s, v). u @ s @ v) os)" and comma: "CHR '','' \<in> set q"
  from q obtain u s v where "(u, s, v) \<in> set os" and split: "q = u @ s @ v" by auto
  then have "CHR '','' \<notin> set s" "\<forall>c \<in> set u \<union> set v. blank c"
    using assms by (auto simp: plain_origin_def)
  with comma show False using not_blank_comma unfolding split by auto
qed

lemma padded_trimmed:
  assumes "\<forall>(u, s, v) \<in> set os. plain_origin s \<and> (\<forall>c \<in> set (u @ v). blank c)"
  shows "map trim_blanks (map (\<lambda>(u, s, v). u @ s @ v) os) = map (\<lambda>(u, s, v). s) os"
proof -
  have "trim_blanks ((\<lambda>(u, s, v). u @ s @ v) o') = (\<lambda>(u, s, v). s) o'" if "o' \<in> set os" for o'
    using that assms by (cases o') (auto intro!: trim_blanks_padded)
  then show ?thesis by (simp only: map_map comp_def cong: map_cong)
qed

lemma padded_origins:
  assumes "os \<noteq> []" "\<forall>(u, s, v) \<in> set os. plain_origin s \<and> (\<forall>c \<in> set (u @ v). blank c)"
  shows "split_origins (join (map (\<lambda>(u, s, v). u @ s @ v) os) '','') = map (\<lambda>(u, s, v). s) os"
proof -
  have "\<forall>s \<in> set (map (\<lambda>(u, s, v). s) os). s \<noteq> []" using assms(2) by (auto simp: plain_origin_def)
  then have "filter (\<lambda>p. p \<noteq> []) (map (\<lambda>(u, s, v). s) os) = map (\<lambda>(u, s, v). s) os"
    by (simp only: filter_id_conv)
  moreover have "split_comma (join (map (\<lambda>(u, s, v). u @ s @ v) os) '','') = map (\<lambda>(u, s, v). u @ s @ v) os"
    by (rule split_comma_join [OF _ padded_no_comma [OF assms(2)]]) (simp add: assms(1))
  ultimately show ?thesis
    by (simp only: split_origins_def padded_trimmed [OF assms(2)])
qed

lemma join_padded:
  assumes "os \<noteq> []" "\<forall>(u, s, v) \<in> set os. plain_origin s \<and> (\<forall>c \<in> set (u @ v). blank c)"
  shows "join (map (\<lambda>(u, s, v). u @ s @ v) os) '','' \<noteq> []"
proof -
  obtain u s v os' where "os = (u, s, v) # os'" using assms(1) by (cases os) auto
  then show ?thesis using assms(2) by (cases os') (auto simp: plain_origin_def)
qed

text \<open>
  C36. The origin check does what \<^verbatim>\<open>ALLOWED_ORIGINS\<close> says: for a list of origins separated by
  commas, with any blanks around each, an \<^verbatim>\<open>Origin\<close> header passes exactly when it is missing
  or one of them; in particular neither the playground's own origin nor a prefix of a listed one
  passes when it is not listed.
\<close>

theorem origins_listed:
  assumes "getenv p ''ALLOWED_ORIGINS'' = join (map (\<lambda>(u, s, v). u @ s @ v) os) '',''" "os \<noteq> []"
    and "\<forall>(u, s, v) \<in> set os. plain_origin s \<and> (\<forall>c \<in> set (u @ v). blank c)"
  shows "check_origin p port origin \<longleftrightarrow> origin = [] \<or> origin \<in> (\<lambda>(u, s, v). s) ` set os"
  using padded_origins [OF assms(2,3)] join_padded [OF assms(2,3)] assms(1)
  by (simp add: check_origin_def allowed_origins_def)

definition two_origins :: platform where
  "two_origins = bare_platform\<lparr>getenv := (\<lambda>v. if v = ''ALLOWED_ORIGINS'' then ''https://a.dev, https://b.dev'' else [])\<rparr>"

theorem origins_listed_witness:
  "check_origin two_origins ''3000'' ''https://b.dev'' \<and> \<not> check_origin two_origins ''3000'' ''http://localhost:3000''"
proof -
  let ?os = "[([], ''https://a.dev'', []), ('' '', ''https://b.dev'', [])]"
  have "getenv two_origins ''ALLOWED_ORIGINS'' = join (map (\<lambda>(u, s, v). u @ s @ v) ?os) '',''"
    by (simp add: two_origins_def)
  then show ?thesis
    using origins_listed [of two_origins ?os] by (simp add: plain_origin_def blank_def)
qed

text \<open>
  The port is checked as a number but used as the text it was given: a port with a leading
  zero or sign is accepted, and then, without \<^verbatim>\<open>ALLOWED_ORIGINS\<close>, the origin a browser sends for
  that port is refused.
\<close>

theorem port_text_rejects_browser:
  assumes "getenv p ''ALLOWED_ORIGINS'' = []" "1 \<le> n" "n \<le> 65535"
    and "getenv p ''PLAYGROUND_PORT'' = z @ itoa n" "z = ''0'' \<or> z = ''+''"
  shows "playground_port p = Inr (z @ itoa n) \<and>
    \<not> check_origin p (z @ itoa n) (''http://localhost:'' @ itoa n) \<and>
    check_origin p (itoa n) (''http://localhost:'' @ itoa n)"
proof -
  obtain c cs where d: "digits (nat n) = c # cs" using digits_ok [of "nat n"] by (cases "digits (nat n)") auto
  have i: "itoa n = c # cs" using assms(2) d by (simp add: itoa_def)
  have ds: "list_all is_digit (c # cs)" "digits_val (c # cs) = nat n" using digits_ok [of "nat n"] d by simp_all
  then have v: "digits_val (CHR ''0'' # c # cs) = nat n" by (simp add: digits_val_def)
  have "parse_int (z @ itoa n) = Some n"
    using assms(2,3,5) i ds v
    by (auto simp: parse_int_def read_digits_def is_digit_def in_int64_def Let_def)
  then show ?thesis using assms
    by (auto simp: playground_port_def check_origin_def allowed_origins_def Let_def)
qed

theorem port_text_rejects_browser_witness:
  "\<not> check_origin (bare_platform\<lparr>getenv := (\<lambda>v. if v = ''PLAYGROUND_PORT'' then ''0'' @ itoa 3000 else [])\<rparr>)
      (''0'' @ itoa 3000) (''http://localhost:'' @ itoa 3000)"
  using port_text_rejects_browser
    [of "bare_platform\<lparr>getenv := (\<lambda>v. if v = ''PLAYGROUND_PORT'' then ''0'' @ itoa 3000 else [])\<rparr>" 3000 "''0''"]
  by simp

section \<open>Messages: properties\<close>

text \<open>The messages an event is written as, and those of a turn.\<close>

definition event_messages :: "agent_event \<Rightarrow> ws_outgoing list" where
  "event_messages ev =
    (if av_calls ev \<noteq> [] then [(ws_message ''tool_call'')\<lparr>wo_tools := av_calls ev\<rparr>] else []) @
    (if av_text ev \<noteq> [] then [(ws_message ''text'')\<lparr>wo_text := av_text ev\<rparr>] else []) @
    (if av_final ev then [done_message ev] else [])"

fun turn_messages :: "(goerr \<Rightarrow> string) \<Rightarrow> agent_item list \<Rightarrow> ws_outgoing list" where
  "turn_messages show_error [] = []"
| "turn_messages show_error ((ev, Some e) # xs) = [(ws_message ''error'')\<lparr>wo_text := show_error e\<rparr>]"
| "turn_messages show_error ((ev, None) # xs) = event_messages ev @ turn_messages show_error xs"

definition on_wire :: "ws_outgoing list \<Rightarrow> string list" where
  "on_wire ms = map (\<lambda>m. marshal (enc_outgoing m)) ms"

lemma on_wire_simps [simp]:
  "on_wire [] = []" "on_wire (m # ms) = marshal (enc_outgoing m) # on_wire ms"
  "on_wire (ms @ ns) = on_wire ms @ on_wire ns"
  by (simp_all add: on_wire_def)

text \<open>\<open>wrote c ms c'\<close>: the writes from \<open>c\<close> to \<open>c'\<close> put some of \<open>ms\<close> on the wire, in order, and all without a fault.\<close>

definition wrote :: "'s conn \<Rightarrow> ws_outgoing list \<Rightarrow> 's conn \<Rightarrow> bool" where
  "wrote c ms c' \<longleftrightarrow> cn_fault c' = cn_fault c \<and>
    (\<exists>ns. subseq ns ms \<and> cn_sent c' = cn_sent c @ on_wire ns \<and> ((\<forall>n. cn_fault c n = None) \<longrightarrow> ns = ms))"

lemma wrote_none [simp]: "wrote c [] c"
  by (auto simp: wrote_def intro!: exI [of _ "[]"])

lemma wrote_trans: "wrote c ms c' \<Longrightarrow> wrote c' ns c'' \<Longrightarrow> wrote c (ms @ ns) c''"
  unfolding wrote_def by (metis append.assoc list_emb_append_mono on_wire_simps(3))

lemma wrote_stop: "wrote c ms c' \<Longrightarrow> cn_fault c k \<noteq> None \<Longrightarrow> wrote c (ms @ ns) c'"
  unfolding wrote_def by (metis append.right_neutral list_emb_Nil list_emb_append_mono)

lemma wrote_one: "wrote c [m] (snd (write_json m c))"
proof (cases "cn_fault c (cn_tries c)")
  case None
  have "on_wire [m] = [marshal (enc_outgoing m)]" by simp
  then show ?thesis using None unfolding wrote_def
    by (intro conjI exI [of _ "[m]"]) (simp_all add: write_json_def Let_def)
next
  case (Some e)
  then show ?thesis unfolding wrote_def
    by (intro conjI exI [of _ "[]"]) (auto simp: write_json_def Let_def)
qed

lemma write_fails: "write_json m c = (Some e, c') \<Longrightarrow> cn_fault c (cn_tries c) \<noteq> None"
  by (auto simp: write_json_def Let_def split: option.splits)

lemma wrote_faults: "wrote c ms c' \<Longrightarrow> cn_fault c' = cn_fault c"
  by (simp add: wrote_def)

lemma maybe_write:
  "(if b then write_json m c else (None, c)) = (r, c') \<Longrightarrow>
    wrote c (if b then [m] else []) c' \<and> (r \<noteq> None \<longrightarrow> (\<exists>k. cn_fault c k \<noteq> None))"
  using wrote_one [of c m] write_fails [of m c _ c'] by (cases r; cases b) auto

text \<open>One pass of the loop writes the messages of its item, and stops only at an error or a fault.\<close>

lemma stream_item:
  assumes "stream_body show_error (ev, None) c = (sg, c')"
  shows "(sg = More \<or> sg = Stop) \<and> (sg = Stop \<longrightarrow> (\<exists>k. cn_fault c k \<noteq> None)) \<and> wrote c (event_messages ev) c'"
proof -
  let ?call = "(ws_message ''tool_call'')\<lparr>wo_tools := av_calls ev\<rparr>"
  let ?text = "(ws_message ''text'')\<lparr>wo_text := av_text ev\<rparr>"
  obtain r1 c1 where 1: "(if av_calls ev \<noteq> [] then write_json ?call c else (None, c)) = (r1, c1)" by fastforce
  obtain r2 c2 where 2: "(if av_text ev \<noteq> [] then write_json ?text c1 else (None, c1)) = (r2, c2)" by fastforce
  note w1 = maybe_write [OF 1] and w2 = maybe_write [OF 2]
  have w12: "wrote c ((if av_calls ev \<noteq> [] then [?call] else []) @ (if av_text ev \<noteq> [] then [?text] else [])) c2"
    using w1 w2 wrote_trans by blast
  show ?thesis
  proof (cases r1)
    case (Some e)
    then have "stream_body show_error (ev, None) c = (Stop, c1)" using 1 by (simp add: stream_body_def)
    then show ?thesis using assms Some w1 wrote_stop unfolding event_messages_def by fastforce
  next
    case r1: None
    show ?thesis
    proof (cases r2)
      case (Some e)
      then have "stream_body show_error (ev, None) c = (Stop, c2)" using 1 2 r1 by (simp add: stream_body_def)
      moreover obtain k where "cn_fault c k \<noteq> None" using Some w1 w2 wrote_faults by fastforce
      ultimately show ?thesis using assms wrote_stop [OF w12] unfolding event_messages_def by auto
    next
      case r2: None
      let ?c3 = "if av_final ev then snd (write_json (done_message ev) c2) else c2"
      have "stream_body show_error (ev, None) c = (More, ?c3)"
        using 1 2 r1 r2 by (simp add: stream_body_def)
      moreover have "wrote c2 (if av_final ev then [done_message ev] else []) ?c3" by (simp add: wrote_one)
      ultimately show ?thesis using assms wrote_trans [OF w12] unfolding event_messages_def by auto
    qed
  qed
qed

lemma stream_items:
  "drive xs (stream_body show_error) c = (sg, c') \<Longrightarrow>
    (sg = More \<or> sg = Stop) \<and> wrote c (turn_messages show_error xs) c'"
proof (induction show_error xs arbitrary: c rule: turn_messages.induct)
  case (1 show_error)
  then show ?case by simp
next
  case (2 show_error ev e xs)
  then show ?case using wrote_one by (auto simp: stream_body_def)
next
  case (3 show_error ev xs)
  obtain sg1 c1 where b: "stream_body show_error (ev, None) c = (sg1, c1)" by fastforce
  note i = stream_item [OF b]
  show ?case
  proof (cases "sg1 = More")
    case True
    then have "drive xs (stream_body show_error) c1 = (sg, c')" using 3 b by simp
    then show ?thesis using 3 i wrote_trans by fastforce
  next
    case False
    then have "sg = Stop" "c' = c1" using 3 b i by auto
    then show ?thesis using i False wrote_stop by fastforce
  qed
qed

lemma stream_turn:
  assumes "presents (ch text) xs"
  shows "\<exists>c'. stream_chat show_error ch text c = (Returned, c') \<and> wrote c (turn_messages show_error xs) c'"
proof -
  obtain sg c' where d: "drive xs (stream_body show_error) c = (sg, c')" by fastforce
  have "ch text (stream_body show_error) c = feed xs (stream_body show_error) c"
    using assms unfolding presents_def by blast
  then have "stream_chat show_error ch text c = finish (sg, c')" using d by (simp add: stream_chat_def feed_def)
  then show ?thesis using stream_items [OF d] by auto
qed

text \<open>The texts of a connection that are answered: up to the first bad read, the messages with a text.\<close>

fun accepted :: "ws_read list \<Rightarrow> string list" where
  "accepted [] = []"
| "accepted (Bad e # rs) = []"
| "accepted (Received j # rs) =
    (case dec_incoming j of
       None \<Rightarrow> []
     | Some m \<Rightarrow> (if wi_type m = ''message'' \<and> wi_text m \<noteq> [] then [wi_text m] else []) @ accepted rs)"

fun bad_read :: "ws_read \<Rightarrow> bool" where
  "bad_read (Bad e) = True"
| "bad_read (Received j) = (dec_incoming j = None)"

lemma read_loop_answers:
  assumes "\<And>t. presents (ch t) (answer t)"
  shows "\<exists>c'. read_loop show_error ch rs c = (if \<exists>r \<in> set rs. bad_read r then Returned else Blocked, c') \<and>
    wrote c (concat (map (\<lambda>t. turn_messages show_error (answer t)) (accepted rs))) c'"
proof (induction rs arbitrary: c)
  case Nil
  then show ?case by simp
next
  case (Cons r rs)
  show ?case
  proof (cases r)
    case (Bad e)
    then show ?thesis by simp
  next
    case r: (Received j)
    show ?thesis
    proof (cases "dec_incoming j")
      case None
      then show ?thesis using r by simp
    next
      case (Some m)
      show ?thesis
      proof (cases "wi_type m = ''message'' \<and> wi_text m \<noteq> []")
        case True
        obtain c1 where c1: "stream_chat show_error ch (wi_text m) c = (Returned, c1)"
          "wrote c (turn_messages show_error (answer (wi_text m))) c1"
          using stream_turn [where ch = ch, OF assms [of "wi_text m"]] by blast
        have "read_loop show_error ch (r # rs) c = read_loop show_error ch rs c1" using r Some True c1(1) by simp
        then show ?thesis using Cons.IH [of c1] wrote_trans [OF c1(2)] r Some True by auto
      next
        case False
        then have "read_loop show_error ch (r # rs) c = read_loop show_error ch rs c" using r Some by auto
        then show ?thesis using Cons.IH [of c] r Some False by auto
      qed
    qed
  qed
qed

text \<open>
  C22. What a browser gets: a connection whose origin passes and whose session is made answers
  exactly its messages with a text, in order and until a read fails, each with the calls, the
  text and the done mark of the turn's events, up to an error, which ends the turn and not the
  connection. Whatever writes fail, what is sent is a subsequence of that, and all of it when
  none does; the connection ends at the first bad read and waits for more if there is none.
\<close>

theorem playground_session:
  assumes "check_origin p port origin" "user \<noteq> []" "br_create b (br_app b) user = Inr session"
    and "\<And>m. presents (br_run b user session m) (answer m)"
  shows "\<exists>c'. handle_websocket p show_error user_content port b origin user rs c =
      (if \<exists>r \<in> set rs. bad_read r then Returned else Blocked, c') \<and>
    wrote c (concat (map (\<lambda>t. turn_messages show_error (transduce chat_step no_usage (answer (user_content t))))
      (accepted rs))) c'"
proof -
  have "presents (chat user_content b user session t) (transduce chat_step no_usage (answer (user_content t)))" for t
    by (rule chat_presents) (rule assms(4))
  note loop = read_loop_answers [where ch = "chat user_content b user session", OF this]
  have "handle_websocket p show_error user_content port b origin user rs c =
      read_loop show_error (chat user_content b user session) rs c"
    using assms(1-3) by (simp add: handle_websocket_def create_session_def)
  with loop show ?thesis by simp
qed

lemma feed_presents [simp]: "presents (feed xs) xs"
  by unfold_locales simp

definition hello :: "string \<Rightarrow> json" where
  "hello t = JObj [(''type'', JStr ''message''), (''text'', JStr t)]"

definition quiet_conn :: "unit conn" where
  "quiet_conn = \<lparr>cn_sent = [], cn_tries = 0, cn_fault = (\<lambda>_. None), cn_agent = ()\<rparr>"

theorem playground_session_witness:
  "cn_sent (snd (handle_websocket bare_platform (\<lambda>_. ''failed'') (\<lambda>t. \<lparr>content_role = ''user'', content_parts = []\<rparr>)
      ''3000'' (replay_bridge [(\<lparr>ae_content = None, ae_usage = None, ae_final = False, ae_author = []\<rparr>, Some (Ext ''x''))])
      [] ''ann'' [Received (hello ''hi''), Bad (Ext ''EOF'')] quiet_conn)) =
    [marshal (enc_outgoing ((ws_message ''error'')\<lparr>wo_text := ''failed''\<rparr>))]"
proof -
  let ?xs = "[(\<lparr>ae_content = None, ae_usage = None, ae_final = False, ae_author = []\<rparr>, Some (Ext ''x''))]"
  have "dec_incoming (hello ''hi'') = Some \<lparr>wi_type = ''message'', wi_text = ''hi''\<rparr>"
    by code_simp
  then have "wrote quiet_conn [(ws_message ''error'')\<lparr>wo_text := ''failed''\<rparr>]
      (snd (handle_websocket bare_platform (\<lambda>_. ''failed'') (\<lambda>t. \<lparr>content_role = ''user'', content_parts = []\<rparr>)
        ''3000'' (replay_bridge ?xs) [] ''ann'' [Received (hello ''hi''), Bad (Ext ''EOF'')] quiet_conn))"
    using playground_session [where p = bare_platform and port = "''3000''" and origin = "[]" and user = "''ann''"
      and b = "replay_bridge ?xs" and session = "''s1''" and answer = "\<lambda>_. ?xs"
      and show_error = "\<lambda>_. ''failed''" and user_content = "\<lambda>t. \<lparr>content_role = ''user'', content_parts = []\<rparr>"
      and rs = "[Received (hello ''hi''), Bad (Ext ''EOF'')]" and c = quiet_conn]
    by (auto simp: check_origin_def replay_bridge_def chat_step_def)
  then show ?thesis by (auto simp: wrote_def quiet_conn_def)
qed

section \<open>Pages\<close>

lemma pages_elems:
  "path_elems ''static/'' = [''static'', []]" "path_elems ''api/health'' = [''api'', ''health'']"
  "path_elems ''ws'' = [''ws'']" "path_elems [] = [[]]"
  by (simp_all add: slash_def)

lemma match_pages:
  "best_match playground_routes verb q =
    (let ss = segments q in
     if ss = [] then None
     else Some (
       if hd ss = ''static'' \<and> 2 \<le> length ss then \<lparr>pt_method = None, pt_path = ''/static/'', pt_handler = StaticFiles\<rparr>
       else if ss = [''api'', ''health''] then \<lparr>pt_method = None, pt_path = ''/api/health'', pt_handler = HealthPage\<rparr>
       else if ss = [''ws''] then \<lparr>pt_method = None, pt_path = ''/ws'', pt_handler = SocketPage\<rparr>
       else \<lparr>pt_method = None, pt_path = ''/'', pt_handler = IndexPage\<rparr>))"
proof (cases "segments q")
  case Nil
  then show ?thesis
    by (simp del: path_elems.simps
        add: best_match_def playground_routes_def method_matches_def path_matches_def pages_elems Let_def)
next
  case (Cons s ss)
  then show ?thesis
    by (cases ss)
      (auto simp del: path_elems.simps
        simp: best_match_def playground_routes_def method_matches_def path_matches_def pages_elems fixed_def Let_def)
qed

lemma slash_added:
  assumes "q = [] \<or> hd q = slash"
  shows "(\<not> exact (best_match playground_routes verb q) q \<and> q \<noteq> [] \<and> \<not> ends_slash q \<and>
      exact (best_match playground_routes verb (q @ [slash])) (q @ [slash])) \<longleftrightarrow> segments q = [''static'']"
proof (cases "q = []")
  case True
  then show ?thesis by (simp add: segments_def)
next
  case False
  have n: "length (segments q) = length (filter (\<lambda>c. c = slash) q)" using False assms by (simp add: segments_length)
  obtain s ss where ss: "segments q = s # ss" using False segments_some [of q] by (cases "segments q") auto
  have slashed: "exact (best_match playground_routes verb (q @ [slash])) (q @ [slash]) \<longleftrightarrow> segments q = [''static'']"
  proof -
    have "s # ss @ [[]] \<noteq> l" if "last l \<noteq> []" for l using that by auto
    then have "s # ss @ [[]] \<noteq> [''ws'']" "s # ss @ [[]] \<noteq> [''api'', ''health'']" by simp_all
    then have "best_match playground_routes verb (q @ [slash]) = Some (
        if s = ''static'' then \<lparr>pt_method = None, pt_path = ''/static/'', pt_handler = StaticFiles\<rparr>
        else \<lparr>pt_method = None, pt_path = ''/'', pt_handler = IndexPage\<rparr>)"
      using False ss by (simp add: match_pages segments_end Let_def)
    then show ?thesis using ss n [symmetric] by (simp del: path_elems.simps add: exact_def ends_slash_def pages_elems)
  qed
  have "\<not> ends_slash q \<and> \<not> exact (best_match playground_routes verb q) q" if "segments q = [''static'']"
  proof -
    have "\<not> ends_slash q"
    proof
      assume "ends_slash q"
      then obtain q' where q': "q = q' @ [slash]" by (metis append_butlast_last_id ends_slash_def)
      then show False using that segments_end [of q'] by (cases "q' = []") (simp_all add: segments_def)
    qed
    then show ?thesis using that by (simp add: match_pages exact_def Let_def)
  qed
  then show ?thesis using slashed False by blast
qed

lemma page_route:
  assumes "url_path path = Some d"
  shows "route playground_routes verb path =
    (let q = (if verb = ''CONNECT'' then path else clean_path path); ss = segments q in
     if ss = [''static''] then Redirect (clean_path d @ [slash])
     else if q \<noteq> path then Redirect q
     else if ss = [] then NoRoute
     else Handle (if hd ss = ''static'' then StaticFiles else if ss = [''api'', ''health''] then HealthPage
       else if ss = [''ws''] then SocketPage else IndexPage))"
proof -
  define q where "q = (if verb = ''CONNECT'' then path else clean_path path)"
  have q: "q = [] \<or> hd q = slash"
    using assms clean_path_rooted [of path] by (auto simp: q_def url_path_def split: if_splits)
  have none: "filter (\<lambda>p. pt_method p \<noteq> None \<and>
      (path_matches (pt_path p) x \<or> \<not> ends_slash x \<and> path_matches (pt_path p) (x @ [slash]))) playground_routes = []" for x
    by (simp add: playground_routes_def)
  have two: "2 \<le> length (segments q)" if "hd (segments q) = ''static''" "segments q \<noteq> [''static'']" "segments q \<noteq> []"
    using that by (cases "segments q"; cases "tl (segments q)") auto
  have "route playground_routes verb path =
      (if segments q = [''static''] then Redirect (clean_path d @ [slash])
       else if q \<noteq> path then Redirect q
       else case best_match playground_routes verb q of Some p \<Rightarrow> Handle (pt_handler p) | None \<Rightarrow> NoRoute)"
    unfolding route_def Let_def assms option.case q_def [symmetric] slash_added [OF q] none by (simp split: option.split)
  then show ?thesis using two unfolding match_pages Let_def q_def [symmetric]
    by (cases "q = path"; cases "segments q = []"; simp; blast)
qed

lemma strip_static:
  "length (trim_prefix x ''/static/'') < length x \<longleftrightarrow> has_prefix x ''/static/''"
  "has_prefix x ''/static/'' \<Longrightarrow> trim_prefix x ''/static/'' = drop 8 x"
proof -
  have "x \<noteq> []" if "has_prefix x ''/static/''" using that by (cases x) simp_all
  then show "length (trim_prefix x ''/static/'') < length x \<longleftrightarrow> has_prefix x ''/static/''"
    by (cases "has_prefix x ''/static/''") (simp_all add: trim_prefix_def)
  show "has_prefix x ''/static/'' \<Longrightarrow> trim_prefix x ''/static/'' = drop 8 x"
    by (simp add: trim_prefix_def eval_nat_numeral)
qed

lemma static_names:
  "serve_static (\<lambda>rest name. if ''..'' \<in> set (path_elems name) then other else file_server rest name) path d =
    serve_static file_server path d"
  by (simp only: serve_static_def Let_def clean_no_parent if_False)

text \<open>
  C25. Which page a path is: for any method, the index at \<^verbatim>\<open>/\<close> and nowhere else, the embedded files below
  \<^verbatim>\<open>/static/\<close> by the cleaned rest of the decoded path, the health page, and the WebSocket at \<^verbatim>\<open>/ws\<close> only; \<^verbatim>\<open>/static\<close> is
  sent to \<^verbatim>\<open>/static/\<close>, a path that is not canonical to its canonical form unless the method is \<^verbatim>\<open>CONNECT\<close>,
  and any other path is not found. Escapes hide nothing: whatever the path decodes to, no file is asked for by a name
  with an element \<^verbatim>\<open>..\<close>, so the replies do not change when the file server is made to answer such
  names otherwise.
\<close>

theorem playground_pages:
  "playground_handler file_server index verb path =
    (case url_path path of
       None \<Rightarrow> Refused
     | Some d \<Rightarrow>
    (let q = (if verb = ''CONNECT'' then path else clean_path path); ss = segments q in
     if ss = [''static''] then Moved (clean_path d @ ''/'')
     else if q \<noteq> path then Moved q
     else if ss = [''ws''] then ToSocket
     else if ss = [''api'', ''health''] then Answer serve_api_health
     else if ss \<noteq> [] \<and> hd ss = ''static'' then Answer (
       if has_prefix path ''/static/'' \<and> has_prefix d ''/static/''
       then file_server (drop 8 d) (clean (slash # drop 8 d)) else not_found)
     else Answer (
       if d \<noteq> ''/'' then not_found
       else case index of
         Inl e \<Rightarrow> plain_error ''index.html not found'' 500
       | Inr body \<Rightarrow> \<lparr>rp_code = 200, rp_type = ''text/html; charset=utf-8'', rp_body = body\<rparr>))) \<and>
   playground_handler (\<lambda>rest name. if ''..'' \<in> set (path_elems name) then other else file_server rest name) index verb path =
    playground_handler file_server index verb path"
proof
  have statics: "serve_static file_server path d =
      (if has_prefix path ''/static/'' \<and> has_prefix d ''/static/''
       then file_server (drop 8 d) (clean (slash # drop 8 d)) else not_found)" for d
    by (auto simp: serve_static_def strip_static Let_def)
  have empty: "d = []" if "url_path path = Some d" "segments path = []" for d
    using that by (simp add: segments_some url_path_def)
  show "playground_handler file_server index verb path =
    (case url_path path of
       None \<Rightarrow> Refused
     | Some d \<Rightarrow>
    (let q = (if verb = ''CONNECT'' then path else clean_path path); ss = segments q in
     if ss = [''static''] then Moved (clean_path d @ ''/'')
     else if q \<noteq> path then Moved q
     else if ss = [''ws''] then ToSocket
     else if ss = [''api'', ''health''] then Answer serve_api_health
     else if ss \<noteq> [] \<and> hd ss = ''static'' then Answer (
       if has_prefix path ''/static/'' \<and> has_prefix d ''/static/''
       then file_server (drop 8 d) (clean (slash # drop 8 d)) else not_found)
     else Answer (
       if d \<noteq> ''/'' then not_found
       else case index of
         Inl e \<Rightarrow> plain_error ''index.html not found'' 500
       | Inr body \<Rightarrow> \<lparr>rp_code = 200, rp_type = ''text/html; charset=utf-8'', rp_body = body\<rparr>)))"
  proof (cases "url_path path")
    case None
    then show ?thesis by (simp add: playground_handler_def)
  next
    case (Some d)
    then show ?thesis using empty [of d]
      by (auto simp: playground_handler_def page_route statics serve_index_def Let_def slash_def)
  qed
next
  show "playground_handler (\<lambda>rest name. if ''..'' \<in> set (path_elems name) then other else file_server rest name) index verb path =
    playground_handler file_server index verb path"
    by (simp only: playground_handler_def static_names)
qed

theorem playground_pages_witness:
  "playground_handler (\<lambda>rest name. plain_error name 418) (Inr ''hello'') ''GET'' ''/static/%2e%2e/x'' = Answer (plain_error ''/x'' 418)"
proof -
  have "url_path ''/static/%2e%2e/x'' = Some ''/static/../x''" "clean_path ''/static/%2e%2e/x'' = ''/static/%2e%2e/x''"
    "segments ''/static/%2e%2e/x'' = [''static'', ''..'', ''x'']" "clean (slash # ''../x'') = ''/x''"
    by code_simp+
  then show ?thesis
    using playground_pages [of "\<lambda>rest name. plain_error name 418" "Inr ''hello''" "''GET''" "''/static/%2e%2e/x''" not_found]
    by (simp add: Let_def)
qed

end
