(* ===== verification/Health.thy ===== *)
theory Health
  imports JsonDecode Serving
begin

text \<open>
  \<^verbatim>\<open>internal/health/health.go\<close>: the probes of a container orchestrator: the server with its
  readiness flag, the handlers of \<^verbatim>\<open>/healthz\<close>, \<^verbatim>\<open>/readyz\<close> and \<^verbatim>\<open>/metrics\<close>, and the marks
  \<^verbatim>\<open>MarkReady\<close> and \<^verbatim>\<open>MarkNotReady\<close>, the routes, and what \<^verbatim>\<open>ListenAndServe\<close> logs. The flag is
  atomic, so the operations on it happen one after the other. The goroutine that shuts the server
  down is in \<open>Serving\<close>.
\<close>

section \<open>The server\<close>

text \<open>Times are nanoseconds of the monotonic clock.\<close>

record server =
  hs_addr :: string
  hs_ready :: bool
  hs_start :: nat

definition new_server :: "string \<Rightarrow> nat \<Rightarrow> server" where
  "new_server addr now = \<lparr>hs_addr = addr, hs_ready = False, hs_start = now\<rparr>"

definition mark_ready :: "server \<Rightarrow> server" where
  "mark_ready s = s\<lparr>hs_ready := True\<rparr>"

definition mark_not_ready :: "server \<Rightarrow> server" where
  "mark_not_ready s = s\<lparr>hs_ready := False\<rparr>"

section \<open>Uptime\<close>

text \<open>
  \<^verbatim>\<open>Duration.Truncate\<close> to a whole unit and \<^verbatim>\<open>Duration.String\<close> of a duration of whole
  seconds: hours only when there are some, then minutes, seconds always.
\<close>

definition second :: nat where "second = 10 ^ 9"

definition truncate_to :: "nat \<Rightarrow> nat \<Rightarrow> nat" where
  "truncate_to d m = d - d mod m"

definition seconds_string :: "nat \<Rightarrow> string" where
  "seconds_string s =
    (if s < 60 then digits s @ ''s''
     else if s < 3600 then digits (s div 60) @ ''m'' @ digits (s mod 60) @ ''s''
     else digits (s div 3600) @ ''h'' @ digits (s div 60 mod 60) @ ''m'' @ digits (s mod 60) @ ''s'')"

definition uptime :: "server \<Rightarrow> nat \<Rightarrow> string" where
  "uptime s now = seconds_string (truncate_to (now - hs_start s) second div second)"

section \<open>Handlers\<close>

record health_response =
  hr_status :: string
  hr_uptime :: string

definition enc_health :: "health_response \<Rightarrow> json" where
  "enc_health h = JObj ([(''status'', JStr (hr_status h))] @
     (if hr_uptime h = [] then [] else [(''uptime'', JStr (hr_uptime h))]))"

text \<open>An \<^verbatim>\<open>Encoder\<close> ends each value with a line feed.\<close>

definition encoded :: "json \<Rightarrow> string" where
  "encoded j = marshal j @ [CHR 0x0A]"

definition json_reply :: "int \<Rightarrow> json \<Rightarrow> http_reply" where
  "json_reply n j = \<lparr>rp_code = n, rp_type = ''application/json'', rp_body = encoded j\<rparr>"

definition handle_liveness :: "server \<Rightarrow> nat \<Rightarrow> http_reply" where
  "handle_liveness s now = json_reply 200 (enc_health \<lparr>hr_status = ''alive'', hr_uptime = uptime s now\<rparr>)"

definition handle_readiness :: "server \<Rightarrow> nat \<Rightarrow> http_reply" where
  "handle_readiness s now =
    (if \<not> hs_ready s then json_reply 503 (enc_health \<lparr>hr_status = ''not ready'', hr_uptime = []\<rparr>)
     else json_reply 200 (enc_health \<lparr>hr_status = ''ready'', hr_uptime = uptime s now\<rparr>))"

text \<open>
  What \<^verbatim>\<open>/metrics\<close> reads of the Go runtime, and \<open>mb n\<close>, the literal of the float that \<open>n\<close>
  bytes are in units of \<open>2 ^ 20\<close>.
\<close>

record go_runtime =
  goroutines :: nat
  heap_alloc :: nat
  heap_sys :: nat
  num_gc :: nat

definition handle_metrics :: "(nat \<Rightarrow> string) \<Rightarrow> server \<Rightarrow> nat \<Rightarrow> go_runtime \<Rightarrow> http_reply" where
  "handle_metrics mb s now rt = json_reply 200 (JObj
     [(''uptime'', JStr (uptime s now)),
      (''ready'', JBool (hs_ready s)),
      (''goroutines'', JNum (digits (goroutines rt))),
      (''heap_alloc_mb'', JNum (mb (heap_alloc rt))),
      (''heap_sys_mb'', JNum (mb (heap_sys rt))),
      (''gc_cycles'', JNum (digits (num_gc rt)))])"

text \<open>The routes of \<^verbatim>\<open>NewServer\<close>, and its \<^verbatim>\<open>Handler\<close>, at a time and a state of the Go runtime.\<close>

definition health_routes :: "(nat \<Rightarrow> string) \<Rightarrow> server \<Rightarrow> nat \<Rightarrow> go_runtime \<Rightarrow> http_reply pattern list" where
  "health_routes mb s now rt =
    [\<lparr>pt_method = Some ''GET'', pt_path = ''/healthz'', pt_handler = handle_liveness s now\<rparr>,
     \<lparr>pt_method = Some ''GET'', pt_path = ''/readyz'', pt_handler = handle_readiness s now\<rparr>,
     \<lparr>pt_method = Some ''GET'', pt_path = ''/metrics'', pt_handler = handle_metrics mb s now rt\<rparr>]"

definition health_handler :: "(nat \<Rightarrow> string) \<Rightarrow> server \<Rightarrow> nat \<Rightarrow> go_runtime \<Rightarrow> string \<Rightarrow> string \<Rightarrow> http_reply routed" where
  "health_handler mb s now rt verb path = route (health_routes mb s now rt) verb path"

text \<open>
  What \<^verbatim>\<open>ListenAndServe\<close> logs: \<open>listen\<close> gives the address that was bound or an error, and the
  last argument is what \<^verbatim>\<open>Serve\<close> returns.
\<close>

datatype health_log = ListenFailed string goerr | Listening string | ServerError goerr

definition listen_and_serve :: "(string \<Rightarrow> goerr + string) \<Rightarrow> server \<Rightarrow> goerr \<Rightarrow> health_log list" where
  "listen_and_serve listen s served =
    (case listen (hs_addr s) of
       Inl e \<Rightarrow> [ListenFailed (hs_addr s) e]
     | Inr addr \<Rightarrow> Listening addr # (if served \<noteq> server_closed then [ServerError served] else []))"

section \<open>Properties\<close>

datatype mark = Ready | NotReady

fun apply_mark :: "mark \<Rightarrow> server \<Rightarrow> server" where
  "apply_mark Ready s = mark_ready s"
| "apply_mark NotReady s = mark_not_ready s"

lemma marks_state:
  "fold apply_mark ms s = s\<lparr>hs_ready := (case rev ms of [] \<Rightarrow> hs_ready s | m # _ \<Rightarrow> m = Ready)\<rparr>"
proof (induction ms rule: rev_induct)
  case Nil
  then show ?case by simp
next
  case (snoc m ms)
  then show ?case by (cases m) (simp_all add: mark_ready_def mark_not_ready_def)
qed

text \<open>What a prober reads in a body.\<close>

definition status_of :: "http_reply \<Rightarrow> string option" where
  "status_of r = Option.bind (parse (rp_body r)) (\<lambda>j. dec_struct (\<lambda>ms. dec_string (field ''status'' ms)) (Some j))"

lemma parse_line: "wf_json v \<Longrightarrow> parse (marshal v @ [CHR 0x0A]) = Some v"
proof -
  assume v: "wf_json v"
  have "ends [CHR 0x0A]" by (simp add: ends_def num_char_def is_digit_def)
  then have "read_value (2 * length (marshal v @ [CHR 0x0A]) + 2) (marshal v @ [CHR 0x0A]) = Some (v, [CHR 0x0A])"
    using v fuel_length(1) [OF v, of "\<lambda>_. []" "[]" 0] unfolding marshal_def
    by (intro read_emit(1)) auto
  then show ?thesis by (simp add: parse_def skip_ws_def is_ws_def)
qed

lemma digits_ascii: "list_all (\<lambda>c. code c < 128) (digits n)"
  using digits_ok [of n] by (auto simp: list_all_iff is_digit_def)

lemma uptime_utf8: "utf8_valid (uptime s now)"
  using digits_ascii by (intro utf8_valid_ascii) (simp add: uptime_def seconds_string_def)

lemma field_status [simp]: "field ''status'' ((''status'', j) # ms) = (case field ''status'' ms of None \<Rightarrow> Some j | r \<Rightarrow> r)"
  by (auto simp: field_def find_append split: option.split)

lemma status_reply: "utf8_valid st \<Longrightarrow> utf8_valid up \<Longrightarrow>
  status_of (json_reply n (enc_health \<lparr>hr_status = st, hr_uptime = up\<rparr>)) = Some st"
proof -
  assume v: "utf8_valid st" "utf8_valid up"
  let ?j = "enc_health \<lparr>hr_status = st, hr_uptime = up\<rparr>"
  have "wf_json ?j" using v by (simp add: enc_health_def text_simps)
  then have p: "parse (encoded ?j) = Some ?j" using parse_line by (simp only: encoded_def)
  have "field ''status'' [(''uptime'', JStr up)] = None" "field ''status'' [] = None"
    by (simp_all add: field_def Let_def)
  then show ?thesis
    by (simp add: status_of_def json_reply_def p) (simp add: enc_health_def dec_struct_def dec_string_def)
qed

lemma probe_paths:
  "clean_path ''/readyz'' = ''/readyz''" "clean_path ''/healthz'' = ''/healthz''"
  "url_path ''/readyz'' = Some ''/readyz''" "url_path ''/healthz'' = Some ''/healthz''"
  "segments ''/readyz'' = [''readyz'']" "segments ''/healthz'' = [''healthz'']"
  "path_elems ''readyz'' = [''readyz'']" "path_elems ''healthz'' = [''healthz'']" "path_elems ''metrics'' = [''metrics'']"
  by code_simp+

lemma probe_routes:
  "health_handler mb s now rt verb ''/readyz'' =
    (if verb = ''GET'' \<or> verb = ''HEAD'' then Handle (handle_readiness s now) else WrongMethod)"
  "health_handler mb s now rt verb ''/healthz'' =
    (if verb = ''GET'' \<or> verb = ''HEAD'' then Handle (handle_liveness s now) else WrongMethod)"
proof -
  have tails: "tl ''/readyz'' = ''readyz''" "tl ''/healthz'' = ''healthz''" "tl ''/metrics'' = ''metrics''" by simp_all
  note defs = health_handler_def route_def probe_paths best_match_def health_routes_def path_matches_def
    method_matches_def exact_def Let_def tails segments_end ends_slash_def slash_def
  show "health_handler mb s now rt verb ''/readyz'' =
    (if verb = ''GET'' \<or> verb = ''HEAD'' then Handle (handle_readiness s now) else WrongMethod)"
    by (cases "verb = ''GET''"; cases "verb = ''HEAD''") (simp_all add: defs)
  show "health_handler mb s now rt verb ''/healthz'' =
    (if verb = ''GET'' \<or> verb = ''HEAD'' then Handle (handle_liveness s now) else WrongMethod)"
    by (cases "verb = ''GET''"; cases "verb = ''HEAD''") (simp_all add: defs)
qed

text \<open>
  C40. The readiness probe tells the last mark: after any sequence of \<^verbatim>\<open>MarkReady\<close> and
  \<^verbatim>\<open>MarkNotReady\<close> on a new server, at any time, \<^verbatim>\<open>GET /readyz\<close> answers 200 and \<open>ready\<close> exactly
  when the last mark is \<^verbatim>\<open>MarkReady\<close>, and 503 and \<open>not ready\<close> when it is the other or there is
  none; \<^verbatim>\<open>GET /healthz\<close> answers 200 and \<open>alive\<close> all along. The status is the one a client decodes
  from the body. So does \<^verbatim>\<open>HEAD\<close>, and no other method gets an answer of the server.
\<close>

theorem readiness_last_mark:
  "let s = fold apply_mark ms (new_server addr start); r = handle_readiness s now; l = handle_liveness s now;
       up = (ms \<noteq> [] \<and> last ms = Ready); asks = (verb = ''GET'' \<or> verb = ''HEAD'') in
   health_handler mb s now rt verb ''/readyz'' = (if asks then Handle r else WrongMethod) \<and>
   rp_code r = (if up then 200 else 503) \<and> status_of r = Some (if up then ''ready'' else ''not ready'') \<and>
   health_handler mb s now rt verb ''/healthz'' = (if asks then Handle l else WrongMethod) \<and>
   rp_code l = 200 \<and> status_of l = Some ''alive''"
proof -
  let ?s = "fold apply_mark ms (new_server addr start)"
  have ready: "hs_ready ?s \<longleftrightarrow> ms \<noteq> [] \<and> last ms = Ready"
    unfolding marks_state by (cases ms rule: rev_cases) (simp_all add: new_server_def)
  have "status_of (handle_liveness ?s now) = Some ''alive''"
    unfolding handle_liveness_def by (rule status_reply) (simp_all add: uptime_utf8 text_simps)
  moreover have "status_of (handle_readiness ?s now) = Some (if hs_ready ?s then ''ready'' else ''not ready'')"
    using status_reply [of "''ready''" "uptime ?s now"] status_reply [of "''not ready''" "[]"]
    by (simp add: handle_readiness_def uptime_utf8 text_simps)
  moreover have "rp_code (handle_readiness ?s now) = (if hs_ready ?s then 200 else 503)"
    by (simp add: handle_readiness_def json_reply_def)
  moreover have "rp_code (handle_liveness ?s now) = 200" by (simp add: handle_liveness_def json_reply_def)
  ultimately show ?thesis unfolding Let_def ready probe_routes by blast
qed

end
