(* ===== verification/Crated.thy ===== *)
theory Crated
  imports Runtime Frontend Health
begin

text \<open>
  \<^verbatim>\<open>cmd/crated/main.go\<close>: the daemon: the choice of the log handler, the profile, the stages of
  \<^verbatim>\<open>run\<close> with what they defer, and the reloads on SIGHUP. The Agentfile package, the ADK runner
  and the frontend that runs are arguments. So does the goroutine of the interrupts, which cancels and
  then forces an exit. Flag parsing is left to the \<^verbatim>\<open>flag\<close> package.
\<close>

section \<open>Flags and logging\<close>

record flags =
  fl_agentfile :: string
  fl_profile :: string
  fl_runtime_config :: string
  fl_health_port :: int
  fl_log_level :: string
  fl_log_format :: string
  fl_frontend :: string
  fl_version :: bool

definition default_flags :: flags where
  "default_flags = \<lparr>fl_agentfile = ''Agentfile'', fl_profile = [], fl_runtime_config = [], fl_health_port = 8080,
     fl_log_level = ''info'', fl_log_format = ''auto'', fl_frontend = ''repl'', fl_version = False\<rparr>"

datatype log_level = LevelDebug | LevelInfo | LevelWarn | LevelError

text \<open>The levels are ordered as \<^verbatim>\<open>slog\<close> orders them, by these numbers.\<close>

fun level_value :: "log_level \<Rightarrow> int" where
  "level_value LevelDebug = - 4"
| "level_value LevelInfo = 0"
| "level_value LevelWarn = 4"
| "level_value LevelError = 8"

instantiation log_level :: linorder
begin

definition less_eq_log_level :: "log_level \<Rightarrow> log_level \<Rightarrow> bool" where
  "less_eq_log_level a b \<longleftrightarrow> level_value a \<le> level_value b"

definition less_log_level :: "log_level \<Rightarrow> log_level \<Rightarrow> bool" where
  "less_log_level a b \<longleftrightarrow> level_value a < level_value b"

instance
proof
  fix a b :: log_level
  show "a \<le> b \<Longrightarrow> b \<le> a \<Longrightarrow> a = b"
    by (cases a; cases b) (simp_all add: less_eq_log_level_def)
qed (auto simp: less_eq_log_level_def less_log_level_def)

end

datatype log_handler = TextHandler log_level | JsonHandler log_level

definition init_logging :: "string \<Rightarrow> string \<Rightarrow> string \<Rightarrow> log_handler" where
  "init_logging level format frontend_name =
    (let lvl = (if level = ''debug'' then LevelDebug else if level = ''warn'' then LevelWarn
                else if level = ''error'' then LevelError else LevelInfo);
         use_text = (format = ''text'' \<or> (format = ''auto'' \<and> frontend_name = ''repl''))
     in if use_text then TextHandler lvl else JsonHandler lvl)"

text \<open>A handler writes a record from its own level on.\<close>

fun handler_level :: "log_handler \<Rightarrow> log_level" where
  "handler_level (TextHandler l) = l"
| "handler_level (JsonHandler l) = l"

definition writes :: "log_handler \<Rightarrow> log_level \<Rightarrow> bool" where
  "writes h l \<longleftrightarrow> handler_level h \<le> l"

lemma errors_written: "writes h LevelError"
  by (cases "handler_level h") (simp_all add: writes_def less_eq_log_level_def)

definition resolve_profile :: "platform \<Rightarrow> string \<Rightarrow> string" where
  "resolve_profile p flag = (if flag \<noteq> [] then flag else getenv p ''CRATE_PROFILE'')"

definition runtime_config_path :: "string \<Rightarrow> string \<Rightarrow> string" where
  "runtime_config_path agentfile_path flag =
    (if flag = [] then clean (dir agentfile_path @ slash # config_path) else flag)"

section \<open>The Agentfile\<close>

text \<open>
  \<^verbatim>\<open>agentfile.Parse\<close> with its result, whose \<open>ps_valid\<close> is \<^verbatim>\<open>IsValid\<close> and whose errors are
  pairs of a field and a message, and \<^verbatim>\<open>agentfile.ResolveProfile\<close>.
\<close>

record parse_result =
  ps_valid :: bool
  ps_errors :: "(string \<times> string) list"
  ps_agentfile :: agentfile

record agentfile_lib =
  parse_agentfile :: "string \<Rightarrow> goerr + parse_result"
  profile_of :: "agentfile \<Rightarrow> string \<Rightarrow> goerr + agentfile"

text \<open>\<^verbatim>\<open>os.ReadFile\<close>, with the error of a file that is not there.\<close>

definition read_bytes :: "fs \<Rightarrow> string \<Rightarrow> goerr + string" where
  "read_bytes f path =
    (case read_file f path of
       Data d \<Rightarrow> Inr d
     | NotExist \<Rightarrow> Inl (Ext (''open '' @ path @ '': no such file or directory''))
     | ReadErr e \<Rightarrow> Inl e)"

text \<open>What the daemon does that is seen from outside, in order.\<close>

datatype main_event =
    ServingHealth string
  | InvalidField string string
  | UsingProfile string
  | Initialised
  | HandlingHups
  | MarkedReady
  | FrontendRan
  | AgentStopped
  | RuntimeClosed
  | MarkedNotReady
  | ContextCancelled

definition main_agentfile :: "agentfile_lib \<Rightarrow> fs \<Rightarrow> string \<Rightarrow> string \<Rightarrow> main_event list \<times> (goerr + agentfile)" where
  "main_agentfile lib f path profile =
    (case read_bytes f path of
       Inl e \<Rightarrow> ([], Inl (Errorf ''reading %s: %w'' [AStr path, AErr e]))
     | Inr d \<Rightarrow>
    (case parse_agentfile lib d of
       Inl e \<Rightarrow> ([], Inl (Errorf ''parsing %s: %w'' [AStr path, AErr e]))
     | Inr res \<Rightarrow>
         if \<not> ps_valid res then
           (map (\<lambda>(fd, m). InvalidField fd m) (ps_errors res),
            Inl (Errorf ''agentfile validation failed with %d errors'' [AInt (int (length (ps_errors res)))]))
         else if profile \<noteq> [] then
           (case profile_of lib (ps_agentfile res) profile of
              Inl e \<Rightarrow> ([], Inl (Errorf ''resolving profile %q: %w'' [AStr profile, AErr e]))
            | Inr af \<Rightarrow> ([UsingProfile profile], Inr af))
         else ([], Inr (ps_agentfile res))))"

section \<open>The daemon\<close>

text \<open>
  The surroundings of a run. A frontend's \<^verbatim>\<open>Run\<close> gives its error and whether the context was
  cancelled by then.
\<close>

record ('t, 's, 'a, 'b) surroundings =
  su_platform :: platform
  su_fs :: fs
  su_lib :: agentfile_lib
  su_syntax :: "string \<Rightarrow> goerr"
  su_order :: "string list \<Rightarrow> string list"
  su_providers :: "(log_state \<times> 's limited_ext) world_scheme providers"
  su_externals :: "('t, 's model_entry, 'a) externals"
  su_frontends :: "('b bridge \<Rightarrow> goerr option \<times> bool) frontends"
  su_runner :: "'a option \<Rightarrow> goerr + (string \<Rightarrow> string \<Rightarrow> content \<Rightarrow> (adk_item, usage \<times> 'b) seq)"
  su_sessions :: "string \<Rightarrow> string \<Rightarrow> goerr + string"
  su_now :: nat

record ('t, 's, 'a) daemon =
  dm_health :: "server option"
  dm_runtime :: "('t, 's, 'a) runtime option"
  dm_trace :: "main_event list"

definition emit_events :: "main_event list \<Rightarrow> ('t, 's, 'a) daemon \<Rightarrow> ('t, 's, 'a) daemon" where
  "emit_events es d = d\<lparr>dm_trace := dm_trace d @ es\<rparr>"

definition start_health :: "int \<Rightarrow> nat \<Rightarrow> ('t, 's, 'a) daemon \<Rightarrow> ('t, 's, 'a) daemon" where
  "start_health port now d =
    (if port > 0 then
       (let addr = CHR '':'' # itoa port in
        emit_events [ServingHealth addr] (d\<lparr>dm_health := Some (new_server addr now)\<rparr>))
     else d)"

definition set_ready :: "('t, 's, 'a) daemon \<Rightarrow> ('t, 's, 'a) daemon" where
  "set_ready d =
    (case dm_health d of
       None \<Rightarrow> d
     | Some h \<Rightarrow> emit_events [MarkedReady] (d\<lparr>dm_health := Some (mark_ready h)\<rparr>))"

text \<open>The deferred calls: of the runtime's \<^verbatim>\<open>Close\<close>, of \<^verbatim>\<open>MarkNotReady\<close>, of \<^verbatim>\<open>cancel\<close>.\<close>

definition defer_close :: "goerr option \<times> ('t, 's, 'a) daemon \<Rightarrow> goerr option \<times> ('t, 's, 'a) daemon" where
  "defer_close r = apsnd (\<lambda>d. emit_events [RuntimeClosed] (d\<lparr>dm_runtime := map_option close_runtime (dm_runtime d)\<rparr>)) r"

definition defer_not_ready :: "goerr option \<times> ('t, 's, 'a) daemon \<Rightarrow> goerr option \<times> ('t, 's, 'a) daemon" where
  "defer_not_ready r = apsnd (\<lambda>d.
    (case dm_health d of
       None \<Rightarrow> d
     | Some h \<Rightarrow> emit_events [MarkedNotReady] (d\<lparr>dm_health := Some (mark_not_ready h)\<rparr>))) r"

definition defer_cancel :: "goerr option \<times> ('t, 's, 'a) daemon \<Rightarrow> goerr option \<times> ('t, 's, 'a) daemon" where
  "defer_cancel r = apsnd (emit_events [ContextCancelled]) r"

text \<open>Stages 5 to 7 of \<^verbatim>\<open>run\<close>: from \<^verbatim>\<open>rt.Init\<close> to the end of the frontend.\<close>

definition serve :: "('t, 's, 'a, 'b) surroundings \<Rightarrow> ('b bridge \<Rightarrow> goerr option \<times> bool) frontend \<Rightarrow> ('t, 's, 'a) runtime
    \<Rightarrow> ('t, 's, 'a) daemon \<Rightarrow> goerr option \<times> ('t, 's, 'a) daemon" where
  "serve su fe rt d =
    (case init_runtime (su_order su) (su_platform su) (su_providers su) (su_externals su) rt of
       (Some e, rt) \<Rightarrow> (Some (Errorf ''initializing runtime: %w'' [AErr e]), d\<lparr>dm_runtime := Some rt\<rparr>)
     | (None, rt) \<Rightarrow>
         (let d = set_ready (emit_events [Initialised, HandlingHups] (d\<lparr>dm_runtime := Some rt\<rparr>)) in
          case new_agent_bridge (su_runner su) (su_sessions su) (rt_agent rt) of
            Inl e \<Rightarrow> (Some (Errorf ''creating agent bridge: %w'' [AErr e]), d)
          | Inr b \<Rightarrow>
              (let d = emit_events [FrontendRan] d in
               case fe_run fe b of
                 (None, _) \<Rightarrow> (None, d)
               | (Some e, cancelled) \<Rightarrow>
                   if cancelled then (None, emit_events [AgentStopped] d)
                   else (Some (Errorf ''frontend %q failed: %w'' [AStr (fe_name fe), AErr e]), d))))"

definition run_daemon :: "('t, 's, 'a, 'b) surroundings \<Rightarrow> string \<Rightarrow> string \<Rightarrow> string \<Rightarrow> string \<Rightarrow> int
    \<Rightarrow> goerr option \<times> ('t, 's, 'a) daemon" where
  "run_daemon su agentfile_path profile_flag rc_flag frontend_name health_port =
    (let d = \<lparr>dm_health = None, dm_runtime = None, dm_trace = []\<rparr> in
     case get_frontend frontend_name (su_frontends su) of
       None \<Rightarrow> (Some (Errorf ''unknown frontend %q; registered: %v''
                 [AStr frontend_name, AStrs (registered_frontends (su_order su) (su_frontends su))]), d)
     | Some fe \<Rightarrow>
         defer_cancel (defer_not_ready (let d = start_health health_port (su_now su) d in
           case main_agentfile (su_lib su) (su_fs su) agentfile_path (resolve_profile (su_platform su) profile_flag) of
             (es, Inl e) \<Rightarrow> (Some e, emit_events es d)
           | (es, Inr af) \<Rightarrow>
               (let d = emit_events es d in
                case load (su_syntax su) (su_fs su) (runtime_config_path agentfile_path rc_flag) of
                  Inl e \<Rightarrow> (Some (Errorf ''loading runtime config: %w'' [AErr e]), d)
                | Inr rc \<Rightarrow> defer_close (serve su fe (new_runtime af (Some rc)) d)))))"

text \<open>\<^verbatim>\<open>main\<close>: what it prints or the logger it sets up, its exit code, and the daemon it leaves.\<close>

datatype 'd main_result = PrintedVersion string | Exited log_handler int "goerr option" 'd

definition main_program :: "('t, 's, 'a, 'b) surroundings \<Rightarrow> string \<Rightarrow> flags \<Rightarrow> ('t, 's, 'a) daemon main_result" where
  "main_program su version fl =
    (if fl_version fl then PrintedVersion (''crated '' @ version @ [CHR 0x0A])
     else (let h = init_logging (fl_log_level fl) (fl_log_format fl) (fl_frontend fl) in
       case run_daemon su (fl_agentfile fl) (fl_profile fl) (fl_runtime_config fl) (fl_frontend fl) (fl_health_port fl) of
         (Some e, d) \<Rightarrow> Exited h 1 (Some e) d
       | (None, d) \<Rightarrow> Exited h 0 None d))"

section \<open>Reloading on SIGHUP\<close>

datatype hup_event =
    HupReadFailed goerr
  | HupParseFailed goerr
  | HupInvalidField string string
  | HupInvalid nat
  | HupProfileFailed goerr
  | HupReloadFailed goerr
  | HupReloaded

text \<open>One signal, with the files as they are then; \<open>None\<close> is a panic of \<^verbatim>\<open>Reload\<close>.\<close>

definition on_sighup :: "agentfile_lib \<Rightarrow> ('t, 's model_entry, 'a) externals \<Rightarrow> string \<Rightarrow> string \<Rightarrow> fs
    \<Rightarrow> ('t, 's, 'a) runtime \<Rightarrow> (hup_event list \<times> ('t, 's, 'a) runtime) option" where
  "on_sighup lib x path profile f rt =
    (case read_bytes f path of
       Inl e \<Rightarrow> Some ([HupReadFailed e], rt)
     | Inr d \<Rightarrow>
    (case parse_agentfile lib d of
       Inl e \<Rightarrow> Some ([HupParseFailed e], rt)
     | Inr res \<Rightarrow>
         if \<not> ps_valid res then
           Some (map (\<lambda>(fd, m). HupInvalidField fd m) (ps_errors res) @ [HupInvalid (length (ps_errors res))], rt)
         else (let reload = (\<lambda>af.
             (case reload_runtime x af rt of
                ReloadPanic \<Rightarrow> None
              | ReloadFailed e rt \<Rightarrow> Some ([HupReloadFailed e], rt)
              | Reloaded rt \<Rightarrow> Some ([HupReloaded], rt)))
           in if profile \<noteq> [] then
                (case profile_of lib (ps_agentfile res) profile of
                   Inl e \<Rightarrow> Some ([HupProfileFailed e], rt)
                 | Inr af \<Rightarrow> reload af)
              else reload (ps_agentfile res))))"

text \<open>The signals taken until the context is done.\<close>

fun handle_sighup :: "agentfile_lib \<Rightarrow> ('t, 's model_entry, 'a) externals \<Rightarrow> string \<Rightarrow> string \<Rightarrow> fs list
    \<Rightarrow> ('t, 's, 'a) runtime \<Rightarrow> (hup_event list \<times> ('t, 's, 'a) runtime) option" where
  "handle_sighup lib x path profile [] rt = Some ([], rt)"
| "handle_sighup lib x path profile (f # fs) rt =
    (case on_sighup lib x path profile f rt of
       None \<Rightarrow> None
     | Some (es, rt) \<Rightarrow> map_option (apfst ((@) es)) (handle_sighup lib x path profile fs rt))"

section \<open>The life of a run\<close>

text \<open>The events that mark the progress of a run; the others only report.\<close>

fun milestone :: "main_event \<Rightarrow> bool" where
  "milestone (InvalidField fd m) = False"
| "milestone (UsingProfile p) = False"
| "milestone AgentStopped = False"
| "milestone e = True"

definition milestones :: "('t, 's, 'a) daemon \<Rightarrow> main_event list" where
  "milestones d = filter milestone (dm_trace d)"

lemma emit_events_simps [simp]:
  "dm_health (emit_events es d) = dm_health d" "dm_runtime (emit_events es d) = dm_runtime d"
  "dm_trace (emit_events es d) = dm_trace d @ es"
  "milestones (emit_events es d) = milestones d @ filter milestone es"
  by (simp_all add: emit_events_def milestones_def)

lemma milestones_update [simp]:
  "milestones (d\<lparr>dm_health := h\<rparr>) = milestones d" "milestones (d\<lparr>dm_runtime := r\<rparr>) = milestones d"
  by (simp_all add: milestones_def)

lemma set_ready_simps [simp]:
  "dm_health (set_ready d) = map_option mark_ready (dm_health d)" "dm_runtime (set_ready d) = dm_runtime d"
  "milestones (set_ready d) = milestones d @ (case dm_health d of None \<Rightarrow> [] | Some h \<Rightarrow> [MarkedReady])"
  by (simp_all add: set_ready_def split: option.split)

lemma defers_simps [simp]:
  "dm_health (snd (defer_close r)) = dm_health (snd r)"
  "dm_runtime (snd (defer_close r)) = map_option close_runtime (dm_runtime (snd r))"
  "milestones (snd (defer_close r)) = milestones (snd r) @ [RuntimeClosed]"
  "dm_health (snd (defer_not_ready r)) = map_option mark_not_ready (dm_health (snd r))"
  "dm_runtime (snd (defer_not_ready r)) = dm_runtime (snd r)"
  "milestones (snd (defer_not_ready r)) =
     milestones (snd r) @ (case dm_health (snd r) of None \<Rightarrow> [] | Some h \<Rightarrow> [MarkedNotReady])"
  "dm_health (snd (defer_cancel r)) = dm_health (snd r)" "dm_runtime (snd (defer_cancel r)) = dm_runtime (snd r)"
  "milestones (snd (defer_cancel r)) = milestones (snd r) @ [ContextCancelled]"
  "fst (defer_close r) = fst r" "fst (defer_not_ready r) = fst r" "fst (defer_cancel r) = fst r"
  by (simp_all add: defer_close_def defer_not_ready_def defer_cancel_def split: option.split)

lemma start_health_simps [simp]:
  "dm_runtime (start_health port now d) = dm_runtime d"
  "dm_health (start_health port now d) =
     (if port > 0 then Some (new_server (CHR '':'' # itoa port) now) else dm_health d)"
  "milestones (start_health port now d) =
     milestones d @ (if port > 0 then [ServingHealth (CHR '':'' # itoa port)] else [])"
  by (simp_all add: start_health_def Let_def)

lemma main_agentfile_reports: "filter milestone (fst (main_agentfile lib f path profile)) = []"
  by (auto simp: main_agentfile_def filter_empty_conv split: sum.split)

text \<open>The ways the stages from \<^verbatim>\<open>rt.Init\<close> on can end.\<close>

definition ready_marks :: "('t, 's, 'a) daemon \<Rightarrow> main_event list" where
  "ready_marks d = (case dm_health d of None \<Rightarrow> [] | Some h \<Rightarrow> [MarkedReady])"

lemma serve_ends:
  "let r = serve su fe rt d; up = [Initialised, HandlingHups] @ ready_marks d in
   (milestones (snd r), fst r = None) \<in>
     {(milestones d, False), (milestones d @ up, False), (milestones d @ up @ [FrontendRan], False),
      (milestones d @ up @ [FrontendRan], True)} \<and>
   dm_runtime (snd r) = Some (snd (init_runtime (su_order su) (su_platform su) (su_providers su) (su_externals su) rt)) \<and>
   dm_health (snd r) \<in> {dm_health d, map_option mark_ready (dm_health d)}"
proof -
  obtain e rt' where i: "init_runtime (su_order su) (su_platform su) (su_providers su) (su_externals su) rt = (e, rt')"
    by fastforce
  show ?thesis
  proof (cases e)
    case (Some er)
    then show ?thesis using i by (simp add: serve_def Let_def)
  next
    case None
    show ?thesis
    proof (cases "new_agent_bridge (su_runner su) (su_sessions su) (rt_agent rt')")
      case (Inl er)
      then show ?thesis using i None by (simp add: serve_def Let_def ready_marks_def)
    next
      case (Inr b)
      obtain er c where "fe_run fe b = (er, c)" by fastforce
      then show ?thesis using i None Inr by (cases er) (simp_all add: serve_def Let_def ready_marks_def)
    qed
  qed
qed

lemma init_clean: "rt_closers (close_runtime (snd (init_runtime order p ps x (new_runtime af rc)))) = []"
proof (cases "new_model_registry order ps (af_brain af) (rt_rc (new_runtime af rc :: ('t, 's, 'a) runtime))")
  case (Inl e)
  then show ?thesis by (simp add: init_runtime_def close_runtime_def)
next
  case (Inr rw)
  obtain m ws where rw: "rw = (m, ws)" by (cases rw)
  obtain res r2 where c: "connect_skills p x (af_skills af) ((new_runtime af rc)\<lparr>rt_models := Some m\<rparr>) = (res, r2)"
    by fastforce
  have closed: "rt_closers (close_runtime r2) = []"
    using connect_skills_closers [of "(new_runtime af rc)\<lparr>rt_models := Some m\<rparr>" p x "af_skills af"] c by simp
  have agent: "rt_closers (close_runtime (r2\<lparr>rt_agent := a\<rparr>)) = rt_closers (close_runtime r2)" for a
    by (simp add: close_runtime_def)
  have "\<exists>a. snd (init_runtime order p ps x (new_runtime af rc)) \<in> {r2, close_runtime r2, r2\<lparr>rt_agent := a\<rparr>}"
    using Inr rw c by (auto simp: init_runtime_def split: option.split sum.split)
  then show ?thesis using closed agent by auto
qed

text \<open>
  C11. The life of a run, however it ends. The readiness mark comes after \<^verbatim>\<open>Init\<close> succeeded and
  before the frontend runs, a failed stage skips all later ones and gives an error, and
  what was started is undone in reverse: a runtime that was made is closed, with no closer left
  to run, then the server is marked not ready, then the context is cancelled. So the probe still
  answers ready while the skills are being stopped, and never after the run.
\<close>

theorem run_lifecycle:
  "let (err, d) = run_daemon su path profile rc_path name port;
       S = (if port > 0 then [ServingHealth (CHR '':'' # itoa port)] else []);
       I = [Initialised, HandlingHups] @ (if port > 0 then [MarkedReady] else []);
       E = (if port > 0 then [MarkedNotReady] else []) @ [ContextCancelled] in
   (milestones d, err = None) \<in>
     {([], False), (S @ E, False), (S @ [RuntimeClosed] @ E, False), (S @ I @ [RuntimeClosed] @ E, False),
      (S @ I @ [FrontendRan, RuntimeClosed] @ E, False), (S @ I @ [FrontendRan, RuntimeClosed] @ E, True)} \<and>
   (case dm_health d of None \<Rightarrow> True | Some h \<Rightarrow> \<not> hs_ready h) \<and>
   (case dm_runtime d of None \<Rightarrow> True | Some r \<Rightarrow> rt_closed r \<and> rt_closers r = [])"
proof -
  let ?d0 = "\<lparr>dm_health = None, dm_runtime = None, dm_trace = []\<rparr> :: ('a, 'b, 'c) daemon"
  have m0: "milestones ?d0 = []" by (simp add: milestones_def)
  show ?thesis
  proof (cases "get_frontend name (su_frontends su)")
    case None
    then show ?thesis by (simp add: run_daemon_def Let_def m0)
  next
    case fe: (Some fe)
    let ?d = "start_health port (su_now su) ?d0"
    obtain es r where a: "main_agentfile (su_lib su) (su_fs su) path (resolve_profile (su_platform su) profile) = (es, r)"
      by fastforce
    have es: "filter milestone es = []"
      using main_agentfile_reports [of "su_lib su" "su_fs su" path "resolve_profile (su_platform su) profile"] a by simp
    show ?thesis
    proof (cases r)
      case (Inl e)
      then show ?thesis using fe a es by (simp add: run_daemon_def Let_def m0 split_beta mark_not_ready_def)
    next
      case af: (Inr af)
      show ?thesis
      proof (cases "load (su_syntax su) (su_fs su) (runtime_config_path path rc_path)")
        case (Inl e)
        then show ?thesis using fe a es af by (simp add: run_daemon_def Let_def m0 split_beta mark_not_ready_def)
      next
        case (Inr rc)
        let ?s = "serve su fe (new_runtime af (Some rc)) (emit_events es ?d)"
        have run: "run_daemon su path profile rc_path name port = defer_cancel (defer_not_ready (defer_close ?s))"
          using fe a af Inr by (simp add: run_daemon_def Let_def)
        show ?thesis
          using serve_ends [of su fe "new_runtime af (Some rc)" "emit_events es ?d"] es
          unfolding Let_def run
          by (cases "port > 0") (auto simp: split_beta m0 ready_marks_def mark_ready_def mark_not_ready_def init_clean
            simp del: split_paired_All)
      qed
    qed
  qed
qed

text \<open>The Agentfile a path and a profile stand for, if there is one: as at the start, so at a signal.\<close>

definition offered :: "agentfile_lib \<Rightarrow> string \<Rightarrow> string \<Rightarrow> fs \<Rightarrow> agentfile option" where
  "offered lib path profile f =
    (case snd (main_agentfile lib f path profile) of Inl e \<Rightarrow> None | Inr af \<Rightarrow> Some af)"

text \<open>
  A run told by its errors alone: the stages in order, each with what its error is called; the first error is the run's.
\<close>

definition named :: "string \<Rightarrow> earg list \<Rightarrow> goerr + 'a \<Rightarrow> goerr + 'a" where
  "named what args r = map_sum (\<lambda>e. Errorf what (args @ [AErr e])) id r"

definition after_init :: "('t, 's, 'a, 'b) surroundings \<Rightarrow> ('b bridge \<Rightarrow> goerr option \<times> bool) frontend \<Rightarrow> ('t, 's, 'a) runtime
    \<Rightarrow> goerr + unit" where
  "after_init su fe rt =
    and_then (named ''creating agent bridge: %w'' [] (new_agent_bridge (su_runner su) (su_sessions su) (rt_agent rt))) (\<lambda>b.
    case fe_run fe b of
      (Some e, False) \<Rightarrow> named ''frontend %q failed: %w'' [AStr (fe_name fe)] (Inl e)
    | _ \<Rightarrow> Inr ())"

definition stages :: "('t, 's, 'a, 'b) surroundings \<Rightarrow> flags \<Rightarrow> goerr + unit" where
  "stages su fl =
    (let path = fl_agentfile fl; lib = su_lib su;
         profile = (if fl_profile fl \<noteq> [] then fl_profile fl else getenv (su_platform su) ''CRATE_PROFILE'');
         rc_path = (if fl_runtime_config fl \<noteq> [] then fl_runtime_config fl
                    else clean (dir path @ ''/'' @ ''.crate/runtime.json'')) in
     and_then (case get_frontend (fl_frontend fl) (su_frontends su) of
       None \<Rightarrow> Inl (Errorf ''unknown frontend %q; registered: %v''
         [AStr (fl_frontend fl), AStrs (registered_frontends (su_order su) (su_frontends su))])
     | Some fe \<Rightarrow> Inr fe) (\<lambda>fe.
     and_then (named ''reading %s: %w'' [AStr path] (read_bytes (su_fs su) path)) (\<lambda>d.
     and_then (named ''parsing %s: %w'' [AStr path] (parse_agentfile lib d)) (\<lambda>res.
     and_then (if ps_valid res then Inr (ps_agentfile res)
       else Inl (Errorf ''agentfile validation failed with %d errors'' [AInt (int (length (ps_errors res)))])) (\<lambda>af.
     and_then (if profile = [] then Inr af
       else named ''resolving profile %q: %w'' [AStr profile] (profile_of lib af profile)) (\<lambda>af.
     and_then (named ''loading runtime config: %w'' [] (load (su_syntax su) (su_fs su) rc_path)) (\<lambda>rc.
     and_then (named ''initializing runtime: %w'' []
       (case init_runtime (su_order su) (su_platform su) (su_providers su) (su_externals su) (new_runtime af (Some rc)) of
          (Some e, _) \<Rightarrow> Inl e
        | (None, rt) \<Rightarrow> Inr rt)) (after_init su fe))))))))"

definition error_of :: "goerr + 'a \<Rightarrow> goerr option" where
  "error_of r = (case r of Inl e \<Rightarrow> Some e | Inr _ \<Rightarrow> None)"

lemma error_of_simps [simp]: "error_of (Inl e) = Some e" "error_of (Inr a) = None"
  by (simp_all add: error_of_def)

lemma named_simps [simp]: "named what args (Inl e) = Inl (Errorf what (args @ [AErr e]))" "named what args (Inr a) = Inr a"
  by (simp_all add: named_def)

lemma serve_error:
  "fst (serve su fe rt d) = error_of (and_then (named ''initializing runtime: %w'' []
     (case init_runtime (su_order su) (su_platform su) (su_providers su) (su_externals su) rt of
        (Some e, _) \<Rightarrow> Inl e
      | (None, rt) \<Rightarrow> Inr rt)) (after_init su fe))"
  by (simp add: serve_def after_init_def Let_def split: prod.split option.split sum.split bool.split)

lemma agentfile_error:
  "snd (main_agentfile lib f path profile) =
    and_then (named ''reading %s: %w'' [AStr path] (read_bytes f path)) (\<lambda>d.
    and_then (named ''parsing %s: %w'' [AStr path] (parse_agentfile lib d)) (\<lambda>res.
    and_then (if ps_valid res then Inr (ps_agentfile res)
      else Inl (Errorf ''agentfile validation failed with %d errors'' [AInt (int (length (ps_errors res)))])) (\<lambda>af.
    if profile = [] then Inr af else named ''resolving profile %q: %w'' [AStr profile] (profile_of lib af profile))))"
  by (simp add: main_agentfile_def split: sum.split)

lemma and_then_assoc: "and_then (and_then r f) g = and_then r (\<lambda>a. and_then (f a) g)"
  by (cases r) simp_all

lemma run_error:
  "fst (run_daemon su (fl_agentfile fl) (fl_profile fl) (fl_runtime_config fl) (fl_frontend fl) port) = error_of (stages su fl)"
proof -
  let ?p = "resolve_profile (su_platform su) (fl_profile fl)"
  let ?rc = "runtime_config_path (fl_agentfile fl) (fl_runtime_config fl)"
  let ?a = "main_agentfile (su_lib su) (su_fs su) (fl_agentfile fl) ?p"
  have "fst (run_daemon su (fl_agentfile fl) (fl_profile fl) (fl_runtime_config fl) (fl_frontend fl) port) =
    error_of (and_then (case get_frontend (fl_frontend fl) (su_frontends su) of
       None \<Rightarrow> Inl (Errorf ''unknown frontend %q; registered: %v''
         [AStr (fl_frontend fl), AStrs (registered_frontends (su_order su) (su_frontends su))])
     | Some fe \<Rightarrow> Inr fe) (\<lambda>fe.
     and_then (snd ?a) (\<lambda>af.
     and_then (named ''loading runtime config: %w'' [] (load (su_syntax su) (su_fs su) ?rc)) (\<lambda>rc.
     and_then (named ''initializing runtime: %w'' []
       (case init_runtime (su_order su) (su_platform su) (su_providers su) (su_externals su) (new_runtime af (Some rc)) of
          (Some e, _) \<Rightarrow> Inl e
        | (None, rt) \<Rightarrow> Inr rt)) (after_init su fe)))))"
    by (cases ?a) (simp add: run_daemon_def Let_def serve_error split: option.split sum.split)
  moreover have "?p = (if fl_profile fl \<noteq> [] then fl_profile fl else getenv (su_platform su) ''CRATE_PROFILE'')"
    by (simp add: resolve_profile_def)
  moreover have "?rc = (if fl_runtime_config fl \<noteq> [] then fl_runtime_config fl
      else clean (dir (fl_agentfile fl) @ ''/'' @ ''.crate/runtime.json''))"
    by (simp add: runtime_config_path_def config_path_def slash_def)
  ultimately show ?thesis by (simp only: stages_def Let_def agentfile_error and_then_assoc)
qed

text \<open>
  C35. When the program exits with 0, and with what error otherwise. It exits with the error of the first stage that fails: the
  frontend is unknown; the Agentfile is not read, not parsed, not valid, or not resolved under the profile (the
  flag's, else \<^verbatim>\<open>CRATE_PROFILE\<close>); the runtime config (the flag's, else \<^verbatim>\<open>.crate/runtime.json\<close> beside the
  Agentfile) does not load; \<^verbatim>\<open>Init\<close> or the bridge fails; the frontend returns an error while the context is
  not done. With an error the code is 1, and the log shows it at every level the flags can choose; with none
  it is 0. Only when asked for the version the program prints it and starts nothing.
\<close>

theorem exit_zero_iff:
  "case main_program su v fl of
     PrintedVersion s \<Rightarrow> fl_version fl \<and> s = ''crated '' @ v @ [CHR 0x0A]
   | Exited h n e d \<Rightarrow> \<not> fl_version fl \<and> e = error_of (stages su fl) \<and> n = (if e = None then 0 else 1) \<and> writes h LevelError"
  using run_error [of su fl "fl_health_port fl"]
  by (auto simp: main_program_def Let_def errors_written split: prod.split option.split)

section \<open>Interrupts\<close>

text \<open>
  The goroutine of \<^verbatim>\<open>run\<close> that waits for the interrupts. The channel has room for one signal, and a
  signal that finds it full is dropped. \<open>Handler\<close> is the goroutine's next step: it takes the first
  signal and says so, cancels the context, takes the second and says so, exits with 1.
  \<open>MainEnds n\<close> is the end of \<^verbatim>\<open>main\<close>, which ends the process whatever the goroutine does.
\<close>

datatype sig_pc = WaitFirst | Announced | WaitSecond | Warned

record signals =
  sg_pending :: bool
  sg_pc :: sig_pc
  sg_cancelled :: bool
  sg_exit :: "int option"
  sg_forced :: bool

definition signals_start :: signals where
  "signals_start = \<lparr>sg_pending = False, sg_pc = WaitFirst, sg_cancelled = False, sg_exit = None, sg_forced = False\<rparr>"

datatype sig_event = Interrupt | Handler | MainEnds int

definition handler_step :: "signals \<Rightarrow> signals option" where
  "handler_step s =
    (case sg_pc s of
       WaitFirst \<Rightarrow> if sg_pending s then Some (s\<lparr>sg_pending := False, sg_pc := Announced\<rparr>) else None
     | Announced \<Rightarrow> Some (s\<lparr>sg_cancelled := True, sg_pc := WaitSecond\<rparr>)
     | WaitSecond \<Rightarrow> if sg_pending s then Some (s\<lparr>sg_pending := False, sg_pc := Warned\<rparr>) else None
     | Warned \<Rightarrow> Some (s\<lparr>sg_exit := Some 1, sg_forced := True\<rparr>))"

fun signal_step :: "sig_event \<Rightarrow> signals \<Rightarrow> signals option" where
  "signal_step Interrupt s = (if sg_exit s = None then Some (s\<lparr>sg_pending := True\<rparr>) else None)"
| "signal_step Handler s = (if sg_exit s = None then handler_step s else None)"
| "signal_step (MainEnds n) s = (if sg_exit s = None then Some (s\<lparr>sg_exit := Some n\<rparr>) else None)"

text \<open>The signals the goroutine has taken, and those in the channel, are no more than were sent.\<close>

definition signals_taken :: "signals \<Rightarrow> nat" where
  "signals_taken s = (case sg_pc s of WaitFirst \<Rightarrow> 0 | Announced \<Rightarrow> 1 | WaitSecond \<Rightarrow> 1 | Warned \<Rightarrow> 2)"

definition signals_ok :: "sig_event list \<Rightarrow> signals \<Rightarrow> bool" where
  "signals_ok es s \<longleftrightarrow>
    signals_taken s + (if sg_pending s then 1 else 0) \<le> count_list es Interrupt \<and>
    (count_list es Interrupt = 0 \<or> sg_pending s \<or> sg_pc s \<noteq> WaitFirst) \<and>
    sg_cancelled s = (sg_pc s = WaitSecond \<or> sg_pc s = Warned) \<and>
    (sg_forced s \<longrightarrow> sg_pc s = Warned \<and> sg_exit s = Some 1)"

interpretation signals: machine_invariant signal_step signals_start signals_ok
proof unfold_locales
  show "signals_ok [] signals_start" by (simp add: signals_ok_def signals_start_def signals_taken_def)
next
  fix es s e t
  assume "signals_ok es s" "signal_step e s = Some t"
  then show "signals_ok (es @ [e]) t"
    by (cases e; cases "sg_pc s")
      (auto simp: signals_ok_def signals_taken_def handler_step_def split: if_splits)
qed

text \<open>
  C20. The first interrupt stops the daemon gently, the second by force. However the interrupts and the
  goroutine's steps interleave: the handler cancels the context only after an interrupt and
  forces an exit, with code 1, only after two of them and after it cancelled; one interrupt is enough to
  get the context cancelled in at most two steps of the handler; and once it is, one more interrupt
  gets the process to exit in at most two.
\<close>

theorem interrupts_escalate:
  assumes "run_steps signal_step es signals_start = Some s"
  shows "(sg_cancelled s \<longrightarrow> 1 \<le> count_list es Interrupt) \<and>
    (sg_forced s \<longrightarrow> 2 \<le> count_list es Interrupt \<and> sg_cancelled s \<and> sg_exit s = Some 1) \<and>
    (sg_exit s = None \<and> 1 \<le> count_list es Interrupt \<longrightarrow>
      (\<exists>n t. n \<le> 2 \<and> run_steps signal_step (replicate n Handler) s = Some t \<and> sg_cancelled t)) \<and>
    (sg_exit s = None \<and> sg_cancelled s \<longrightarrow>
      (\<exists>n t. n \<le> 2 \<and> run_steps signal_step (Interrupt # replicate n Handler) s = Some t \<and> sg_forced t))"
proof -
  have ok: "signals_ok es s" using assms by (rule signals.along)
  have gentle: "\<exists>n t. n \<le> 2 \<and> run_steps signal_step (replicate n Handler) s = Some t \<and> sg_cancelled t"
    if "sg_exit s = None" "1 \<le> count_list es Interrupt"
  proof (cases "sg_pc s")
    case WaitFirst
    then have "sg_pending s" using ok that by (auto simp: signals_ok_def)
    then show ?thesis using WaitFirst that by (intro exI [of _ 2]) (simp add: numeral_2_eq_2 handler_step_def)
  next
    case Announced
    then show ?thesis using that by (intro exI [of _ 1]) (simp add: handler_step_def)
  qed (use ok in \<open>intro exI [of _ 0], simp add: signals_ok_def\<close>)+
  have force: "\<exists>n t. n \<le> 2 \<and> run_steps signal_step (Interrupt # replicate n Handler) s = Some t \<and> sg_forced t"
    if "sg_exit s = None" "sg_cancelled s"
  proof (cases "sg_pc s")
    case WaitSecond
    then show ?thesis using that by (intro exI [of _ 2]) (simp add: numeral_2_eq_2 handler_step_def)
  next
    case Warned
    then show ?thesis using that by (intro exI [of _ 1]) (simp add: handler_step_def)
  qed (use ok that in \<open>simp_all add: signals_ok_def\<close>)
  show ?thesis
    using ok gentle force by (auto simp: signals_ok_def signals_taken_def split: sig_pc.splits)
qed

theorem interrupts_escalate_witness:
  "\<exists>s t n. run_steps signal_step [Interrupt, Handler, Handler] signals_start = Some s \<and>
    run_steps signal_step (Interrupt # replicate n Handler) s = Some t \<and> sg_exit t = Some 1"
proof -
  obtain s where s: "run_steps signal_step [Interrupt, Handler, Handler] signals_start = Some s"
    "sg_exit s = None" "sg_cancelled s"
    by (simp add: signals_start_def handler_step_def)
  obtain n t where t: "run_steps signal_step (Interrupt # replicate n Handler) s = Some t" "sg_forced t"
    using interrupts_escalate [OF s(1)] s(2,3) by blast
  have "run_steps signal_step ([Interrupt, Handler, Handler] @ (Interrupt # replicate n Handler)) signals_start = Some t"
    using s(1) t(1) by (simp only: run_steps_append option.case)
  then have "sg_exit t = Some 1" using interrupts_escalate t(2) by blast
  then show ?thesis using s(1) t(1) by blast
qed

text \<open>Two interrupts that arrive before the goroutine takes the first count as one.\<close>

lemma interrupts_merge:
  "run_steps signal_step [Interrupt, Interrupt, Handler, Handler] signals_start =
      Some \<lparr>sg_pending = False, sg_pc = WaitSecond, sg_cancelled = True, sg_exit = None, sg_forced = False\<rparr> \<and>
    signal_step Handler \<lparr>sg_pending = False, sg_pc = WaitSecond, sg_cancelled = True, sg_exit = None, sg_forced = False\<rparr> = None"
  by (simp add: signals_start_def handler_step_def)

section \<open>Reloads\<close>

definition agent_for :: "('t, 'm, 'a) externals \<Rightarrow> 'm \<Rightarrow> 't list \<Rightarrow> agentfile \<Rightarrow> 'a option" where
  "agent_for x m ts af =
    (case new_agent x \<lparr>ac_name = af_name af, ac_description = af_description af, ac_model = m,
                       ac_instruction = af_prompt af, ac_toolsets = ts\<rparr> of
       Inl e \<Rightarrow> None | Inr a \<Rightarrow> Some a)"

text \<open>The reloads that take: an Agentfile is offered, and an agent can be built for it.\<close>

definition taken :: "agentfile_lib \<Rightarrow> ('t, 'm, 'a) externals \<Rightarrow> string \<Rightarrow> string \<Rightarrow> 'm \<Rightarrow> 't list \<Rightarrow> fs \<Rightarrow> (agentfile \<times> 'a) option" where
  "taken lib x path profile m ts f =
    Option.bind (offered lib path profile f) (\<lambda>af. map_option (Pair af) (agent_for x m ts af))"

definition adopt :: "(agentfile \<times> 'a) list \<Rightarrow> ('t, 's, 'a) runtime \<Rightarrow> ('t, 's, 'a) runtime" where
  "adopt gs rt = (if gs = [] then rt else rt\<lparr>rt_agent := Some (snd (last gs)), rt_af := fst (last gs)\<rparr>)"

lemma on_sighup_effect:
  assumes "rt_models rt = Some reg" "default_model reg = Inr m"
  shows "\<exists>es. on_sighup lib x path profile f rt = Some (es,
      case taken lib x path profile m (rt_toolsets rt) f of None \<Rightarrow> rt | Some g \<Rightarrow> adopt [g] rt) \<and>
    (HupReloaded \<in> set es \<longleftrightarrow> taken lib x path profile m (rt_toolsets rt) f \<noteq> None)"
proof -
  have reload: "\<exists>es. (case reload_runtime x af rt of ReloadPanic \<Rightarrow> None
        | ReloadFailed e rt \<Rightarrow> Some ([HupReloadFailed e], rt) | Reloaded rt \<Rightarrow> Some ([HupReloaded], rt)) =
      Some (es, case agent_for x m (rt_toolsets rt) af of None \<Rightarrow> rt | Some a \<Rightarrow> adopt [(af, a)] rt) \<and>
      (HupReloaded \<in> set es \<longleftrightarrow> agent_for x m (rt_toolsets rt) af \<noteq> None)" for af
    using assms by (auto simp: reload_runtime_def agent_for_def adopt_def split: sum.split)
  show ?thesis
  proof (cases "read_bytes f path")
    case (Inl e)
    then show ?thesis by (simp add: on_sighup_def taken_def offered_def main_agentfile_def)
  next
    case d: (Inr d)
    show ?thesis
    proof (cases "parse_agentfile lib d")
      case (Inl e)
      then show ?thesis using d by (simp add: on_sighup_def taken_def offered_def main_agentfile_def)
    next
      case res: (Inr res)
      show ?thesis
      proof (cases "ps_valid res")
        case False
        then show ?thesis using d res
          by (auto simp: on_sighup_def taken_def offered_def main_agentfile_def)
      next
        case valid: True
        show ?thesis
        proof (cases "profile = []")
          case True
          then show ?thesis using d res valid reload [of "ps_agentfile res"]
            by (auto simp: on_sighup_def taken_def offered_def main_agentfile_def Let_def split: option.split)
        next
          case False
          show ?thesis
          proof (cases "profile_of lib (ps_agentfile res) profile")
            case (Inl e)
            then show ?thesis using d res valid False
              by (simp add: on_sighup_def taken_def offered_def main_agentfile_def Let_def)
          next
            case (Inr af)
            then show ?thesis using d res valid False reload [of af]
              by (auto simp: on_sighup_def taken_def offered_def main_agentfile_def Let_def split: option.split)
          qed
        qed
      qed
    qed
  qed
qed

lemma adopt_more: "adopt (g # gs) rt = adopt gs (adopt [g] rt)"
  by (simp add: adopt_def)

lemma adopt_fields [simp]:
  "rt_models (adopt gs rt) = rt_models rt" "rt_toolsets (adopt gs rt) = rt_toolsets rt"
  by (simp_all add: adopt_def)

lemma handle_sighup_effect:
  "rt_models rt = Some reg \<Longrightarrow> default_model reg = Inr m \<Longrightarrow>
    map_option snd (handle_sighup lib x path profile fs rt) =
      Some (adopt (List.map_filter (taken lib x path profile m (rt_toolsets rt)) fs) rt)"
proof (induction fs arbitrary: rt)
  case Nil
  then show ?case by (simp add: adopt_def)
next
  case (Cons f fs)
  let ?t = "taken lib x path profile m (rt_toolsets rt) f"
  let ?rt = "case ?t of None \<Rightarrow> rt | Some g \<Rightarrow> adopt [g] rt"
  obtain es where o: "on_sighup lib x path profile f rt = Some (es, ?rt)"
    using on_sighup_effect [OF Cons.prems, of lib x path profile f] by blast
  have f: "rt_models ?rt = Some reg" "rt_toolsets ?rt = rt_toolsets rt"
    using Cons.prems by (simp_all split: option.split)
  have "map_option snd (handle_sighup lib x path profile (f # fs) rt) =
      map_option snd (handle_sighup lib x path profile fs ?rt)"
    by (simp add: o option.map_comp comp_def)
  also have "\<dots> = Some (adopt (List.map_filter (taken lib x path profile m (rt_toolsets rt)) fs) ?rt)"
    using Cons.IH [OF f(1) Cons.prems(2)] f(2) by simp
  finally show ?case
    using adopt_more [of _ "List.map_filter (taken lib x path profile m (rt_toolsets rt)) fs" rt]
    by (cases ?t) (simp_all add: List.map_filter_simps)
qed

lemma connect_skills_models: "rt_models (snd (connect_skills p x ss r)) = rt_models r"
  by (induction ss arbitrary: r) (auto simp: Let_def split: option.split sum.split)

lemma init_models:
  assumes "init_runtime order p ps x r = (None, rt)"
  shows "\<exists>reg m. rt_models rt = Some reg \<and> default_model reg = Inr m"
proof -
  obtain reg ws where n: "new_model_registry order ps (af_brain (rt_af r)) (rt_rc r) = Inr (reg, ws)"
    using assms by (auto simp: init_runtime_def split: sum.splits)
  obtain res r2 where c: "connect_skills p x (af_skills (rt_af r)) (r\<lparr>rt_models := Some reg\<rparr>) = (res, r2)"
    by fastforce
  have "rt_models r2 = Some reg"
    using connect_skills_models [of p x "af_skills (rt_af r)" "r\<lparr>rt_models := Some reg\<rparr>"] c by simp
  then show ?thesis using assms n c by (auto simp: init_runtime_def split: option.splits sum.splits)
qed

text \<open>
  C12. Reloading is safe and takes the last good file: after a successful \<^verbatim>\<open>Init\<close>, any sequence of
  SIGHUPs, whatever the Agentfile is at each, never panics, and leaves the runtime as it was but
  for the agent and Agentfile of the last signal at which the file could be read, parsed, validated and
  resolved and an agent built for it; with no such signal nothing changes. An Agentfile counts at
  a signal exactly when it would have been accepted at the start.
\<close>

theorem sighup_last_good:
  assumes "init_runtime order p ps x r = (None, rt)"
  shows "\<exists>reg m. rt_models rt = Some reg \<and> default_model reg = Inr m \<and>
    map_option snd (handle_sighup lib x path profile fs rt) =
      Some (adopt (List.map_filter (taken lib x path profile m (rt_toolsets rt)) fs) rt)"
  using init_models [OF assms] handle_sighup_effect by blast

text \<open>A small surroundings: one provider, one model, no skills, Agentfiles that are their prompt.\<close>

definition one_provider :: "'s providers" where
  "one_provider = [(''ext'', \<lparr>pv_name = ''ext'', pv_create = (\<lambda>i c mc. Inr \<lparr>llm_name = i, generate = (\<lambda>c q s. feed [])\<rparr>)\<rparr>)]"

definition small_af :: "string \<Rightarrow> agentfile" where
  "small_af prompt = \<lparr>af_name = ''bot'', af_description = [], af_prompt = prompt,
     af_brain = \<lparr>br_default = ''m'', br_models = [\<lparr>mc_name = ''m'', mc_model = ''ext/x'', mc_temperature = None,
       mc_max_tokens = None, mc_top_p = None\<rparr>]\<rparr>, af_skills = []\<rparr>"

definition prompt_lib :: agentfile_lib where
  "prompt_lib = \<lparr>parse_agentfile = (\<lambda>s. Inr \<lparr>ps_valid = s \<noteq> [], ps_errors = [], ps_agentfile = small_af s\<rparr>),
     profile_of = (\<lambda>af n. Inr af)\<rparr>"

definition holding :: "string \<Rightarrow> fs" where
  "holding s = empty_fs\<lparr>files := (\<lambda>_. Some s)\<rparr>"

lemma small_init: "\<exists>rt. init_runtime id bare_platform (one_provider :: (log_state \<times> unit limited_ext) world_scheme providers)
    (easy_externals :: (string, unit model_entry, string) externals) (new_runtime (small_af ''old'') None) = (None, rt) \<and>
    rt_toolsets rt = []"
  by (simp add: init_runtime_def new_model_registry_def small_af_def create_model_def lookup_def
    split_provider_model_def one_provider_def get_provider_def default_model_def easy_externals_def
    slash_def new_runtime_def)

definition three_hups :: "fs list" where
  "three_hups = [holding ''new'', empty_fs, holding []]"

theorem sighup_last_good_witness:
  "\<exists>rt rt'. init_runtime id bare_platform (one_provider :: (log_state \<times> unit limited_ext) world_scheme providers)
      (easy_externals :: (string, unit model_entry, string) externals) (new_runtime (small_af ''old'') None) = (None, rt) \<and>
    map_option snd (handle_sighup prompt_lib easy_externals ''Agentfile'' [] three_hups rt) = Some rt' \<and>
    rt_agent rt' = Some ''new''"
proof -
  obtain rt where i: "init_runtime id bare_platform (one_provider :: (log_state \<times> unit limited_ext) world_scheme providers)
      (easy_externals :: (string, unit model_entry, string) externals) (new_runtime (small_af ''old'') None) = (None, rt)"
    "rt_toolsets rt = []"
    using small_init by blast
  have taken: "List.map_filter (taken prompt_lib (easy_externals :: (string, unit model_entry, string) externals)
      ''Agentfile'' [] m []) three_hups = [(small_af ''new'', ''new'')]" for m
    by (simp add: three_hups_def List.map_filter_simps taken_def offered_def main_agentfile_def read_bytes_def
      read_file_def prompt_lib_def holding_def empty_fs_def agent_for_def easy_externals_def small_af_def)
  have "map_option snd (handle_sighup prompt_lib easy_externals ''Agentfile'' [] three_hups rt) =
      Some (adopt [(small_af ''new'', ''new'')] rt)"
    using sighup_last_good [OF i(1), of prompt_lib "''Agentfile''" "[]" three_hups] unfolding i(2) taken by blast
  moreover have "rt_agent (adopt [(small_af ''new'', ''new'')] rt) = Some ''new''" by (simp add: adopt_def)
  ultimately show ?thesis using i(1) by blast
qed

end
