(* ===== verification/Spec2Isabelle.thy ===== *)
theory Spec2Isabelle
  imports Prelude GoStrings GoJson JsonText JsonDecode Ratelimit Sse HttpClient RuntimeCfg Llm Middleware
    OpenAI Anthropic Gemini Registry Models Runtime Frontend Repl Serving Playground Health Crated
begin

text \<open>
  A model of \<^verbatim>\<open>crated\<close>, the daemon that runs an agent described by an Agentfile: it makes the models
  of the agent from providers, connects its skills, and serves the agent through a frontend, on the
  console or on a web page. The program is under \<^verbatim>\<open>src/\<close>; the paths below are relative to it.

  How the parts interact. \<^verbatim>\<open>cmd/crated/main.go\<close> (theory \<open>Crated\<close>) reads the Agentfile and the runtime config
  (\<open>RuntimeCfg\<close>), makes a runtime (\<open>Runtime\<close>), marks the health server (\<open>Health\<close>) ready and runs a frontend
  (\<open>Repl\<close>, \<open>Playground\<close>) over the agent bridge (\<open>Frontend\<close>). The runtime makes a model for each entry of the
  Agentfile (\<open>Models\<close>): the provider's model (\<open>OpenAI\<close>, \<open>Anthropic\<close>, \<open>Gemini\<close>) inside a logging and a
  rate-limiting wrapper (\<open>Middleware\<close>, \<open>Ratelimit\<close>). A provider's call goes through the HTTP client
  (\<open>HttpClient\<close>) and, when it streams, the SSE reader (\<open>Sse\<close>).

  The theories and the code they model:
  \<^item> \<open>Prelude\<close>: errors as values, 64-bit and 32-bit integers, Go's push iterators as functions of a
    consumer (\<open>seq\<close>, \<open>feed\<close>, the locale \<open>presents\<close>), machines that step on events (locale
    \<open>machine_invariant\<close>). \<open>GoStrings\<close>, \<open>GoJson\<close>, \<open>JsonText\<close>, \<open>JsonDecode\<close>: what
    the program uses of \<^verbatim>\<open>strings\<close>, \<^verbatim>\<open>strconv\<close>, \<^verbatim>\<open>unicode/utf8\<close>, \<^verbatim>\<open>io\<close> and \<^verbatim>\<open>encoding/json\<close>, with the round
    trip through JSON text (locale \<open>json_codec\<close>).
  \<^item> \<open>Ratelimit\<close> (\<^verbatim>\<open>internal/ratelimit/limiter.go\<close>): the operations for one goroutine, then a step
    relation of any number of them; locale \<open>slots\<close>.
  \<^item> \<open>Sse\<close> (\<^verbatim>\<open>internal/sse/reader.go\<close>): the reader refines a reference reading of blocks of lines.
  \<^item> \<open>HttpClient\<close> (\<^verbatim>\<open>internal/httpclient/client.go\<close>): a call is the list of its events and its result, over
    a network given as an argument.
  \<^item> \<open>RuntimeCfg\<close> (\<^verbatim>\<open>internal/runtimecfg/config.go\<close>): the file over a file system given as a record.
  \<^item> \<open>Llm\<close>: the types of the ADK and genai packages that the program reads and makes, the world a call runs in,
    and the transducers that present an iterator's loop as a function of its items (locale \<open>llm_call\<close>).
  \<^item> \<open>Middleware\<close> (\<^verbatim>\<open>internal/runtime/middleware/middleware.go\<close>; locale \<open>slot_user\<close>), \<open>OpenAI\<close>, \<open>Anthropic\<close>, \<open>Gemini\<close>
    (\<^verbatim>\<open>internal/runtime/providers\<close>), each from the request built to the items yielded.
  \<^item> \<open>Registry\<close>: the interface of the two registries, interpreted in \<open>Models\<close> (\<^verbatim>\<open>internal/runtime/models.go\<close>) and
    \<open>Frontend\<close> (\<^verbatim>\<open>internal/frontend/frontend.go\<close>).
  \<^item> \<open>Serving\<close>: what the two HTTP servers share, the multiplexer with its routes and the life of a server until
    its shutdown.
  \<^item> \<open>Runtime\<close> (\<^verbatim>\<open>internal/runtime/runtime.go\<close>), \<open>Repl\<close> and \<open>Playground\<close> (\<^verbatim>\<open>internal/frontend\<close>), \<open>Health\<close>
    (\<^verbatim>\<open>internal/health/health.go\<close>), \<open>Crated\<close> (\<^verbatim>\<open>cmd/crated/main.go\<close>).

  What the lemmas show. Per component: the SSE reader and the loops over streams equal references; JSON, SSE and the
  config file round-trip; the client's attempts, results and bounds; slots are bracketed, for one caller and under
  interleaving; requests keep the shape the APIs ask for; \<^verbatim>\<open>Init\<close> and \<^verbatim>\<open>Close\<close> balance, a reload is
  atomic; what frontends print and send. In this theory, across components: streams from the bytes on the
  wire to the consumer, calls as a whole, logging that changes only the log, what becomes of a response on
  its way to a frontend, the exit of a daemon with the web frontend.

  Bounds and fuel. The recursions are structural or have a measure. The JSON parser takes fuel twice the length of
  its text, which \<open>parse_emit\<close> shows is enough for any text that \<^verbatim>\<open>Marshal\<close> writes. The retry loop counts down
  the attempts that are left. Go's \<^verbatim>\<open>int\<close> is an \<open>int\<close> with \<open>wrap64\<close> where it can overflow, \<^verbatim>\<open>int32\<close> is a
  32-bit word. A float is the literal Go writes for it.

  Parameters. The network, the environment, the file system, clocks and random bits, the order of a map, and the
  packages that are not in the repository (ADK runner and agents, MCP toolsets, the Agentfile parser, the Gemini
  model, the WebSocket library) are arguments of the definitions that use them.

  Not modelled: the sockets, the file server, the WebSocket protocol and the parsing of the flags, which are the
  libraries' (their results are arguments), durations in log entries, timeouts of single chats, and the stub methods of
  \<^verbatim>\<open>preloadContext\<close>, which have no behaviour.
\<close>

section \<open>Streams, from the bytes to the consumer\<close>

lemma items_apart: "list_all2 P xs (ys @ [z]) \<Longrightarrow> \<exists>xs' x. xs = xs' @ [x] \<and> list_all2 P xs' ys \<and> P x z"
  unfolding list_all2_append2 by (elim exE conjE) (metis list_all2_Cons2 list.rel_sel list_all2_Nil2)

lemma oai_stream_run:
  assumes "oai_http_request p m req True = Inr q" "do_stream (call_net c) q = (evs, Inr resp)"
    and "sse_items max_line (resp_body resp) = its"
    and "transduce (oai_step p g) oai_stream_start its = got" "\<not> crashes (oai_step p g) oai_stream_start its"
  shows "oai_generate p g m c req True y w = deferred (note_http [Closed]) (feed got y (note_http evs w))"
  using assms by (simp add: oai.run oai_plan_def oai_stream_plan_def)

lemma ant_stream_run:
  assumes "ant_http_request p m req True = Inr q" "do_stream (call_net c) q = (evs, Inr resp)"
    and "sse_items max_line (resp_body resp) = its"
    and "transduce (ant_step p g) ant_stream_start its = got" "\<not> crashes (ant_step p g) ant_stream_start its"
  shows "ant_generate p g m c req True y w = deferred (note_http [Closed]) (feed got y (note_http evs w))"
  using assms by (simp add: ant.run ant_plan_def ant_stream_plan_def)

text \<open>
  C1. An OpenAI stream, from the bytes on the wire to any consumer: when the server's body is the
  text of events that carry chunks, the last of them with a finish reason, the call yields each text
  that is not empty as it came, then one final response, whose content are the tool calls put together by
  index, if there are any, whose usage is the last one seen, in 32 bits, and whose finish reason is the server's, and
  closes the body. Nothing behind that chunk is looked at, so a usage sent in a chunk of its own after the finish
  reason is lost.
\<close>

theorem oai_stream_delivers:
  assumes "oai_http_request p m req True = Inr q" "do_stream (call_net c) q = (evs, Inr resp)"
    and "resp_body resp = \<lparr>bytes = wire_text (es @ behind), fault = None\<rparr>"
    and "\<forall>e \<in> set (es @ behind). clean_event max_line e"
    and "list_all2 (\<lambda>e ch. carries (wire_event e, None) ch) es (chs @ [ch])"
    and "\<forall>ch \<in> set chs. chunk_finish ch = None" "chunk_finish ch = Some reason"
    and "\<forall>tc \<in> set (concat (map chunk_calls (chs @ [ch]))). 0 \<le> sc_index tc"
  shows "oai_generate p g m c req True y w = deferred (note_http [Closed])
    (feed (text_items g (chs @ [ch]) @
      [(Some \<lparr>lr_content = (let calls = assembled (concat (map chunk_calls (chs @ [ch]))) in
                if calls = [] then None
                else Some \<lparr>content_role = ''model'',
                  content_parts = map (\<lambda>a. call_part g (acc_name a) (snd (unmarshal_args (acc_arguments a)))) calls\<rparr>),
              lr_usage = (case last_usage None (chs @ [ch]) of
                  None \<Rightarrow> None
                | Some u \<Rightarrow> Some \<lparr>prompt_count = word_of_int (us_prompt u),
                    candidates_count = word_of_int (us_completion u), total_count = word_of_int (us_total u)\<rparr>),
              lr_turn_complete = True,
              lr_finish = (if reason = ''length'' then FinishMaxTokens
                else if reason = ''content_filter'' then FinishSafety else FinishStop)\<rparr>, None)]) y (note_http evs w))"
proof -
  obtain es' e where es: "es = es' @ [e]" "list_all2 (\<lambda>e ch. carries (wire_event e, None) ch) es' chs"
    "carries (wire_event e, None) ch"
    using items_apart [OF assms(5)] by blast
  have l: "list_all2 carries (map (\<lambda>e. (wire_event e, None)) es') chs" using es(2) by (simp add: list_all2_map1)
  have its: "sse_items max_line (resp_body resp) =
      map (\<lambda>e. (wire_event e, None)) es' @ (wire_event e, None) # map (\<lambda>e. (wire_event e, None)) behind"
    using sse_items_wire [OF assms(4)] assms(3) es(1) by simp
  note finish = oai_stream_finish [OF l assms(6) es(3) assms(7,8), of p g "map (\<lambda>e. (wire_event e, None)) behind"]
  note final = oai_final_def oai_map_finish_def oai_usage_meta_def int32_of_def
  show ?thesis
    by (rule oai_stream_run [OF assms(1,2) its])
      (use finish in \<open>simp_all add: final Let_def split: option.split\<close>)
qed

text \<open>A server that answers every request with 200 and a given body.\<close>

definition serving :: "string \<Rightarrow> call" where
  "serving b = live_call\<lparr>call_net := (down (\<lambda>_. None))
     \<lparr>transport := (\<lambda>k q. Inr \<lparr>status = 200, resp_body = \<lparr>bytes = b, fault = None\<rparr>\<rparr>)\<rparr>\<rparr>"

lemma do_stream_serving:
  "do_stream (call_net (serving b)) q = ([Attempt 0 (sent_body q)], Inr \<lparr>status = 200, resp_body = \<lparr>bytes = b, fault = None\<rparr>\<rparr>)"
  by (simp add: do_stream_def serving_def)

text \<open>A consumer that keeps the items it gets, and the world it starts in.\<close>

record diary = world +
  noticed :: "llm_item list"

definition noticing :: "(llm_item, diary) yield" where
  "noticing x d = (More, d\<lparr>noticed := noticed d @ [x]\<rparr>)"

definition fresh :: diary where
  "fresh = \<lparr>http_log = [], llm_log = [], noticed = []\<rparr>"

definition empty_req :: llm_request where
  "empty_req = \<lparr>req_contents = [], req_config = None\<rparr>"

lemma local_request: "\<exists>q. oai_http_request bare_platform local_model empty_req True = Inr q"
  by (auto simp: oai_http_request_def enc_chat_request_def oai_build_request_def omit_float_def empty_req_def
    local_model_def tuned_def new_post_def bare_platform_def)

text \<open>A stream of two events: a text, then the end at the token limit, with the usage.\<close>

definition hi_event :: "string \<times> string list" where
  "hi_event = ([], [marshal (delta_json [(''content'', JStr ''hi'')] JNull)])"

definition limit_json :: json where
  "limit_json = JObj
    [(''choices'', JArr [JObj [(''delta'', JObj []), (''finish_reason'', JStr ''length'')]]),
     (''usage'', JObj [(''prompt_tokens'', JNum ''3''), (''completion_tokens'', JNum ''4''), (''total_tokens'', JNum ''7'')])]"

definition limit_event :: "string \<times> string list" where
  "limit_event = ([], [marshal limit_json])"

definition limit_chunk :: stream_response where
  "limit_chunk = (stream_of [] [] (Some ''length''))\<lparr>sr_usage := Some \<lparr>us_prompt = 3, us_completion = 4, us_total = 7\<rparr>\<rparr>"

lemma limit_numbers:
  "num_ok ''3''" "num_ok ''4''" "num_ok ''7''" "parse_int ''3'' = Some 3" "parse_int ''4'' = Some 4" "parse_int ''7'' = Some 7"
  "fold_name ''prompt_tokens'' = ''PROMPT_TOKENS''" "fold_name ''completion_tokens'' = ''COMPLETION_TOKENS''"
  "fold_name ''total_tokens'' = ''TOTAL_TOKENS''"
  by code_simp+

lemma carries_limit: "carries (wire_event limit_event, None) limit_chunk"
proof -
  have "wf_json limit_json" by (simp add: limit_json_def text_simps limit_numbers)
  then have "parse (marshal limit_json) = Some limit_json" by simp
  then show ?thesis
    by (simp add: carries_def limit_event_def wire_event_def limit_json_def marshal_def limit_chunk_def stream_of_def dec_stream
      dec_oai_usage_def field_Cons limit_numbers)
qed

lemma limit_clean: "clean_event max_line limit_event" "clean_event max_line hi_event"
  by (simp_all add: limit_event_def limit_json_def hi_event_def delta_json_def clean_event_def clean_field_def marshal_def
    quote_string_def quote_rune_def runes_ascii LF_def CR_def max_line_def trim_space_def is_space_def drop_while_end_def)
    (simp_all add: DQ_def)

theorem oai_stream_delivers_witness:
  "\<exists>evs. oai_generate bare_platform genai_lib local_model (serving (wire_text [hi_event, limit_event])) empty_req True noticing fresh =
    deferred (note_http [Closed]) (feed
      [(Some \<lparr>lr_content = Some \<lparr>content_role = ''model'', content_parts = [text_part genai_lib ''hi'']\<rparr>, lr_usage = None,
              lr_turn_complete = False, lr_finish = NoReason\<rparr>, None),
       (Some \<lparr>lr_content = None, lr_usage = Some \<lparr>prompt_count = 3, candidates_count = 4, total_count = 7\<rparr>,
              lr_turn_complete = True, lr_finish = FinishMaxTokens\<rparr>, None)] noticing (note_http evs fresh))"
proof -
  obtain q where q: "oai_http_request bare_platform local_model empty_req True = Inr q" using local_request by blast
  let ?hi = "stream_of [] ''hi'' None"
  have "carries (frame (delta_json [(''content'', JStr ''hi'')] JNull)) ?hi"
    by (rule carries_text) (simp add: text_simps)
  then have e: "list_all2 (\<lambda>e ch. carries (wire_event e, None) ch) [hi_event, limit_event] ([?hi] @ [limit_chunk])"
    using carries_limit by (simp add: hi_event_def frame_def wire_event_def)
  have ch: "chunk_finish limit_chunk = Some ''length''" "chunk_calls limit_chunk = []" "chunk_text limit_chunk = []"
    "sr_usage limit_chunk = Some \<lparr>us_prompt = 3, us_completion = 4, us_total = 7\<rparr>"
    "chunk_finish ?hi = None" "chunk_calls ?hi = []" "chunk_text ?hi = ''hi''" "sr_usage ?hi = None"
    by (simp_all add: limit_chunk_def stream_of_def chunk_finish_def chunk_calls_def chunk_text_def)
  have "assembled [] = []" by (simp add: assembled_def width_def)
  then show ?thesis
    using oai_stream_delivers [OF q do_stream_serving, where es = "[hi_event, limit_event]" and behind = "[]" and chs = "[?hi]"
        and ch = limit_chunk and reason = "''length''" and g = genai_lib and y = noticing and w = fresh] e ch limit_clean
    by (auto simp: text_items_def last_usage_def)
qed

text \<open>
  C33. An OpenAI stream that breaks off: when the body ends, or says \<^verbatim>\<open>[DONE]\<close>, before any finish
  reason, the consumer got the texts, but no final response and no error, and the tool calls received
  so far are dropped.
\<close>

theorem oai_stream_breaks_off:
  assumes "oai_http_request p m req True = Inr q" "do_stream (call_net c) q = (evs, Inr resp)"
    and "resp_body resp = \<lparr>bytes = wire_text (es @ rest), fault = None\<rparr>"
    and "\<forall>e \<in> set (es @ rest). clean_event max_line e"
    and "list_all2 (\<lambda>e ch. carries (wire_event e, None) ch) es chs"
    and "\<forall>ch \<in> set chs. chunk_finish ch = None"
    and "\<forall>tc \<in> set (concat (map chunk_calls chs)). 0 \<le> sc_index tc"
    and "rest = [] \<or> (\<exists>more. rest = ([], [''[DONE]'']) # more)"
  shows "oai_generate p g m c req True y w = deferred (note_http [Closed]) (feed (text_items g chs) y (note_http evs w))"
proof -
  have l: "list_all2 carries (map (\<lambda>e. (wire_event e, None)) es) chs" using assms(5) by (simp add: list_all2_map1)
  have its: "sse_items max_line (resp_body resp) =
      map (\<lambda>e. (wire_event e, None)) es @ map (\<lambda>e. (wire_event e, None)) rest"
    using sse_items_wire [OF assms(4)] assms(3) by simp
  have fin: "map (\<lambda>e. (wire_event e, None :: goerr option)) rest = [] \<or>
      (\<exists>t r. map (\<lambda>e. (wire_event e, None)) rest = (\<lparr>ev_type = t, ev_data = ''[DONE]''\<rparr>, None) # r)"
    using assms(8) by (auto simp: wire_event_def)
  note unfinished = oai_stream_unfinished [OF l assms(6,7) fin, of p g]
  show ?thesis
    by (rule oai_stream_run [OF assms(1,2) its]) (use unfinished in simp_all)
qed

theorem oai_stream_breaks_off_witness:
  "\<exists>evs. oai_generate bare_platform genai_lib local_model (serving (wire_text [([], [''[DONE]''])])) empty_req True noticing fresh =
    deferred (note_http [Closed]) (feed [] noticing (note_http evs fresh))"
proof -
  obtain q where q: "oai_http_request bare_platform local_model empty_req True = Inr q" using local_request by blast
  have "clean_event max_line ([], [''[DONE]''])"
    by (simp add: clean_event_def clean_field_def LF_def CR_def max_line_def trim_space_def runes_ascii is_space_def
      drop_while_end_def)
  then show ?thesis
    using oai_stream_breaks_off [OF q do_stream_serving, where es = "[]" and rest = "[([], [''[DONE]''])]" and chs = "[]"
        and g = genai_lib and y = noticing and w = fresh]
    by (auto simp: text_items_def)
qed

lemma ant_wire_stream:
  assumes "ant_http_request p m req True = Inr q" "do_stream (call_net c) q = (evs, Inr resp)"
    and "resp_body resp = \<lparr>bytes = wire_text (es @ behind), fault = None\<rparr>"
    and "\<forall>e \<in> set (es @ behind). clean_event max_line e"
    and "list_all2 (\<lambda>e s. speaks (wire_event e, None) s) (filter (\<lambda>e. \<not> passed_over (wire_event e, None)) es)
      (blocks_srv 0 bs @ [SDelta reason u, SEnd])"
    and "\<forall>b \<in> set bs. block_ok b"
  shows "ant_generate p g m c req True y w = deferred (note_http [Closed])
    (feed (concat (map (block_items g) bs) @
      [(Some \<lparr>lr_content = None, lr_usage = map_option ant_usage_meta u, lr_turn_complete = True,
             lr_finish = ant_map_stop reason\<rparr>, None)]) y (note_http evs w))"
proof -
  have l: "list_all2 speaks (filter (\<lambda>x. \<not> passed_over x) (map (\<lambda>e. (wire_event e, None)) es))
      (blocks_srv 0 bs @ [SDelta reason u, SEnd])"
    using assms(5) by (simp add: filter_map list_all2_map1 o_def)
  have its: "sse_items max_line (resp_body resp) =
      map (\<lambda>e. (wire_event e, None)) es @ map (\<lambda>e. (wire_event e, None)) behind"
    using sse_items_wire [OF assms(4)] assms(3) by simp
  note whole = ant_stream_with_others [OF l assms(6), where p = p and g = g
      and behind = "map (\<lambda>e. (wire_event e, None)) behind"]
  show ?thesis
    by (rule ant_stream_run [OF assms(1,2) its]) (use whole in simp_all)
qed

text \<open>
  C2. A Claude message, from the bytes on the wire to any consumer: a server begins it with \<^verbatim>\<open>message_start\<close> and may send
  \<^verbatim>\<open>ping\<close> and events of types the provider does not know at any place; among them it sends any list of text and
  \<^verbatim>\<open>tool_use\<close> blocks, one after the other, then the stop reason with the usage and
  the end. The call yields every text delta, each tool call once its block is complete, with
  exactly the input whose text the server cut into fragments, and a final response without content with the stop
  reason and that usage, in 32 bits and with the sum of the two counts as the total, and closes the body; the other events
  change nothing, and what follows the end is not looked at.
\<close>

theorem ant_stream_delivers:
  assumes "ant_http_request p m req True = Inr q" "do_stream (call_net c) q = (evs, Inr resp)"
    and "resp_body resp = \<lparr>bytes = wire_text (es @ behind), fault = None\<rparr>"
    and "\<forall>e \<in> set (es @ behind). clean_event max_line e"
    and "list_all2 (\<lambda>e s. speaks (wire_event e, None) s) (filter (\<lambda>e. \<not> passed_over (wire_event e, None)) es)
      (blocks_srv 0 bs @ [SDelta reason u, SEnd])"
    and "\<forall>b \<in> set bs. block_ok b"
  shows "ant_generate p g m c req True y w = deferred (note_http [Closed])
    (feed (concat (map (block_items g) bs) @
      [(Some \<lparr>lr_content = None,
             lr_usage = (case u of
                 None \<Rightarrow> None
               | Some n \<Rightarrow> Some \<lparr>prompt_count = word_of_int (au_input n), candidates_count = word_of_int (au_output n),
                   total_count = word_of_int (au_input n + au_output n)\<rparr>),
             lr_turn_complete = True,
             lr_finish = (if reason = ''max_tokens'' then FinishMaxTokens else FinishStop)\<rparr>, None)]) y (note_http evs w))"
  using ant_wire_stream [OF assms, of g y w]
  by (simp add: ant_usage_meta_def ant_map_stop_def int32_of_def [symmetric] map_option_case split: option.split)

definition claude :: ant_model where
  "claude = \<lparr>ant_id = ''claude'', ant_key = ''sk'', ant_base = ant_default_base, ant_config = plain_config,
             ant_client = default_client\<rparr>"

lemma claude_request: "\<exists>q. ant_http_request bare_platform claude empty_req True = Inr q"
  by (auto simp: ant_http_request_def enc_messages_request_def ant_build_request_def omit_float_def empty_req_def
    claude_def plain_config_def new_post_def bare_platform_def ant_convert_contents_def)

definition sample_wire :: "(string \<times> string list) list" where
  "sample_wire = map (\<lambda>x. (ev_type (fst x), [ev_data (fst x)])) sample_message"

lemma sample_wire_items: "map (\<lambda>e. (wire_event e, None)) sample_wire = sample_message"
  by (simp add: sample_wire_def sample_message_def wire_event_def typed_frame_def)

lemma sample_wire_clean: "\<forall>e \<in> set sample_wire. clean_event max_line e"
  by (simp add: sample_wire_def sample_message_def typed_frame_def clean_event_def clean_field_def marshal_def
    quote_string_def quote_rune_def runes_ascii LF_def CR_def BS_def max_line_def trim_space_def is_space_def
    drop_while_end_def) (simp add: DQ_def)

lemma sample_wire_speaks:
  "list_all2 (\<lambda>e s. speaks (wire_event e, None) s) (filter (\<lambda>e. \<not> passed_over (wire_event e, None)) sample_wire)
    (blocks_srv 0 [ToolBlock ''t1'' ''add'' (Some []) [''{'', ''}'']] @
      [SDelta ''tool_use'' (Some \<lparr>au_input = 0, au_output = 7\<rparr>), SEnd])"
proof -
  have "list_all2 speaks (filter (\<lambda>x. \<not> passed_over x) (map (\<lambda>e. (wire_event e, None)) sample_wire))
      (blocks_srv 0 [ToolBlock ''t1'' ''add'' (Some []) [''{'', ''}'']] @
        [SDelta ''tool_use'' (Some \<lparr>au_input = 0, au_output = 7\<rparr>), SEnd])"
    unfolding sample_wire_items by (rule sample_speaks)
  then show ?thesis by (simp only: filter_map list_all2_map1 o_def)
qed

lemma sample_block: "\<forall>b \<in> set [ToolBlock ''t1'' ''add'' (Some []) [''{'', ''}'']]. block_ok b"
  by (simp add: canonical_map_def enc_map_def marshal_def)

text \<open>The sample begins with \<^verbatim>\<open>message_start\<close> and has a \<^verbatim>\<open>ping\<close>.\<close>

theorem ant_stream_delivers_witness:
  "\<exists>evs. ant_generate bare_platform genai_lib claude (serving (wire_text sample_wire)) empty_req True noticing fresh =
    deferred (note_http [Closed]) (feed
      [(Some \<lparr>lr_content = Some \<lparr>content_role = ''model'', content_parts = [call_part genai_lib ''add'' (Some [])]\<rparr>,
              lr_usage = None, lr_turn_complete = False, lr_finish = NoReason\<rparr>, None),
       (Some \<lparr>lr_content = None, lr_usage = Some \<lparr>prompt_count = 0, candidates_count = 7, total_count = 7\<rparr>, lr_turn_complete = True,
              lr_finish = FinishStop\<rparr>, None)] noticing (note_http evs fresh)) \<and>
    map fst sample_wire = [''message_start'', ''content_block_start'', ''ping'', ''content_block_delta'', ''content_block_delta'',
      ''content_block_stop'', ''message_delta'', ''message_stop'']"
proof -
  obtain q where q: "ant_http_request bare_platform claude empty_req True = Inr q" using claude_request by blast
  have "map fst sample_wire = [''message_start'', ''content_block_start'', ''ping'', ''content_block_delta'', ''content_block_delta'',
      ''content_block_stop'', ''message_delta'', ''message_stop'']"
    by (simp add: sample_wire_def sample_message_def)
  then show ?thesis
    using ant_stream_delivers [OF q do_stream_serving, where es = sample_wire and behind = "[]",
        OF _ _ sample_wire_speaks sample_block, where g = genai_lib and y = noticing and w = fresh] sample_wire_clean
    by auto
qed

section \<open>Whole calls\<close>

definition answer_or_error :: "llm_item \<Rightarrow> bool" where
  "answer_or_error item =
    (case item of (Some r, None) \<Rightarrow> lr_turn_complete r | (None, Some e) \<Rightarrow> True | _ \<Rightarrow> False)"

lemma oai_sync_one:
  assumes "oai_create p i cc mc = Inr m"
  shows "\<exists>item before after. oai_generate p g m c req False y w =
      deferred (note_http after) (feed [item] y (note_http before w)) \<and> answer_or_error item"
proof -
  let ?pl = "oai_plan p g m c req False"
  obtain item where i: "pl_items ?pl = [item]" "answer_or_error item" "\<not> pl_crash ?pl"
    using oai_sync_total [OF assms, of g c req] unfolding answer_or_error_def by blast
  have "oai_generate p g m c req False y w =
      deferred (note_http (pl_after ?pl)) (feed [item] y (note_http (pl_before ?pl) w))"
    using i by (simp add: oai.run)
  then show ?thesis using i(2) by blast
qed

lemma ant_sync_one:
  assumes "ant_create p i cc mc = Inr n"
  shows "\<exists>item before after. ant_generate p g n c req False y w =
      deferred (note_http after) (feed [item] y (note_http before w)) \<and> answer_or_error item"
proof -
  let ?pl = "ant_plan p g n c req False"
  obtain item where i: "pl_items ?pl = [item]" "answer_or_error item" "\<not> pl_crash ?pl"
    using ant_sync_total [OF assms, of g c req] unfolding answer_or_error_def by blast
  have "ant_generate p g n c req False y w =
      deferred (note_http (pl_after ?pl)) (feed [item] y (note_http (pl_before ?pl) w))"
    using i by (simp add: ant.run)
  then show ?thesis using i(2) by blast
qed

text \<open>
  C27. A synchronous call of a model that creation made neither panics nor stays silent, whatever the
  server and the network do: the consumer gets exactly one item, a complete response or an error,
  for both providers.
\<close>

theorem sync_calls_answer_once:
  assumes "oai_create p i cc mc = Inr m" "ant_create p i' cc' mc' = Inr n"
  shows "(\<exists>item before after. oai_generate p g m c req False y w =
      deferred (note_http after) (feed [item] y (note_http before w)) \<and> answer_or_error item) \<and>
    (\<exists>item before after. ant_generate p g n c req False y w =
      deferred (note_http after) (feed [item] y (note_http before w)) \<and> answer_or_error item)"
  using oai_sync_one [OF assms(1)] ant_sync_one [OF assms(2)] by blast

theorem sync_calls_answer_once_witness:
  "\<exists>m n item before after. oai_create keyed_env ''gpt'' empty_cc plain_config = Inr m \<and>
    ant_create keyed_env ''claude'' empty_cc plain_config = Inr n \<and>
    oai_generate keyed_env genai_lib m live_call empty_req False noticing fresh =
      deferred (note_http after) (feed [item] noticing (note_http before fresh))"
proof -
  obtain n where n: "ant_create keyed_env ''claude'' empty_cc plain_config = Inr n"
    by (simp add: ant_create_def keyed_env_def Let_def)
  obtain m where m: "oai_create keyed_env ''gpt'' empty_cc plain_config = Inr m"
    by (simp add: oai_create_def keyed_env_def Let_def)
  then show ?thesis using sync_calls_answer_once [OF m n] n by blast
qed

text \<open>
  C28. Logging is transparent: for a consumer that leaves the model's log alone, a logged model behaves as
  the model, over any request, server and network, streaming or not, and however the consumer
  ends the loop; only the log differs.
\<close>

theorem logging_changes_only_the_log:
  assumes "log_blind y"
  shows "apsnd erase (generate (with_logging (oai_llm p g m)) c req streaming y w) =
      apsnd erase (generate (oai_llm p g m) c req streaming y w) \<and>
    apsnd erase (generate (with_logging (ant_llm p g n)) c req streaming y w) =
      apsnd erase (generate (ant_llm p g n) c req streaming y w)"
  using logging_transparent [OF oai.llm_call_axioms oai.llm_call_axioms assms]
    logging_transparent [OF ant.llm_call_axioms ant.llm_call_axioms assms]
  by (simp add: with_logging_def oai_llm_def ant_llm_def)

theorem logging_changes_only_the_log_witness:
  "apsnd erase (generate (with_logging (oai_llm bare_platform genai_lib local_model)) ok_call empty_req True
      (\<lambda>x s. (Stop, s)) \<lparr>http_log = [], llm_log = []\<rparr>) =
    apsnd erase (generate (oai_llm bare_platform genai_lib local_model) ok_call empty_req True
      (\<lambda>x s. (Stop, s)) \<lparr>http_log = [], llm_log = []\<rparr>)"
proof -
  have "log_blind (\<lambda>x s. (Stop, s))" by (simp add: log_blind_def)
  then show ?thesis using logging_changes_only_the_log by blast
qed

section \<open>From the model to the frontend\<close>

lemma no_usage_shown:
  "\<forall>e \<in> set es. ae_content e = None \<or> ae_usage e = None \<Longrightarrow>
    \<forall>x \<in> set (transduce chat_step no_usage (ok_items es)). av_usage (fst x) = None"
proof (induction es)
  case Nil
  then show ?case by (simp add: ok_items_def)
next
  case (Cons e es)
  have "av_usage (event_of e c no_usage) = None" for c by (simp add: event_of_def no_usage_def)
  then show ?case using Cons
    by (cases "ae_content e") (simp_all add: ok_items_def chat_step_def add_usage_def Let_def)
qed

text \<open>The items a consumer receives that takes all a Claude model streams.\<close>

definition received :: "platform \<Rightarrow> genai \<Rightarrow> ant_model \<Rightarrow> call \<Rightarrow> llm_request \<Rightarrow> llm_item list" where
  "received p g m c req = noticed (snd (ant_generate p g m c req True noticing fresh))"

lemma noticing_all: "drive xs noticing d = (More, d\<lparr>noticed := noticed d @ xs\<rparr>)"
  by (induction xs arbitrary: d) (simp_all add: noticing_def)

lemma noticed_http [simp]: "noticed (note_http evs d) = noticed d"
  by (simp add: note_http_def)

lemma noticed_call: "noticed (snd (deferred (note_http evs) (feed_crash xs crash noticing d))) = noticed d @ xs"
  by (simp add: deferred_def feed_crash_def noticing_all)

lemma received_plan: "received p g m c req = pl_items (ant_plan p g m c req True)"
  by (simp add: received_def ant.run noticed_call fresh_def)

text \<open>
  C34. The usage of a streamed Claude message never reaches a frontend, whatever the server sends and the network does. No response of
  the call has both a content and a usage, because the final one, which has the usage, has no content. An
  ADK event shows the content and the usage of the response it was made from; for any events of a runner
  of which each one with a usage shows a response of the call, no event that \<^verbatim>\<open>Chat\<close> delivers has a usage, because it
  passes over an event without content before it adds up.
\<close>

theorem streamed_usage_lost:
  assumes "\<forall>e \<in> set es. ae_usage e = None \<or>
    (\<exists>r. (Some r, None) \<in> set (received p g m c req) \<and> ae_content e = lr_content r \<and> ae_usage e = lr_usage r)"
  shows "(\<forall>r. (Some r, None) \<in> set (received p g m c req) \<longrightarrow> lr_content r = None \<or> lr_usage r = None) \<and>
    (\<forall>x \<in> set (items (chat user_content (replay_bridge (ok_items es)) user session message)). av_usage (fst x) = None)"
proof -
  have apart: "lr_content r = None \<or> lr_usage r = None" if "(Some r, None) \<in> set (received p g m c req)" for r
    using ant_stream_content_or_usage [of p g m c req] that by (auto simp: received_plan content_or_usage_def)
  then have "\<forall>e \<in> set es. ae_content e = None \<or> ae_usage e = None" using assms by metis
  then show ?thesis using no_usage_shown [of es] apart by (simp add: items_def chat.run feed_def)
qed

text \<open>A runner that makes an event of every response of the sample: the call of \<^verbatim>\<open>add\<close>, then the usage of 7 tokens.\<close>

theorem streamed_usage_lost_witness:
  "(\<exists>r. (Some r, None) \<in> set (received bare_platform genai_lib claude (serving (wire_text sample_wire)) empty_req) \<and>
      lr_usage r = Some \<lparr>prompt_count = 0, candidates_count = 7, total_count = 7\<rparr>) \<and>
    list_all (\<lambda>x. av_usage (fst x) = None) (items (chat (\<lambda>t. \<lparr>content_role = ''user'', content_parts = []\<rparr>)
      (replay_bridge (ok_items
        (map (\<lambda>i. \<lparr>ae_content = lr_content (the (fst i)), ae_usage = lr_usage (the (fst i)), ae_final = True, ae_author = ''bot''\<rparr>)
          (received bare_platform genai_lib claude (serving (wire_text sample_wire)) empty_req))))
      ''ann'' ''s1'' ''hello''))"
proof -
  let ?got = "received bare_platform genai_lib claude (serving (wire_text sample_wire)) empty_req"
  let ?events = "map (\<lambda>i. \<lparr>ae_content = lr_content (the (fst i)), ae_usage = lr_usage (the (fst i)), ae_final = True, ae_author = ''bot''\<rparr>) ?got"
  obtain q where q: "ant_http_request bare_platform claude empty_req True = Inr q" using claude_request by blast
  have got: "?got =
    [(Some \<lparr>lr_content = Some \<lparr>content_role = ''model'', content_parts = [call_part genai_lib ''add'' (Some [])]\<rparr>,
            lr_usage = None, lr_turn_complete = False, lr_finish = NoReason\<rparr>, None),
     (Some \<lparr>lr_content = None, lr_usage = Some (ant_usage_meta \<lparr>au_input = 0, au_output = 7\<rparr>), lr_turn_complete = True,
            lr_finish = ant_map_stop ''tool_use''\<rparr>, None)]"
    using ant_wire_stream [OF q do_stream_serving, where es = sample_wire and behind = "[]",
        OF _ _ sample_wire_speaks sample_block, where g = genai_lib and y = noticing and w = fresh] sample_wire_clean
    by (simp add: received_def noticed_call fresh_def flip: feed_crash_False)
  have "\<forall>e \<in> set ?events. ae_usage e = None \<or>
      (\<exists>r. (Some r, None) \<in> set ?got \<and> ae_content e = lr_content r \<and> ae_usage e = lr_usage r)"
    unfolding got by (simp add: conj_disj_distribR ex_disj_distrib)
  note lost = streamed_usage_lost [OF this]
  have "ant_usage_meta \<lparr>au_input = 0, au_output = 7\<rparr> = \<lparr>prompt_count = 0, candidates_count = 7, total_count = 7\<rparr>"
    by (simp add: ant_usage_meta_def int32_of_def)
  then have "\<exists>r. (Some r, None) \<in> set ?got \<and> lr_usage r = Some \<lparr>prompt_count = 0, candidates_count = 7, total_count = 7\<rparr>"
    unfolding got by (simp add: conj_disj_distribR ex_disj_distrib)
  then show ?thesis using lost unfolding list_all_iff by blast
qed

section \<open>The web frontend under the daemon\<close>

lemma run_frontend:
  assumes "get_frontend name (su_frontends su) = Some fe"
    and "offered (su_lib su) path (resolve_profile (su_platform su) profile) (su_fs su) = Some af"
    and "load (su_syntax su) (su_fs su) (runtime_config_path path rc_path) = Inr c"
    and "init_runtime (su_order su) (su_platform su) (su_providers su) (su_externals su) (new_runtime af (Some c)) = (None, rt)"
    and "new_agent_bridge (su_runner su) (su_sessions su) (rt_agent rt) = Inr b"
  shows "fst (run_daemon su path profile rc_path name port) =
    (case fe_run fe b of
       (None, _) \<Rightarrow> None
     | (Some e, cancelled) \<Rightarrow>
         if cancelled then None else Some (Errorf ''frontend %q failed: %w'' [AStr (fe_name fe), AErr e]))"
proof -
  obtain es where "main_agentfile (su_lib su) (su_fs su) path (resolve_profile (su_platform su) profile) = (es, Inr af)"
    using assms(2) by (cases "main_agentfile (su_lib su) (su_fs su) path (resolve_profile (su_platform su) profile)")
      (auto simp: offered_def split: sum.splits)
  then show ?thesis using assms
    by (simp add: run_daemon_def serve_def Let_def split: prod.split option.split)
qed

text \<open>
  C21. When a daemon with the web frontend exits well: once its earlier stages succeeded, exactly when its
  context was done before the frontend returned (a failure before it serves leaves only that flag of the run). However the server's events interleave, its shutdown on
  a cancelled context is no error and a failure to listen or to accept is one, but an error of a server
  whose context is done already is not reported. So the exit code tells a stop that was asked for from a failure.
\<close>

theorem web_daemon_exit:
  assumes "run_steps serving_step es serving_start = Some st" "sv_returned st = Some returned"
    and "get_frontend name (su_frontends su) =
      Some (playground_frontend (su_platform su) sub listen returned (sv_cancelled st))"
    and "offered (su_lib su) path (resolve_profile (su_platform su) profile) (su_fs su) = Some af"
    and "load (su_syntax su) (su_fs su) (runtime_config_path path rc_path) = Inr c"
    and "init_runtime (su_order su) (su_platform su) (su_providers su) (su_externals su) (new_runtime af (Some c)) = (None, rt)"
    and "new_agent_bridge (su_runner su) (su_sessions su) (rt_agent rt) = Inr b"
  shows "fst (run_daemon su path profile rc_path name port) =
      (if ContextDone \<in> set es then None
       else map_option (\<lambda>e. Errorf ''frontend %q failed: %w'' [AStr ''playground'', AErr e])
         (playground_run (su_platform su) sub listen returned)) \<and>
    (fst (run_daemon su path profile rc_path name port) = None \<longleftrightarrow> ContextDone \<in> set es)"
proof -
  have ok: "serving_ok es st" using assms(1) by (rule serving.along)
  then have "playground_run (su_platform su) sub listen returned \<noteq> None" if "ContextDone \<notin> set es"
    using that assms(2) by (auto simp: serving_ok_def playground_run_def split: option.split sum.split)
  then show ?thesis
    using ok unfolding run_frontend [OF assms(3-7)]
    by (auto simp: serving_ok_def playground_frontend_def split: option.split)
qed

text \<open>A daemon around one agent, whose web server fails to accept.\<close>

definition web_surroundings :: "(string, unit, string, unit) surroundings" where
  "web_surroundings =
    \<lparr>su_platform = bare_platform, su_fs = empty_fs\<lparr>files := [''Agentfile'' \<mapsto> ''hi'']\<rparr>, su_lib = prompt_lib, su_syntax = Ext,
     su_order = id, su_providers = one_provider, su_externals = easy_externals,
     su_frontends = [(''playground'', playground_frontend bare_platform None (\<lambda>_. None) (Ext ''too many open files'') False)],
     su_runner = (\<lambda>a. Inr (\<lambda>_ _ _. feed [])), su_sessions = (\<lambda>_ _. Inr ''s1''), su_now = 0\<rparr>"

lemma web_port: "playground_port bare_platform = Inr ''3000''"
proof -
  have "parse_int ''3000'' = Some 3000" by code_simp
  then show ?thesis by (simp add: playground_port_def bare_platform_def Let_def)
qed

lemma web_config: "load Ext (empty_fs\<lparr>files := [''Agentfile'' \<mapsto> ''hi'']\<rparr>) (runtime_config_path ''Agentfile'' []) = Inr \<lparr>cfg_models = Some []\<rparr>"
proof -
  have "runtime_config_path ''Agentfile'' [] = ''.crate/runtime.json''" by code_simp
  then show ?thesis by (simp add: load_def read_file_def empty_fs_def)
qed

lemma web_init: "\<exists>rt. init_runtime id bare_platform (one_provider :: (log_state \<times> unit limited_ext) world_scheme providers)
    (easy_externals :: (string, unit model_entry, string) externals) (new_runtime (small_af ''hi'') (Some \<lparr>cfg_models = Some []\<rparr>)) = (None, rt)"
  by (simp add: init_runtime_def new_model_registry_def small_af_def create_model_def lookup_def
    split_provider_model_def one_provider_def get_provider_def default_model_def easy_externals_def
    slash_def new_runtime_def)

theorem web_daemon_exit_witness:
  "fst (run_daemon web_surroundings ''Agentfile'' [] [] ''playground'' 8080) =
    Some (Errorf ''frontend %q failed: %w'' [AStr ''playground'',
      AErr (Errorf ''http server: %w'' [AErr (Ext ''too many open files'')])])"
proof -
  let ?st = "\<lparr>sv_cancelled = False, sv_shutdown = False, sv_returned = Some (Ext ''too many open files'')\<rparr>"
  obtain rt where i: "init_runtime id bare_platform (one_provider :: (log_state \<times> unit limited_ext) world_scheme providers)
      (easy_externals :: (string, unit model_entry, string) externals) (new_runtime (small_af ''hi'') (Some \<lparr>cfg_models = Some []\<rparr>)) =
      (None, rt)"
    using web_init by blast
  have st: "run_steps serving_step [AcceptFailed (Ext ''too many open files'')] serving_start = Some ?st"
    by (simp add: serving_start_def server_closed_def)
  have profile: "resolve_profile bare_platform [] = []" by (simp add: resolve_profile_def bare_platform_def)
  have off: "offered prompt_lib ''Agentfile'' [] (empty_fs\<lparr>files := [''Agentfile'' \<mapsto> ''hi'']\<rparr>) = Some (small_af ''hi'')"
    by (simp add: offered_def main_agentfile_def read_bytes_def read_file_def empty_fs_def prompt_lib_def)
  have run: "playground_run bare_platform None (\<lambda>_. None) (Ext ''too many open files'') =
      Some (Errorf ''http server: %w'' [AErr (Ext ''too many open files'')])"
    by (simp add: playground_run_def web_port server_closed_def)
  show ?thesis
    using web_daemon_exit [OF st, where su = web_surroundings and name = "''playground''" and path = "''Agentfile''"
      and profile = "[]" and rc_path = "[]" and port = 8080 and returned = "Ext ''too many open files''"
      and sub = None and listen = "\<lambda>_. None" and af = "small_af ''hi''" and c = "\<lparr>cfg_models = Some []\<rparr>" and rt = rt] i
    by (simp add: web_surroundings_def get_frontend_def profile off web_config new_agent_bridge_def run)
qed

end
